(* ===== verification/Modbus_Prelude.thy ===== *)
theory Modbus_Prelude
  imports Main "HOL-Library.Word" "HOL-Library.Monad_Syntax"
begin

text \<open>
  Shared vocabulary of the development: machine integers, C byte buffers with explicit
  undefined behaviour, bounded \<open>for\<close> loops, and the generic lemmas the component
  theories rest on.

  A C computation is a value of type \<open>'a option\<close>. \<^term>\<open>None\<close> means that the computation
  has no defined result: it accesses an object outside its bounds, or (in the I/O theories)
  it waits for a system call that never returns. A theorem whose conclusion is an equation
  with \<^term>\<open>Some\<close> therefore also states memory safety and termination of the code.

  A pointer into an array is modelled by the array itself and an offset. A read-only pointer
  \<open>p + k\<close> is \<open>ptr p k\<close>, the part of the array from offset \<open>k\<close> on; a pointer the callee
  writes through is the whole array, which the callee returns updated, run on a suffix of the
  array by \<open>call_at\<close>. The indeterminate contents of an uninitialised local array are read
  from a value of type \<open>stack\<close>, over which every theorem quantifies. \<open>size_t\<close> is \<^typ>\<open>nat\<close>,
  with the wrap-around modulo \<open>2 ^ 64\<close> written out where a caller could reach it.
\<close>

unbundle bit_operations_syntax

section \<open>Machine integers\<close>

type_synonym u8 = "8 word"
type_synonym u16 = "16 word"
type_synonym u32 = "32 word"
type_synonym u64 = "64 word"

text \<open>Return codes of C functions of type \<open>int\<close>; the code only returns small constants.\<close>

type_synonym c_int = int

named_theorems buf_simps \<open>symbolic execution of reads and writes of byte buffers\<close>
named_theorems width_simps \<open>reading machine integers as natural numbers\<close>

text \<open>Bounds checks stay comparisons of lengths, which linear arithmetic decides.\<close>

declare length_greater_0_conv [simp del] add_2_eq_Suc [simp del] add_2_eq_Suc' [simp del]

section \<open>Byte buffers\<close>

definition rd :: "'a list \<Rightarrow> nat \<Rightarrow> 'a option" where
  "rd b i = (if i < length b then Some (b ! i) else None)"

definition wr :: "'a list \<Rightarrow> nat \<Rightarrow> 'a \<Rightarrow> 'a list option" where
  "wr b i v = (if i < length b then Some (b[i := v]) else None)"

text \<open>\<open>memcpy (dst + off, src, n)\<close> and \<open>memset (dst + off, v, n)\<close>.\<close>

definition memcpy_to :: "'a list \<Rightarrow> nat \<Rightarrow> 'a list \<Rightarrow> nat \<Rightarrow> 'a list option" where
  "memcpy_to dst off src n =
     (if off + n \<le> length dst \<and> n \<le> length src
      then Some (take off dst @ take n src @ drop (off + n) dst) else None)"

definition memset_to :: "'a list \<Rightarrow> nat \<Rightarrow> 'a \<Rightarrow> nat \<Rightarrow> 'a list option" where
  "memset_to dst off v n = memcpy_to dst off (replicate n v) n"

text \<open>\<open>memcmp (a, b, n) == 0\<close>.\<close>

definition memcmp_eq :: "'a list \<Rightarrow> 'a list \<Rightarrow> nat \<Rightarrow> bool option" where
  "memcmp_eq a b n =
     (if n \<le> length a \<and> n \<le> length b then Some (take n a = take n b) else None)"

definition ptr :: "'a list \<Rightarrow> nat \<Rightarrow> 'a list" where
  "ptr b k = drop k b"

definition call_at :: "nat \<Rightarrow> ('a list \<Rightarrow> ('r \<times> 'a list) option) \<Rightarrow> 'a list \<Rightarrow> ('r \<times> 'a list) option" where
  "call_at k f b =
     (if k \<le> length b
      then do { (r, b') \<leftarrow> f (drop k b); Some (r, take k b @ b') } else None)"

text \<open>The stack memory that uninitialised local arrays are carved from.\<close>

record stack =
  stk8 :: "nat \<Rightarrow> u8"
  stk16 :: "nat \<Rightarrow> u16"

definition local8 :: "stack \<Rightarrow> nat \<Rightarrow> u8 list" where
  "local8 J n = map (stk8 J) [0..<n]"

definition local16 :: "stack \<Rightarrow> nat \<Rightarrow> u16 list" where
  "local16 J n = map (stk16 J) [0..<n]"

text \<open>
  A function with several uninitialised arrays takes them from consecutive parts of the stack,
  and the functions it calls find theirs above.
\<close>

definition stack_above :: "nat \<Rightarrow> stack \<Rightarrow> stack" where
  "stack_above n J = \<lparr>stk8 = (\<lambda>i. stk8 J (i + n)), stk16 = (\<lambda>i. stk16 J (i + n))\<rparr>"

text \<open>A stack of zeros, for the concrete instances.\<close>

definition zero_stack :: stack where
  "zero_stack = \<lparr>stk8 = (\<lambda>_. 0), stk16 = (\<lambda>_. 0)\<rparr>"

text \<open>\<open>for (i = 0; i < n; i++)\<close> with the loop state passed explicitly.\<close>

primrec for_upto :: "nat \<Rightarrow> (nat \<Rightarrow> 's \<Rightarrow> 's option) \<Rightarrow> 's \<Rightarrow> 's option" where
  "for_upto 0 f s = Some s"
| "for_upto (Suc n) f s = do { s' \<leftarrow> for_upto n f s; f n s' }"

text \<open>
  The specification side of writing: \<open>blit b off xs\<close> is \<open>b\<close> with \<open>xs\<close> stored from
  offset \<open>off\<close> on. Every write inside the bounds is a \<open>blit\<close>, and adjacent ones merge.
\<close>

definition blit :: "'a list \<Rightarrow> nat \<Rightarrow> 'a list \<Rightarrow> 'a list" where
  "blit b off xs = take off b @ xs @ drop (off + length xs) b"

lemma length_blit [simp]: "off + length xs \<le> length b \<Longrightarrow> length (blit b off xs) = length b"
  by (simp add: blit_def)

lemma blit_Nil [simp]: "blit b off [] = b"
  by (simp add: blit_def)

lemma blit_all [simp]: "length xs = length b \<Longrightarrow> blit b 0 xs = xs"
  by (simp add: blit_def)

lemma rd_Some [buf_simps]: "i < length b \<Longrightarrow> rd b i = Some (b ! i)"
  by (simp add: rd_def)

lemma rd_Cons [simp]: "rd (x # xs) 0 = Some x" "rd (x # xs) (Suc i) = rd xs i"
  by (simp_all add: rd_def)

lemma wr_blit [buf_simps]: "i < length b \<Longrightarrow> wr b i v = Some (blit b i [v])"
  by (simp add: wr_def blit_def upd_conv_take_nth_drop)

lemma memcpy_to_blit [buf_simps]:
  "off + n \<le> length dst \<Longrightarrow> n \<le> length src \<Longrightarrow> memcpy_to dst off src n = Some (blit dst off (take n src))"
  by (simp add: memcpy_to_def blit_def)

lemma memset_to_blit [buf_simps]:
  "off + n \<le> length dst \<Longrightarrow> memset_to dst off v n = Some (blit dst off (replicate n v))"
  by (simp add: memset_to_def memcpy_to_blit)

lemma memcmp_eq_Some [buf_simps]:
  "n \<le> length a \<Longrightarrow> n \<le> length b \<Longrightarrow> memcmp_eq a b n = Some (take n a = take n b)"
  by (simp add: memcmp_eq_def)

lemma blit_append [buf_simps]:
  "k = off + length xs \<Longrightarrow> off + length xs + length ys \<le> length b \<Longrightarrow>
   blit (blit b off xs) k ys = blit b off (xs @ ys)"
  by (simp add: blit_def ac_simps)

lemma blit_prepend:
  "k + length ys = off \<Longrightarrow> off + length xs \<le> length b \<Longrightarrow>
   blit (blit b off xs) k ys = blit b k (ys @ xs)"
  by (auto simp: blit_def min_def ac_simps)

lemma nth_blit:
  "off + length xs \<le> length b \<Longrightarrow> i < length b \<Longrightarrow>
   blit b off xs ! i = (if off \<le> i \<and> i < off + length xs then xs ! (i - off) else b ! i)"
  by (auto simp: blit_def nth_append)

lemma take_blit_0 [simp]: "n = length xs \<Longrightarrow> take n (blit b 0 xs) = xs"
  by (simp add: blit_def)

lemma take_blit_off [simp]:
  "off + length xs \<le> length b \<Longrightarrow> n = off + length xs \<Longrightarrow> take n (blit b off xs) = take off b @ xs"
  by (simp add: blit_def)

lemma drop_blit_off: "off \<le> length b \<Longrightarrow> drop off (blit b off xs) = xs @ drop (off + length xs) b"
  by (simp add: blit_def)

lemma ptr_0 [simp]: "ptr b 0 = b"
  by (simp add: ptr_def)

lemma ptr_Cons [simp]: "ptr (x # xs) (Suc k) = ptr xs k"
  by (simp add: ptr_def)

lemma ptr_Cons_numeral [simp]: "ptr (x # xs) 1 = xs" "ptr (x # xs) (numeral n) = ptr xs (pred_numeral n)"
  by (simp_all add: ptr_def)

lemma rd_Cons_numeral [simp]: "rd (x # xs) 1 = rd xs 0" "rd (x # xs) (numeral n) = rd xs (pred_numeral n)"
  by (simp_all add: rd_def numeral_eq_Suc)

lemma length_ptr [simp]: "length (ptr b k) = length b - k"
  by (simp add: ptr_def)

lemma rd_ptr: "rd (ptr b k) i = rd b (k + i)"
  by (auto simp: rd_def ptr_def)

lemma length_local8 [simp]: "length (local8 J n) = n"
  by (simp add: local8_def)

lemma length_local16 [simp]: "length (local16 J n) = n"
  by (simp add: local16_def)

lemma rd_append_left [simp]: "i < length xs \<Longrightarrow> rd (xs @ ys) i = rd xs i"
  by (simp add: rd_def nth_append)

lemma rd_blit_in [buf_simps]:
  "off + length xs \<le> length b \<Longrightarrow> k < length xs \<Longrightarrow> rd (blit b off xs) (off + k) = Some (xs ! k)"
  by (simp add: rd_def nth_blit)

lemma wr_blit_in:
  "off + length xs \<le> length b \<Longrightarrow> k < length xs \<Longrightarrow>
   wr (blit b off xs) (off + k) v = Some (blit b off (xs[k := v]))"
  by (auto simp: wr_def nth_blit nth_list_update intro!: nth_equalityI)

lemma call_at_blit:
  assumes "f (drop k b) = Some (r, blit (drop k b) 0 xs)" and "k \<le> length b"
  shows "call_at k f b = Some (r, blit b k xs)"
  using assms by (simp add: call_at_def blit_def add.commute)

lemma length_ge_5_cases:
  assumes "5 \<le> length xs"
  obtains a b c d e ys where "xs = a # b # c # d # e # ys"
  using assms by (auto simp: numeral_eq_Suc Suc_le_length_iff)

lemma take_5_Cons:
  "5 \<le> n \<Longrightarrow> take n (a # b # c # d # e # ys) = a # b # c # d # e # take (n - 5) ys"
  by (simp add: take_Cons' eval_nat_numeral)

section \<open>Loops\<close>

lemma for_upto_inv:
  assumes "I 0 s"
    and "\<And>i t. i < n \<Longrightarrow> I i t \<Longrightarrow> \<exists>t'. f i t = Some t' \<and> I (Suc i) t'"
  shows "\<exists>t. for_upto n f s = Some t \<and> I n t"
  using assms(2)
proof (induction n)
  case 0
  then show ?case using assms(1) by simp
next
  case (Suc n)
  then obtain t where "for_upto n f s = Some t" "I n t" by (metis less_Suc_eq)
  with Suc.prems[of n t] show ?case by auto
qed

text \<open>A loop whose state after \<open>i\<close> rounds is \<open>g i\<close>.\<close>

lemma for_upto_eq:
  assumes "g 0 = s" and "\<And>i. i < n \<Longrightarrow> f i (g i) = Some (g (Suc i))"
  shows "for_upto n f s = Some (g n)"
  using for_upto_inv[where I = "\<lambda>i t. t = g i" and n = n and f = f and s = s] assms by auto

lemma for_upto_cong:
  "(\<And>i t. i < n \<Longrightarrow> f i t = g i t) \<Longrightarrow> for_upto n f s = for_upto n g s"
  by (induction n) auto

section \<open>Words\<close>

lemma mask8_u16: "(0xFF :: u16) = mask 8"
  by (simp add: mask_eq_exp_minus_1)

text \<open>Big-endian bytes of a 16-bit value, and back.\<close>

definition be16 :: "u16 \<Rightarrow> u8 list" where
  "be16 v = [ucast (drop_bit 8 v), ucast (v AND 0xFF)]"

definition of_be16 :: "u8 \<Rightarrow> u8 \<Rightarrow> u16" where
  "of_be16 hi lo = push_bit 8 (ucast hi) OR ucast lo"

lemma length_be16 [simp]: "length (be16 v) = 2"
  by (simp add: be16_def)

lemma of_be16_be16 [simp]: "of_be16 (ucast (drop_bit 8 v)) (ucast (v AND 0xFF)) = v"
  unfolding of_be16_def mask8_u16 by (rule bit_word_eqI) (auto simp: bit_simps)

lemma be16_of_be16 [simp]: "be16 (of_be16 hi lo) = [hi, lo]"
proof -
  have "ucast (drop_bit 8 (of_be16 hi lo)) = hi"
    unfolding of_be16_def by (rule bit_word_eqI) (auto simp: bit_simps dest: bit_imp_le_length)
  moreover have "ucast (of_be16 hi lo AND 0xFF) = lo"
    unfolding of_be16_def mask8_u16 by (rule bit_word_eqI) (auto simp: bit_simps)
  ultimately show ?thesis by (simp add: be16_def)
qed

lemma be16_inject [simp]: "be16 v = be16 w \<longleftrightarrow> v = w"
  by (metis be16_def list.inject of_be16_be16)

lemma of_be16_inject [simp]: "of_be16 a b = of_be16 c d \<longleftrightarrow> a = c \<and> b = d"
  by (metis be16_of_be16 list.inject)

lemma be16_of_u32:
  "ucast (drop_bit 8 (word_of_int a :: u32)) = (ucast (drop_bit 8 (word_of_int a :: u16)) :: u8)"
  "ucast ((word_of_int a :: u32) AND 0xFF) = (ucast ((word_of_int a :: u16) AND 0xFF) :: u8)"
proof -
  have m: "(0xFF :: u32) = mask 8" by (simp add: mask_eq_exp_minus_1)
  show "ucast ((word_of_int a :: u32) AND 0xFF) = (ucast ((word_of_int a :: u16) AND 0xFF) :: u8)"
    unfolding mask8_u16 m by (intro bit_word_eqI) (auto simp: bit_simps)
  show "ucast (drop_bit 8 (word_of_int a :: u32)) = (ucast (drop_bit 8 (word_of_int a :: u16)) :: u8)"
    by (rule bit_word_eqI) (auto simp: bit_simps)
qed

lemma be16_of_nat:
  assumes "m < 65536"
  shows "be16 (of_nat m) = [of_nat (m div 2 ^ 8), of_nat (m mod 2 ^ 8)]"
proof -
  have "unat (take_bit 8 (of_nat m :: u16)) = unat (of_nat (m mod 2 ^ 8) :: u16)"
    unfolding unsigned_take_bit_eq using assms by (simp add: take_bit_eq_mod unat_of_nat)
  then have "(of_nat m :: u16) AND mask 8 = of_nat (m mod 2 ^ 8)"
    by (simp only: take_bit_eq_mask[symmetric] word_unat_eq_iff)
  moreover have "drop_bit 8 (of_nat m :: u16) = of_nat (m div 2 ^ 8)"
    using assms by (simp add: word_unat_eq_iff unat_div unat_of_nat drop_bit_eq_div)
  ultimately show ?thesis using assms
    by (simp add: be16_def mask8_u16 unsigned_of_nat take_bit_eq_mod)
qed

definition be16s :: "u16 list \<Rightarrow> u8 list" where
  "be16s vs = concat (map be16 vs)"

lemma length_be16s [simp]: "length (be16s vs) = 2 * length vs"
  by (induction vs) (auto simp: be16s_def)

lemma be16s_Nil [simp]: "be16s [] = []"
  by (simp add: be16s_def)

lemma be16s_Cons [simp]: "be16s (v # vs) = be16 v @ be16s vs"
  by (simp add: be16s_def)

lemma be16s_append [simp]: "be16s (vs @ ws) = be16s vs @ be16s ws"
  by (simp add: be16s_def)

fun of_be16s :: "u8 list \<Rightarrow> u16 list" where
  "of_be16s (h # l # bs) = of_be16 h l # of_be16s bs"
| "of_be16s bs = []"

lemma of_be16s_be16s [simp]: "of_be16s (be16s vs) = vs"
  by (induction vs) (auto simp: be16_def)

lemma be16s_of_be16s: "even (length bs) \<Longrightarrow> be16s (of_be16s bs) = bs"
  by (induction bs rule: of_be16s.induct) auto

lemma length_of_be16s [simp]: "length (of_be16s bs) = length bs div 2"
  by (induction bs rule: of_be16s.induct) auto

lemma nth_of_be16s:
  "2 * i + 1 < length bs \<Longrightarrow> of_be16s bs ! i = of_be16 (bs ! (2 * i)) (bs ! (2 * i + 1))"
proof (induction bs arbitrary: i rule: of_be16s.induct)
  case (1 h l bs)
  then show ?case by (cases i) auto
qed auto

lemma unat_u8_less: "unat (x :: u8) < 256"
  using unsigned_less[of x] by simp

lemma unat_u16_less: "unat (x :: u16) < 65536"
  using unsigned_less[of x] by simp

lemma of_nat_u8_eq_iff: "m < 256 \<Longrightarrow> n < 256 \<Longrightarrow> (of_nat m :: u8) = of_nat n \<longleftrightarrow> m = n"
  by (simp add: word_of_nat_eq_iff take_bit_eq_mod)

lemma unat_of_nat_u8: "m < 256 \<Longrightarrow> unat (of_nat m :: u8) = m"
  by (simp add: unat_of_nat)

lemma unat_of_nat_u16: "m < 65536 \<Longrightarrow> unat (of_nat m :: u16) = m"
  by (simp add: unat_of_nat)

lemmas word_of_nat_simps = of_nat_u8_eq_iff unat_of_nat_u8 unat_of_nat_u16

text \<open>A time in milliseconds other than 0 is not 0 in seconds and microseconds.\<close>

lemma timeval_nonzero:
  assumes "(t :: u32) \<noteq> 0" shows "t div 1000 \<noteq> 0 \<or> t mod 1000 * 1000 \<noteq> 0"
proof (rule ccontr)
  assume "\<not> ?thesis"
  then have d: "t div 1000 = 0" and m: "t mod 1000 * 1000 = 0" by auto
  have lt: "unat t < 1000"
  proof -
    have "unat (t div 1000) = unat t div 1000" by (simp add: unat_div)
    with d have "unat t div 1000 = 0" by simp
    then show ?thesis by simp
  qed
  have "unat (t mod 1000 * 1000) = unat t * 1000" using lt by (simp add: unat_word_ariths unat_mod_distrib)
  then have "unat t = 0" using m by simp
  then show False using assms by (simp add: unat_eq_zero)
qed

end
