(* ===== verification/Modbus_Pdu.thy ===== *)
theory Modbus_Pdu
  imports Modbus_Prelude
begin

text \<open>
  The transport-independent PDU layer, \<^verbatim>\<open>src/src/modbus_pdu.c\<close> with the constants of
  \<^verbatim>\<open>src/include/modbus_defines.h\<close>: building requests, checking and decoding responses,
  and dispatching a request to the application callbacks. Every function of the file is one
  definition below, in the file's order. An application callback is a function on the
  application state (the object \<open>userdata\<close> points to); a callback that fills an array takes
  the array and returns it updated; like every C computation it may have no defined result.
\<close>

section \<open>Constants\<close>

abbreviation (input) MODBUS_FUNC_READ_COILS :: u8 where "MODBUS_FUNC_READ_COILS \<equiv> 0x01"
abbreviation (input) MODBUS_FUNC_READ_DISCRETE_INPUTS :: u8 where "MODBUS_FUNC_READ_DISCRETE_INPUTS \<equiv> 0x02"
abbreviation (input) MODBUS_FUNC_READ_HOLDING_REGISTERS :: u8 where "MODBUS_FUNC_READ_HOLDING_REGISTERS \<equiv> 0x03"
abbreviation (input) MODBUS_FUNC_READ_INPUT_REGISTERS :: u8 where "MODBUS_FUNC_READ_INPUT_REGISTERS \<equiv> 0x04"
abbreviation (input) MODBUS_FUNC_WRITE_SINGLE_COIL :: u8 where "MODBUS_FUNC_WRITE_SINGLE_COIL \<equiv> 0x05"
abbreviation (input) MODBUS_FUNC_WRITE_SINGLE_REGISTER :: u8 where "MODBUS_FUNC_WRITE_SINGLE_REGISTER \<equiv> 0x06"
abbreviation (input) MODBUS_FUNC_WRITE_MULTIPLE_COILS :: u8 where "MODBUS_FUNC_WRITE_MULTIPLE_COILS \<equiv> 0x0F"
abbreviation (input) MODBUS_FUNC_WRITE_MULTIPLE_REGISTERS :: u8 where "MODBUS_FUNC_WRITE_MULTIPLE_REGISTERS \<equiv> 0x10"

abbreviation (input) MODBUS_MAX_PDU_LENGTH :: nat where "MODBUS_MAX_PDU_LENGTH \<equiv> 253"
abbreviation (input) MODBUS_MAX_READ_REGISTERS :: nat where "MODBUS_MAX_READ_REGISTERS \<equiv> 125"
abbreviation (input) MODBUS_MAX_WRITE_REGISTERS :: nat where "MODBUS_MAX_WRITE_REGISTERS \<equiv> 123"
abbreviation (input) MODBUS_MAX_READ_BITS :: nat where "MODBUS_MAX_READ_BITS \<equiv> 2000"
abbreviation (input) MODBUS_MAX_WRITE_BITS :: nat where "MODBUS_MAX_WRITE_BITS \<equiv> 1968"
abbreviation (input) MODBUS_COIL_ON :: u16 where "MODBUS_COIL_ON \<equiv> 0xFF00"
abbreviation (input) MODBUS_COIL_OFF :: u16 where "MODBUS_COIL_OFF \<equiv> 0x0000"

abbreviation (input) MODBUS_EXCEPTION_FLAG :: u8 where "MODBUS_EXCEPTION_FLAG \<equiv> 0x80"
abbreviation (input) MODBUS_EX_ILLEGAL_FUNCTION :: u8 where "MODBUS_EX_ILLEGAL_FUNCTION \<equiv> 0x01"
abbreviation (input) MODBUS_EX_ILLEGAL_DATA_ADDRESS :: u8 where "MODBUS_EX_ILLEGAL_DATA_ADDRESS \<equiv> 0x02"
abbreviation (input) MODBUS_EX_ILLEGAL_DATA_VALUE :: u8 where "MODBUS_EX_ILLEGAL_DATA_VALUE \<equiv> 0x03"
abbreviation (input) MODBUS_EX_SERVER_DEVICE_FAILURE :: u8 where "MODBUS_EX_SERVER_DEVICE_FAILURE \<equiv> 0x04"

abbreviation (input) MB_PDU_ERR_FRAME :: c_int where "MB_PDU_ERR_FRAME \<equiv> -1"

abbreviation (input) PDU_OFFSET_FC :: nat where "PDU_OFFSET_FC \<equiv> 0"
abbreviation (input) PDU_OFFSET_ADDR :: nat where "PDU_OFFSET_ADDR \<equiv> 1"
abbreviation (input) PDU_OFFSET_QTY :: nat where "PDU_OFFSET_QTY \<equiv> 3"
abbreviation (input) PDU_OFFSET_BYTE_COUNT :: nat where "PDU_OFFSET_BYTE_COUNT \<equiv> 5"
abbreviation (input) PDU_OFFSET_WRITE_DATA :: nat where "PDU_OFFSET_WRITE_DATA \<equiv> 6"
abbreviation (input) PDU_OFFSET_READ_BYTE_COUNT :: nat where "PDU_OFFSET_READ_BYTE_COUNT \<equiv> 1"
abbreviation (input) PDU_OFFSET_READ_DATA :: nat where "PDU_OFFSET_READ_DATA \<equiv> 2"
abbreviation (input) PDU_FIXED_REQ_LEN :: nat where "PDU_FIXED_REQ_LEN \<equiv> 5"
abbreviation (input) PDU_WRITE_RESPONSE_LEN :: nat where "PDU_WRITE_RESPONSE_LEN \<equiv> 5"
abbreviation (input) PDU_EXCEPTION_LEN :: nat where "PDU_EXCEPTION_LEN \<equiv> 2"

section \<open>Application callbacks\<close>

record 'u mb_pdu_handlers =
  read_registers :: "(u8 \<Rightarrow> u16 \<Rightarrow> u16 \<Rightarrow> u16 list \<Rightarrow> 'u \<Rightarrow> (c_int \<times> u16 list \<times> 'u) option) option"
  write_registers :: "(u16 \<Rightarrow> u16 \<Rightarrow> u16 list \<Rightarrow> 'u \<Rightarrow> (c_int \<times> 'u) option) option"
  read_bits :: "(u8 \<Rightarrow> u16 \<Rightarrow> u16 \<Rightarrow> u8 list \<Rightarrow> 'u \<Rightarrow> (c_int \<times> u8 list \<times> 'u) option) option"
  write_bits :: "(u16 \<Rightarrow> u16 \<Rightarrow> u8 list \<Rightarrow> 'u \<Rightarrow> (c_int \<times> 'u) option) option"

text \<open>What a handler yields: the response length, the application state, the response buffer.\<close>

type_synonym 'u handled = "((nat \<times> 'u) \<times> u8 list) option"

section \<open>Encoding helpers\<close>

definition get_u16 :: "u8 list \<Rightarrow> u16 option" where
  "get_u16 p = do { hi \<leftarrow> rd p 0; lo \<leftarrow> rd p 1; Some (push_bit 8 (ucast hi) OR ucast lo) }"

definition put_u16 :: "u8 list \<Rightarrow> nat \<Rightarrow> u16 \<Rightarrow> u8 list option" where
  "put_u16 b p v = do {
     b \<leftarrow> wr b p (ucast (drop_bit 8 v));
     wr b (p + 1) (ucast (v AND 0xFF)) }"

definition range_overflows :: "u16 \<Rightarrow> u16 \<Rightarrow> bool" where
  "range_overflows addr qty \<longleftrightarrow> (ucast addr :: u32) + ucast qty > 0x10000"

definition bit_byte_count :: "u16 \<Rightarrow> nat" where
  "bit_byte_count qty = (unat qty + 7) div 8"

definition pack_bits :: "u8 list \<Rightarrow> u16 \<Rightarrow> u8 list \<Rightarrow> nat \<Rightarrow> u8 list option" where
  "pack_bits values qty out off = do {
     out \<leftarrow> memset_to out off 0 (bit_byte_count qty);
     for_upto (unat qty) (\<lambda>i out. do {
       v \<leftarrow> rd values i;
       if v \<noteq> 0 then do {
         x \<leftarrow> rd out (off + i div 8);
         wr out (off + i div 8) (x OR push_bit (i mod 8) 1) }
       else Some out }) out }"

definition unpack_bits :: "u8 list \<Rightarrow> u16 \<Rightarrow> u8 list \<Rightarrow> u8 list option" where
  "unpack_bits packed qty out =
     for_upto (unat qty) (\<lambda>i out. do {
       x \<leftarrow> rd packed (i div 8);
       wr out i (drop_bit (i mod 8) x AND 1) }) out"

definition build_exception :: "u8 list \<Rightarrow> u8 \<Rightarrow> u8 \<Rightarrow> (nat \<times> u8 list) option" where
  "build_exception resp function_code exception_code = do {
     resp \<leftarrow> wr resp 0 (function_code OR MODBUS_EXCEPTION_FLAG);
     resp \<leftarrow> wr resp 1 exception_code;
     Some (PDU_EXCEPTION_LEN, resp) }"

definition exception_from_callback_rc :: "c_int \<Rightarrow> u8" where
  "exception_from_callback_rc rc =
     (if rc \<in> {0x01, 0x02, 0x03, 0x04, 0x05, 0x06, 0x08, 0x0A, 0x0B}
      then word_of_int rc else MODBUS_EX_SERVER_DEVICE_FAILURE)"

definition build_write_echo :: "u8 list \<Rightarrow> u8 list \<Rightarrow> (nat \<times> u8 list) option" where
  "build_write_echo req resp = do {
     resp \<leftarrow> memcpy_to resp 0 req PDU_WRITE_RESPONSE_LEN;
     Some (PDU_WRITE_RESPONSE_LEN, resp) }"

section \<open>Building requests\<close>

definition mb_pdu_build_read :: "u8 list \<Rightarrow> u8 \<Rightarrow> u16 \<Rightarrow> u16 \<Rightarrow> (nat \<times> u8 list) option" where
  "mb_pdu_build_read pdu function_code addr qty = do {
     pdu \<leftarrow> wr pdu PDU_OFFSET_FC function_code;
     pdu \<leftarrow> put_u16 pdu PDU_OFFSET_ADDR addr;
     pdu \<leftarrow> put_u16 pdu PDU_OFFSET_QTY qty;
     Some (PDU_FIXED_REQ_LEN, pdu) }"

definition mb_pdu_build_write_single :: "u8 list \<Rightarrow> u8 \<Rightarrow> u16 \<Rightarrow> u16 \<Rightarrow> (nat \<times> u8 list) option" where
  "mb_pdu_build_write_single pdu function_code addr value = mb_pdu_build_read pdu function_code addr value"

definition mb_pdu_build_write_registers :: "u8 list \<Rightarrow> u16 \<Rightarrow> u16 \<Rightarrow> u16 list \<Rightarrow> (nat \<times> u8 list) option" where
  "mb_pdu_build_write_registers pdu addr qty data = do {
     (_, pdu) \<leftarrow> mb_pdu_build_read pdu MODBUS_FUNC_WRITE_MULTIPLE_REGISTERS addr qty;
     pdu \<leftarrow> wr pdu PDU_OFFSET_BYTE_COUNT (of_nat (unat qty * 2));
     pdu \<leftarrow> for_upto (unat qty) (\<lambda>i pdu. do {
       v \<leftarrow> rd data i;
       put_u16 pdu (PDU_OFFSET_WRITE_DATA + i * 2) v }) pdu;
     Some (PDU_OFFSET_WRITE_DATA + unat qty * 2, pdu) }"

definition mb_pdu_build_write_coils :: "u8 list \<Rightarrow> u16 \<Rightarrow> u16 \<Rightarrow> u8 list \<Rightarrow> (nat \<times> u8 list) option" where
  "mb_pdu_build_write_coils pdu addr qty values = do {
     let byte_count = bit_byte_count qty;
     (_, pdu) \<leftarrow> mb_pdu_build_read pdu MODBUS_FUNC_WRITE_MULTIPLE_COILS addr qty;
     pdu \<leftarrow> wr pdu PDU_OFFSET_BYTE_COUNT (of_nat byte_count);
     pdu \<leftarrow> pack_bits values qty pdu PDU_OFFSET_WRITE_DATA;
     Some (PDU_OFFSET_WRITE_DATA + byte_count, pdu) }"

section \<open>Checking and decoding responses\<close>

definition mb_pdu_check_response :: "u8 list \<Rightarrow> u8 list \<Rightarrow> nat \<Rightarrow> c_int option" where
  "mb_pdu_check_response req resp resp_len = do {
     fc \<leftarrow> rd req PDU_OFFSET_FC;
     qty \<leftarrow> get_u16 (ptr req PDU_OFFSET_QTY);
     if resp_len < 1 then Some MB_PDU_ERR_FRAME
     else do {
       r0 \<leftarrow> rd resp PDU_OFFSET_FC;
       if r0 = fc OR MODBUS_EXCEPTION_FLAG then
         (if resp_len \<noteq> PDU_EXCEPTION_LEN then Some MB_PDU_ERR_FRAME
          else do {
            r1 \<leftarrow> rd resp 1;
            Some (if r1 = 0 then MB_PDU_ERR_FRAME else uint r1) })
       else if r0 \<noteq> fc then Some MB_PDU_ERR_FRAME
       else if fc \<in> {MODBUS_FUNC_READ_COILS, MODBUS_FUNC_READ_DISCRETE_INPUTS,
                MODBUS_FUNC_READ_HOLDING_REGISTERS, MODBUS_FUNC_READ_INPUT_REGISTERS} then do {
         let byte_count = (if fc \<le> MODBUS_FUNC_READ_DISCRETE_INPUTS
                      then bit_byte_count qty else unat qty * 2);
         if resp_len \<noteq> PDU_OFFSET_READ_DATA + byte_count then Some MB_PDU_ERR_FRAME
         else do {
           bc \<leftarrow> rd resp PDU_OFFSET_READ_BYTE_COUNT;
           Some (if bc \<noteq> of_nat byte_count then MB_PDU_ERR_FRAME else 0) } }
       else if fc \<in> {MODBUS_FUNC_WRITE_SINGLE_COIL, MODBUS_FUNC_WRITE_SINGLE_REGISTER,
                MODBUS_FUNC_WRITE_MULTIPLE_COILS, MODBUS_FUNC_WRITE_MULTIPLE_REGISTERS} then
         (if resp_len \<noteq> PDU_WRITE_RESPONSE_LEN then Some MB_PDU_ERR_FRAME
          else do {
            same \<leftarrow> memcmp_eq (ptr resp PDU_OFFSET_ADDR) (ptr req PDU_OFFSET_ADDR) 4;
            Some (if same then 0 else MB_PDU_ERR_FRAME) })
       else Some MB_PDU_ERR_FRAME } }"

definition mb_pdu_get_registers :: "u8 list \<Rightarrow> u16 \<Rightarrow> u16 list \<Rightarrow> u16 list option" where
  "mb_pdu_get_registers resp qty out =
     for_upto (unat qty) (\<lambda>i out. do {
       v \<leftarrow> get_u16 (ptr resp (PDU_OFFSET_READ_DATA + i * 2));
       wr out i v }) out"

definition mb_pdu_get_bits :: "u8 list \<Rightarrow> u16 \<Rightarrow> u8 list \<Rightarrow> u8 list option" where
  "mb_pdu_get_bits resp qty out = unpack_bits (ptr resp PDU_OFFSET_READ_DATA) qty out"

definition mb_pdu_is_write :: "u8 \<Rightarrow> bool" where
  "mb_pdu_is_write function_code \<longleftrightarrow>
     function_code = MODBUS_FUNC_WRITE_SINGLE_COIL \<or>
     function_code = MODBUS_FUNC_WRITE_SINGLE_REGISTER \<or>
     function_code = MODBUS_FUNC_WRITE_MULTIPLE_COILS \<or>
     function_code = MODBUS_FUNC_WRITE_MULTIPLE_REGISTERS"

section \<open>Dispatching requests\<close>

text \<open>\<open>return build_exception (...)\<close> and \<open>return build_write_echo (...)\<close>, with the application state.\<close>

definition return_exception :: "'u \<Rightarrow> u8 list \<Rightarrow> u8 \<Rightarrow> u8 \<Rightarrow> 'u handled" where
  "return_exception u resp fc ex = do { (n, resp) \<leftarrow> build_exception resp fc ex; Some ((n, u), resp) }"

definition return_echo :: "'u \<Rightarrow> u8 list \<Rightarrow> u8 list \<Rightarrow> 'u handled" where
  "return_echo u req resp = do { (n, resp) \<leftarrow> build_write_echo req resp; Some ((n, u), resp) }"

definition handle_read_registers ::
    "stack \<Rightarrow> 'u mb_pdu_handlers \<Rightarrow> 'u \<Rightarrow> u8 \<Rightarrow> u16 \<Rightarrow> u16 \<Rightarrow> u8 list \<Rightarrow> 'u handled" where
  "handle_read_registers J h u fc addr qty resp =
     (case read_registers h of
        None \<Rightarrow> return_exception u resp fc MODBUS_EX_ILLEGAL_FUNCTION
      | Some cb \<Rightarrow>
          if qty = 0 \<or> unat qty > MODBUS_MAX_READ_REGISTERS then
            return_exception u resp fc MODBUS_EX_ILLEGAL_DATA_VALUE
          else if range_overflows addr qty then
            return_exception u resp fc MODBUS_EX_ILLEGAL_DATA_ADDRESS
          else do {
            (rc, data, u) \<leftarrow> cb fc addr qty (local16 J MODBUS_MAX_READ_REGISTERS) u;
            if rc \<noteq> 0 then return_exception u resp fc (exception_from_callback_rc rc)
            else do {
              resp \<leftarrow> wr resp PDU_OFFSET_FC fc;
              resp \<leftarrow> wr resp PDU_OFFSET_READ_BYTE_COUNT (of_nat (unat qty * 2));
              resp \<leftarrow> for_upto (unat qty) (\<lambda>i resp. do {
                v \<leftarrow> rd data i;
                put_u16 resp (PDU_OFFSET_READ_DATA + i * 2) v }) resp;
              Some ((PDU_OFFSET_READ_DATA + unat qty * 2, u), resp) } })"

definition handle_read_bits ::
    "stack \<Rightarrow> 'u mb_pdu_handlers \<Rightarrow> 'u \<Rightarrow> u8 \<Rightarrow> u16 \<Rightarrow> u16 \<Rightarrow> u8 list \<Rightarrow> 'u handled" where
  "handle_read_bits J h u fc addr qty resp =
     (case read_bits h of
        None \<Rightarrow> return_exception u resp fc MODBUS_EX_ILLEGAL_FUNCTION
      | Some cb \<Rightarrow>
          if qty = 0 \<or> unat qty > MODBUS_MAX_READ_BITS then
            return_exception u resp fc MODBUS_EX_ILLEGAL_DATA_VALUE
          else if range_overflows addr qty then
            return_exception u resp fc MODBUS_EX_ILLEGAL_DATA_ADDRESS
          else do {
            bits \<leftarrow> memset_to (local8 J MODBUS_MAX_READ_BITS) 0 0 (unat qty);
            (rc, bits, u) \<leftarrow> cb fc addr qty bits u;
            if rc \<noteq> 0 then return_exception u resp fc (exception_from_callback_rc rc)
            else do {
              let byte_count = bit_byte_count qty;
              resp \<leftarrow> wr resp PDU_OFFSET_FC fc;
              resp \<leftarrow> wr resp PDU_OFFSET_READ_BYTE_COUNT (of_nat byte_count);
              resp \<leftarrow> pack_bits bits qty resp PDU_OFFSET_READ_DATA;
              Some ((PDU_OFFSET_READ_DATA + byte_count, u), resp) } })"

definition handle_write_single_coil ::
    "'u mb_pdu_handlers \<Rightarrow> 'u \<Rightarrow> u8 list \<Rightarrow> u8 list \<Rightarrow> 'u handled" where
  "handle_write_single_coil h u req resp = do {
     fc \<leftarrow> rd req PDU_OFFSET_FC;
     val \<leftarrow> get_u16 (ptr req PDU_OFFSET_QTY);
     (case write_bits h of
        None \<Rightarrow> return_exception u resp fc MODBUS_EX_ILLEGAL_FUNCTION
      | Some cb \<Rightarrow>
          if val \<noteq> MODBUS_COIL_ON \<and> val \<noteq> MODBUS_COIL_OFF then
            return_exception u resp fc MODBUS_EX_ILLEGAL_DATA_VALUE
          else do {
            let b = (if val = MODBUS_COIL_ON then 1 else 0);
            addr \<leftarrow> get_u16 (ptr req PDU_OFFSET_ADDR);
            (rc, u) \<leftarrow> cb addr 1 [b] u;
            if rc \<noteq> 0 then return_exception u resp fc (exception_from_callback_rc rc)
            else return_echo u req resp }) }"

definition handle_write_single_register ::
    "'u mb_pdu_handlers \<Rightarrow> 'u \<Rightarrow> u8 list \<Rightarrow> u8 list \<Rightarrow> 'u handled" where
  "handle_write_single_register h u req resp = do {
     fc \<leftarrow> rd req PDU_OFFSET_FC;
     val \<leftarrow> get_u16 (ptr req PDU_OFFSET_QTY);
     (case write_registers h of
        None \<Rightarrow> return_exception u resp fc MODBUS_EX_ILLEGAL_FUNCTION
      | Some cb \<Rightarrow> do {
          addr \<leftarrow> get_u16 (ptr req PDU_OFFSET_ADDR);
          (rc, u) \<leftarrow> cb addr 1 [val] u;
          if rc \<noteq> 0 then return_exception u resp fc (exception_from_callback_rc rc)
          else return_echo u req resp }) }"

definition handle_write_multiple ::
    "stack \<Rightarrow> 'u mb_pdu_handlers \<Rightarrow> 'u \<Rightarrow> u8 list \<Rightarrow> nat \<Rightarrow> u8 list \<Rightarrow> 'u handled" where
  "handle_write_multiple J h u req req_len resp = do {
     fc \<leftarrow> rd req PDU_OFFSET_FC;
     let is_coils = (fc = MODBUS_FUNC_WRITE_MULTIPLE_COILS);
     qty \<leftarrow> get_u16 (ptr req PDU_OFFSET_QTY);
     let max_qty = (if is_coils then MODBUS_MAX_WRITE_BITS else MODBUS_MAX_WRITE_REGISTERS);
     if (if is_coils then write_bits h = None else write_registers h = None) then
       return_exception u resp fc MODBUS_EX_ILLEGAL_FUNCTION
     else if req_len \<le> PDU_OFFSET_BYTE_COUNT \<or> qty = 0 \<or> unat qty > max_qty then
       return_exception u resp fc MODBUS_EX_ILLEGAL_DATA_VALUE
     else do {
       let byte_count = (if is_coils then bit_byte_count qty else unat qty * 2);
       bc \<leftarrow> rd req PDU_OFFSET_BYTE_COUNT;
       if bc \<noteq> of_nat byte_count \<or> req_len \<noteq> PDU_OFFSET_WRITE_DATA + byte_count then
         return_exception u resp fc MODBUS_EX_ILLEGAL_DATA_VALUE
       else do {
         addr \<leftarrow> get_u16 (ptr req PDU_OFFSET_ADDR);
         if range_overflows addr qty then
           return_exception u resp fc MODBUS_EX_ILLEGAL_DATA_ADDRESS
         else do {
           let payload = ptr req PDU_OFFSET_WRITE_DATA;
           (rc, u) \<leftarrow>
             (if is_coils then do {
                bits \<leftarrow> unpack_bits payload qty (local8 J MODBUS_MAX_WRITE_BITS);
                the (write_bits h) addr qty bits u }
              else do {
                data \<leftarrow> for_upto (unat qty) (\<lambda>i data. do {
                  v \<leftarrow> get_u16 (ptr payload (i * 2));
                  wr data i v }) (local16 J MODBUS_MAX_WRITE_REGISTERS);
                the (write_registers h) addr qty data u });
           if rc \<noteq> 0 then return_exception u resp fc (exception_from_callback_rc rc)
           else return_echo u req resp } } } }"

definition mb_pdu_handle_request ::
    "stack \<Rightarrow> 'u mb_pdu_handlers \<Rightarrow> 'u \<Rightarrow> u8 list \<Rightarrow> nat \<Rightarrow> u8 list \<Rightarrow> 'u handled" where
  "mb_pdu_handle_request J h u req req_len resp = do {
     fc \<leftarrow> rd req PDU_OFFSET_FC;
     if fc \<notin> {MODBUS_FUNC_READ_COILS, MODBUS_FUNC_READ_DISCRETE_INPUTS,
              MODBUS_FUNC_READ_HOLDING_REGISTERS, MODBUS_FUNC_READ_INPUT_REGISTERS,
              MODBUS_FUNC_WRITE_SINGLE_COIL, MODBUS_FUNC_WRITE_SINGLE_REGISTER,
              MODBUS_FUNC_WRITE_MULTIPLE_COILS, MODBUS_FUNC_WRITE_MULTIPLE_REGISTERS} then
       return_exception u resp fc MODBUS_EX_ILLEGAL_FUNCTION
     else if req_len < PDU_FIXED_REQ_LEN then
       return_exception u resp fc MODBUS_EX_ILLEGAL_DATA_VALUE
     else do {
       addr \<leftarrow> get_u16 (ptr req PDU_OFFSET_ADDR);
       qty \<leftarrow> get_u16 (ptr req PDU_OFFSET_QTY);
       if fc \<in> {MODBUS_FUNC_READ_COILS, MODBUS_FUNC_READ_DISCRETE_INPUTS} then
         handle_read_bits J h u fc addr qty resp
       else if fc \<in> {MODBUS_FUNC_READ_HOLDING_REGISTERS, MODBUS_FUNC_READ_INPUT_REGISTERS} then
         handle_read_registers J h u fc addr qty resp
       else if fc = MODBUS_FUNC_WRITE_SINGLE_COIL then handle_write_single_coil h u req resp
       else if fc = MODBUS_FUNC_WRITE_SINGLE_REGISTER then handle_write_single_register h u req resp
       else handle_write_multiple J h u req req_len resp } }"

section \<open>Buffer effects of the encoders\<close>

lemma get_u16_Cons [simp]: "get_u16 (h # l # bs) = Some (of_be16 h l)"
  by (simp add: get_u16_def of_be16_def)

lemma get_u16_nth:
  "2 \<le> length p \<Longrightarrow> get_u16 p = Some (of_be16 (p ! 0) (p ! 1))"
  by (auto simp: get_u16_def of_be16_def rd_def)

lemma put_u16_blit [buf_simps]:
  "p + 2 \<le> length b \<Longrightarrow> put_u16 b p v = Some (blit b p (be16 v))"
  by (simp add: put_u16_def be16_def buf_simps)

lemma get_u16_put_u16:
  "p + 2 \<le> length b \<Longrightarrow> do { b \<leftarrow> put_u16 b p v; get_u16 (ptr b p) } = Some v"
  by (simp add: put_u16_blit ptr_def drop_blit_off be16_def)

lemma put_regs_loop:
  assumes "n \<le> length data" and "off + 2 * n \<le> length b"
  shows "for_upto n (\<lambda>i b. do { v \<leftarrow> rd data i; put_u16 b (off + i * 2) v }) b =
         Some (blit b off (be16s (take n data)))"
  using assms
  by (intro for_upto_eq[where g = "\<lambda>i. blit b off (be16s (take i data))", THEN trans])
     (auto simp: buf_simps take_Suc_conv_app_nth)

lemma put_words_loop:
  assumes "n \<le> length data" and "off + 2 * n \<le> length b" and "off' = off + 1"
  shows "for_upto n (\<lambda>i b. do { v \<leftarrow> rd data i;
           b \<leftarrow> wr b (off + i * 2) (ucast (drop_bit 8 v)); wr b (off' + i * 2) (ucast (v AND 0xFF)) }) b =
         Some (blit b off (be16s (take n data)))"
  using put_regs_loop[OF assms(1,2)] assms(3) by (simp add: put_u16_def)

lemma get_regs_loop:
  assumes "off + 2 * n \<le> length p" and "n \<le> length out"
  shows "for_upto n (\<lambda>i out. do { v \<leftarrow> get_u16 (ptr p (off + i * 2)); wr out i v }) out =
         Some (blit out 0 (of_be16s (take (2 * n) (drop off p))))"
proof -
  define vs where "vs = of_be16s (take (2 * n) (drop off p))"
  have len: "length vs = n" using assms by (simp add: vs_def)
  have "for_upto n (\<lambda>i out. do { v \<leftarrow> get_u16 (ptr p (off + i * 2)); wr out i v }) out =
        Some (blit out 0 (take n vs))"
  proof (rule for_upto_eq)
    fix i assume i: "i < n"
    have "get_u16 (ptr p (off + i * 2)) = Some (vs ! i)"
      using i assms by (subst get_u16_nth) (auto simp: vs_def nth_of_be16s ptr_def mult.commute)
    then show "do { v \<leftarrow> get_u16 (ptr p (off + i * 2)); wr (blit out 0 (take i vs)) i v } =
               Some (blit out 0 (take (Suc i) vs))"
      using i assms len by (simp add: buf_simps take_Suc_conv_app_nth)
  qed simp
  then show ?thesis using len by (simp add: vs_def)
qed

subsection \<open>Packed bits\<close>

text \<open>
  Coil states on the wire: eight per byte, the first in the least significant bit, unused
  bits of the last byte zero.
\<close>

definition packed_byte :: "bool list \<Rightarrow> nat \<Rightarrow> u8" where
  "packed_byte bs k = horner_sum of_bool 2 (take 8 (drop (8 * k) bs))"

definition packed :: "bool list \<Rightarrow> u8 list" where
  "packed bs = map (packed_byte bs) [0..<(length bs + 7) div 8]"

definition unpacked :: "nat \<Rightarrow> u8 list \<Rightarrow> bool list" where
  "unpacked n bytes = map (\<lambda>i. bit (bytes ! (i div 8)) (i mod 8)) [0..<n]"

lemma length_packed [simp]: "length (packed bs) = (length bs + 7) div 8"
  by (simp add: packed_def)

lemma length_unpacked [simp]: "length (unpacked n bytes) = n"
  by (simp add: unpacked_def)

lemma bit_packed_byte: "bit (packed_byte bs k) j \<longleftrightarrow> j < 8 \<and> 8 * k + j < length bs \<and> bs ! (8 * k + j)"
  unfolding packed_byte_def by (auto simp: bit_horner_sum_bit_iff)

lemma unpacked_packed [simp]: "unpacked (length bs) (packed bs) = bs"
  by (rule nth_equalityI) (auto simp: unpacked_def packed_def bit_packed_byte)

lemma packed_byte_Suc:
  assumes "i < length bs"
  shows "packed_byte (take (Suc i) bs) k =
    (if k = i div 8 \<and> bs ! i then packed_byte (take i bs) k OR push_bit (i mod 8) 1
     else packed_byte (take i bs) k)"
proof (rule bit_word_eqI)
  fix j :: nat assume j: "j < LENGTH(8)"
  have "8 * k + j = i \<longleftrightarrow> k = i div 8 \<and> j = i mod 8" using j by auto
  then show "bit (packed_byte (take (Suc i) bs) k) j =
    bit (if k = i div 8 \<and> bs ! i then packed_byte (take i bs) k OR push_bit (i mod 8) 1
         else packed_byte (take i bs) k) j"
    using j assms by (auto simp: bit_packed_byte bit_or_iff bit_exp_iff less_Suc_eq)
qed

lemma pack_bits_packed [buf_simps]:
  assumes "unat qty \<le> length values" and "off + bit_byte_count qty \<le> length out"
  shows "pack_bits values qty out off =
         Some (blit out off (packed (map (\<lambda>v. v \<noteq> 0) (take (unat qty) values))))"
proof -
  let ?bs = "map (\<lambda>v. v \<noteq> 0) (take (unat qty) values)"
  let ?n = "bit_byte_count qty"
  let ?P = "\<lambda>i. map (packed_byte (take i ?bs)) [0..<?n]"
  have len: "length ?bs = unat qty" using assms by simp
  have "for_upto (unat qty) (\<lambda>i out. do {
       v \<leftarrow> rd values i;
       if v \<noteq> 0 then do {
         x \<leftarrow> rd out (off + i div 8);
         wr out (off + i div 8) (x OR push_bit (i mod 8) 1) }
       else Some out }) (blit out off (replicate ?n 0)) = Some (blit out off (?P (unat qty)))"
  proof (rule for_upto_eq[where g = "\<lambda>i. blit out off (?P i)"])
    show "blit out off (?P 0) = blit out off (replicate ?n 0)"
      by (intro arg_cong[where f = "blit out off"] nth_equalityI) (auto simp: packed_byte_def)
  next
    fix i assume i: "i < unat qty"
    then have k: "i div 8 < ?n" by (simp add: bit_byte_count_def)
    have "?P (Suc i) = (if values ! i \<noteq> 0
            then (?P i)[i div 8 := ?P i ! (i div 8) OR push_bit (i mod 8) 1] else ?P i)"
      using i k assms by (intro nth_equalityI) (auto simp: packed_byte_Suc nth_list_update)
    then show "do { v \<leftarrow> rd values i;
        if v \<noteq> 0 then do {
          x \<leftarrow> rd (blit out off (?P i)) (off + i div 8);
          wr (blit out off (?P i)) (off + i div 8) (x OR push_bit (i mod 8) 1) }
        else Some (blit out off (?P i)) } = Some (blit out off (?P (Suc i)))"
      using i k assms by (simp add: rd_Some[of i "values"] rd_blit_in wr_blit_in)
  qed
  moreover have "?P (unat qty) = packed ?bs"
    using assms by (simp add: packed_def bit_byte_count_def)
  ultimately show ?thesis using assms by (simp add: pack_bits_def memset_to_blit)
qed

lemma and_1_of_bool: "drop_bit n x AND 1 = of_bool (bit (x :: u8) n)"
  by (simp add: and_one_eq bit_iff_odd_drop_bit mod_2_eq_odd)

lemma unpack_bits_unpacked [buf_simps]:
  assumes "unat qty \<le> length out" and "bit_byte_count qty \<le> length bytes"
  shows "unpack_bits bytes qty out = Some (blit out 0 (map of_bool (unpacked (unat qty) bytes)))"
proof -
  let ?vs = "map of_bool (unpacked (unat qty) bytes) :: u8 list"
  have "unpack_bits bytes qty out = Some (blit out 0 (take (unat qty) ?vs))"
    unfolding unpack_bits_def
  proof (rule for_upto_eq[where g = "\<lambda>i. blit out 0 (take i ?vs)"])
    fix i assume i: "i < unat qty"
    then have "i div 8 < length bytes" using assms by (simp add: bit_byte_count_def)
    with i show "do { x \<leftarrow> rd bytes (i div 8);
        wr (blit out 0 (take i ?vs)) i (drop_bit (i mod 8) x AND 1) } =
        Some (blit out 0 (take (Suc i) ?vs))"
      using assms
      by (simp add: buf_simps take_Suc_conv_app_nth and_1_of_bool unpacked_def min_def)
  qed simp
  then show ?thesis by simp
qed

subsection \<open>Requests on the wire\<close>

definition read_req :: "u8 \<Rightarrow> u16 \<Rightarrow> u16 \<Rightarrow> u8 list" where
  "read_req fc addr qty = fc # be16 addr @ be16 qty"

definition write_regs_req :: "u16 \<Rightarrow> u16 list \<Rightarrow> u8 list" where
  "write_regs_req addr vs =
     read_req MODBUS_FUNC_WRITE_MULTIPLE_REGISTERS addr (of_nat (length vs)) @
     of_nat (2 * length vs) # be16s vs"

definition write_coils_req :: "u16 \<Rightarrow> bool list \<Rightarrow> u8 list" where
  "write_coils_req addr bs =
     read_req MODBUS_FUNC_WRITE_MULTIPLE_COILS addr (of_nat (length bs)) @
     of_nat (length (packed bs)) # packed bs"

lemma length_read_req [simp]: "length (read_req fc addr qty) = 5"
  by (simp add: read_req_def)

lemma length_write_regs_req [simp]: "length (write_regs_req addr vs) = 6 + 2 * length vs"
  by (simp add: write_regs_req_def)

lemma length_write_coils_req [simp]: "length (write_coils_req addr bs) = 6 + (length bs + 7) div 8"
  by (simp add: write_coils_req_def)

lemma mb_pdu_build_read_req [buf_simps]:
  "5 \<le> length pdu \<Longrightarrow> mb_pdu_build_read pdu fc addr qty = Some (5, blit pdu 0 (read_req fc addr qty))"
  by (simp add: mb_pdu_build_read_def read_req_def buf_simps)

lemma mb_pdu_build_write_registers_req [buf_simps]:
  assumes "unat qty \<le> length data" and "6 + 2 * unat qty \<le> length pdu"
  shows "mb_pdu_build_write_registers pdu addr qty data =
    Some (6 + 2 * unat qty, blit pdu 0 (write_regs_req addr (take (unat qty) data)))"
  using assms
  by (simp add: mb_pdu_build_write_registers_def write_regs_req_def buf_simps put_regs_loop
      mult.commute)

lemma mb_pdu_build_write_coils_req [buf_simps]:
  assumes "unat qty \<le> length values" and "6 + bit_byte_count qty \<le> length pdu"
  shows "mb_pdu_build_write_coils pdu addr qty values =
    Some (6 + bit_byte_count qty,
      blit pdu 0 (write_coils_req addr (map (\<lambda>v. v \<noteq> 0) (take (unat qty) values))))"
  using assms
  by (simp add: mb_pdu_build_write_coils_def write_coils_req_def buf_simps bit_byte_count_def Let_def)

end
