(* ===== verification/Pdu_Server.thy ===== *)
theory Pdu_Server
  imports Modbus_Pdu
begin

text \<open>
  What a server gets from the PDU layer: an abstract server that maps the bytes of a request
  to a reply, the proof that \<^const>\<open>mb_pdu_handle_request\<close> implements it for every
  application whose callbacks keep their contract, and memory safety of the dispatch for
  callbacks that only keep the size of their arrays.
\<close>

section \<open>The abstract server\<close>

text \<open>
  What the PDU layer promises, without buffers, offsets or loops. A device is the
  application behind the callbacks, seen as operations on the values of registers and coils;
  a reply is an exception, the values read, or the echo of a write. \<open>serve\<close> says which
  reply a device gives to the bytes of a request PDU.
\<close>

record 'u device =
  dev_read_regs :: "(u8 \<Rightarrow> u16 \<Rightarrow> nat \<Rightarrow> 'u \<Rightarrow> c_int \<times> u16 list \<times> 'u) option"
  dev_write_regs :: "(u16 \<Rightarrow> u16 list \<Rightarrow> 'u \<Rightarrow> c_int \<times> 'u) option"
  dev_read_bits :: "(u8 \<Rightarrow> u16 \<Rightarrow> nat \<Rightarrow> 'u \<Rightarrow> c_int \<times> bool list \<times> 'u) option"
  dev_write_bits :: "(u16 \<Rightarrow> bool list \<Rightarrow> 'u \<Rightarrow> c_int \<times> 'u) option"

datatype mb_reply =
    ExcReply u8 u8
  | RegsReply u8 "u16 list"
  | BitsReply u8 "bool list"
  | EchoReply u8 u16 u16

fun reply_pdu :: "mb_reply \<Rightarrow> u8 list" where
  "reply_pdu (ExcReply fc ex) = [fc OR MODBUS_EXCEPTION_FLAG, ex]"
| "reply_pdu (RegsReply fc vs) = fc # of_nat (2 * length vs) # be16s vs"
| "reply_pdu (BitsReply fc bs) = fc # of_nat (length (packed bs)) # packed bs"
| "reply_pdu (EchoReply fc a v) = read_req fc a v"

definition in_range :: "u16 \<Rightarrow> nat \<Rightarrow> bool" where
  "in_range addr n \<longleftrightarrow> unat addr + n \<le> 65536"

definition valid_qty :: "nat \<Rightarrow> nat \<Rightarrow> bool" where
  "valid_qty limit n \<longleftrightarrow> 1 \<le> n \<and> n \<le> limit"

definition serve_read_regs :: "'u device \<Rightarrow> 'u \<Rightarrow> u8 \<Rightarrow> u16 \<Rightarrow> nat \<Rightarrow> mb_reply \<times> 'u" where
  "serve_read_regs d u fc addr n =
     (case dev_read_regs d of
        None \<Rightarrow> (ExcReply fc 1, u)
      | Some f \<Rightarrow>
          if \<not> valid_qty 125 n then (ExcReply fc 3, u)
          else if \<not> in_range addr n then (ExcReply fc 2, u)
          else (case f fc addr n u of (rc, vs, u') \<Rightarrow>
            (if rc = 0 then RegsReply fc vs else ExcReply fc (exception_from_callback_rc rc), u')))"

definition serve_read_bits :: "'u device \<Rightarrow> 'u \<Rightarrow> u8 \<Rightarrow> u16 \<Rightarrow> nat \<Rightarrow> mb_reply \<times> 'u" where
  "serve_read_bits d u fc addr n =
     (case dev_read_bits d of
        None \<Rightarrow> (ExcReply fc 1, u)
      | Some f \<Rightarrow>
          if \<not> valid_qty 2000 n then (ExcReply fc 3, u)
          else if \<not> in_range addr n then (ExcReply fc 2, u)
          else (case f fc addr n u of (rc, bs, u') \<Rightarrow>
            (if rc = 0 then BitsReply fc bs else ExcReply fc (exception_from_callback_rc rc), u')))"

definition write_result :: "u8 \<Rightarrow> u16 \<Rightarrow> u16 \<Rightarrow> c_int \<times> 'u \<Rightarrow> mb_reply \<times> 'u" where
  "write_result fc addr v res =
     (if fst res = 0 then EchoReply fc addr v
      else ExcReply fc (exception_from_callback_rc (fst res)), snd res)"

definition serve_write_coil :: "'u device \<Rightarrow> 'u \<Rightarrow> u8 \<Rightarrow> u16 \<Rightarrow> u16 \<Rightarrow> mb_reply \<times> 'u" where
  "serve_write_coil d u fc addr v =
     (case dev_write_bits d of
        None \<Rightarrow> (ExcReply fc 1, u)
      | Some f \<Rightarrow>
          if v \<notin> {0xFF00, 0} then (ExcReply fc 3, u)
          else write_result fc addr v (f addr [v = 0xFF00] u))"

definition serve_write_reg :: "'u device \<Rightarrow> 'u \<Rightarrow> u8 \<Rightarrow> u16 \<Rightarrow> u16 \<Rightarrow> mb_reply \<times> 'u" where
  "serve_write_reg d u fc addr v =
     (case dev_write_regs d of
        None \<Rightarrow> (ExcReply fc 1, u)
      | Some f \<Rightarrow> write_result fc addr v (f addr [v] u))"

definition serve_write_coils :: "'u device \<Rightarrow> 'u \<Rightarrow> u8 \<Rightarrow> u16 \<Rightarrow> u16 \<Rightarrow> u8 list \<Rightarrow> mb_reply \<times> 'u" where
  "serve_write_coils d u fc addr qty body =
     (case dev_write_bits d of
        None \<Rightarrow> (ExcReply fc 1, u)
      | Some f \<Rightarrow>
          if \<not> valid_qty 1968 (unat qty) \<or> body = [] \<or> unat (hd body) \<noteq> (unat qty + 7) div 8 \<or>
             length (tl body) \<noteq> (unat qty + 7) div 8 then (ExcReply fc 3, u)
          else if \<not> in_range addr (unat qty) then (ExcReply fc 2, u)
          else write_result fc addr qty (f addr (unpacked (unat qty) (tl body)) u))"

definition serve_write_regs :: "'u device \<Rightarrow> 'u \<Rightarrow> u8 \<Rightarrow> u16 \<Rightarrow> u16 \<Rightarrow> u8 list \<Rightarrow> mb_reply \<times> 'u" where
  "serve_write_regs d u fc addr qty body =
     (case dev_write_regs d of
        None \<Rightarrow> (ExcReply fc 1, u)
      | Some f \<Rightarrow>
          if \<not> valid_qty 123 (unat qty) \<or> body = [] \<or> unat (hd body) \<noteq> 2 * unat qty \<or>
             length (tl body) \<noteq> 2 * unat qty then (ExcReply fc 3, u)
          else if \<not> in_range addr (unat qty) then (ExcReply fc 2, u)
          else write_result fc addr qty (f addr (of_be16s (tl body)) u))"

definition known_fc :: "u8 \<Rightarrow> bool" where
  "known_fc fc \<longleftrightarrow> fc \<in> {1, 2, 3, 4, 5, 6, 15, 16}"

fun serve :: "'u device \<Rightarrow> 'u \<Rightarrow> u8 list \<Rightarrow> mb_reply \<times> 'u" where
  "serve d u (fc # a1 # a0 # q1 # q0 # body) =
     (let addr = of_be16 a1 a0; qty = of_be16 q1 q0 in
      if fc \<in> {1, 2} then serve_read_bits d u fc addr (unat qty)
      else if fc \<in> {3, 4} then serve_read_regs d u fc addr (unat qty)
      else if fc = 5 then serve_write_coil d u fc addr qty
      else if fc = 6 then serve_write_reg d u fc addr qty
      else if fc = 15 then serve_write_coils d u fc addr qty body
      else if fc = 16 then serve_write_regs d u fc addr qty body
      else (ExcReply fc 1, u))"
| "serve d u (fc # short) = (ExcReply fc (if known_fc fc then 3 else 1), u)"
| "serve d u [] = undefined"

text \<open>
  The contract between the callbacks of an application and the device they implement: a read
  callback keeps the length of the array it is given and, when it returns 0, fills the
  entries asked for, whatever the array held before; a write callback looks at the entries it
  is told about only. \<open>I\<close> is the invariant of the application state, which every callback
  may rely on and keeps.
\<close>

definition reads_regs_as ::
    "('u \<Rightarrow> bool) \<Rightarrow>
     (u8 \<Rightarrow> u16 \<Rightarrow> u16 \<Rightarrow> u16 list \<Rightarrow> 'u \<Rightarrow> (c_int \<times> u16 list \<times> 'u) option) \<Rightarrow>
     (u8 \<Rightarrow> u16 \<Rightarrow> nat \<Rightarrow> 'u \<Rightarrow> c_int \<times> u16 list \<times> 'u) \<Rightarrow> bool" where
  "reads_regs_as I f g \<longleftrightarrow>
     (\<forall>fc a q out u. I u \<and> 1 \<le> unat q \<and> unat q \<le> length out \<longrightarrow>
        (case g fc a (unat q) u of (rc, vs, u') \<Rightarrow>
           \<exists>out'. f fc a q out u = Some (rc, out', u') \<and> length out' = length out \<and> I u' \<and>
             (rc = 0 \<longrightarrow> take (unat q) out' = vs)))"

definition reads_bits_as ::
    "('u \<Rightarrow> bool) \<Rightarrow>
     (u8 \<Rightarrow> u16 \<Rightarrow> u16 \<Rightarrow> u8 list \<Rightarrow> 'u \<Rightarrow> (c_int \<times> u8 list \<times> 'u) option) \<Rightarrow>
     (u8 \<Rightarrow> u16 \<Rightarrow> nat \<Rightarrow> 'u \<Rightarrow> c_int \<times> bool list \<times> 'u) \<Rightarrow> bool" where
  "reads_bits_as I f g \<longleftrightarrow>
     (\<forall>fc a q out u. I u \<and> 1 \<le> unat q \<and> unat q \<le> length out \<and> take (unat q) out = replicate (unat q) 0 \<longrightarrow>
        (case g fc a (unat q) u of (rc, bs, u') \<Rightarrow>
           \<exists>out'. f fc a q out u = Some (rc, out', u') \<and> length out' = length out \<and> I u' \<and>
             (rc = 0 \<longrightarrow> map (\<lambda>v. v \<noteq> 0) (take (unat q) out') = bs)))"

definition writes_as ::
    "('u \<Rightarrow> bool) \<Rightarrow>
     (u16 \<Rightarrow> u16 \<Rightarrow> 'e list \<Rightarrow> 'u \<Rightarrow> (c_int \<times> 'u) option) \<Rightarrow> (u16 \<Rightarrow> 'e list \<Rightarrow> 'u \<Rightarrow> c_int \<times> 'u) \<Rightarrow> bool" where
  "writes_as I f g \<longleftrightarrow>
     (\<forall>a q data u. I u \<and> 1 \<le> unat q \<and> unat q \<le> length data \<longrightarrow>
        f a q data u = Some (g a (take (unat q) data) u) \<and> I (snd (g a (take (unat q) data) u)))"

definition device_ok :: "('u \<Rightarrow> bool) \<Rightarrow> 'u mb_pdu_handlers \<Rightarrow> 'u device \<Rightarrow> bool" where
  "device_ok I h d \<longleftrightarrow>
     rel_option (reads_regs_as I) (read_registers h) (dev_read_regs d) \<and>
     rel_option (writes_as I) (write_registers h) (dev_write_regs d) \<and>
     rel_option (reads_bits_as I) (read_bits h) (dev_read_bits d) \<and>
     rel_option (\<lambda>f g. writes_as I f (\<lambda>a bits. g a (map (\<lambda>v. v \<noteq> 0) bits))) (write_bits h) (dev_write_bits d)"

section \<open>The handlers implement the abstract server\<close>

definition yields :: "'u handled \<Rightarrow> u8 list \<Rightarrow> mb_reply \<times> 'u \<Rightarrow> bool" where
  "yields m resp ru \<longleftrightarrow>
     m = Some ((length (reply_pdu (fst ru)), snd ru), blit resp 0 (reply_pdu (fst ru)))"

lemma range_overflows_iff: "range_overflows addr qty \<longleftrightarrow> \<not> in_range addr (unat qty)"
proof -
  have "unat ((ucast addr :: u32) + ucast qty) = unat addr + unat qty"
    using unat_u16_less[of addr] unat_u16_less[of qty]
    by (simp add: unat_word_ariths unsigned_ucast_eq take_bit_eq_mod)
  then show ?thesis
    by (simp add: range_overflows_def in_range_def word_less_nat_alt not_le)
qed

lemma valid_qty_u16: "valid_qty limit (unat qty) \<longleftrightarrow> qty \<noteq> 0 \<and> unat qty \<le> limit" for qty :: u16
  by (auto simp: valid_qty_def Suc_le_eq unat_gt_0)

lemma valid_qtyD: "valid_qty limit n \<Longrightarrow> 1 \<le> n" "valid_qty limit n \<Longrightarrow> n \<le> limit"
  by (simp_all add: valid_qty_def)

lemma return_exception_blit:
  "2 \<le> length resp \<Longrightarrow> return_exception u resp fc ex = Some ((2, u), blit resp 0 [fc OR 0x80, ex])"
  by (simp add: return_exception_def build_exception_def buf_simps)

lemma return_echo_req:
  "5 \<le> length resp \<Longrightarrow> return_echo u (fc # a1 # a0 # q1 # q0 # body) resp =
     Some ((5, u), blit resp 0 (read_req fc (of_be16 a1 a0) (of_be16 q1 q0)))"
  by (simp add: return_echo_def build_write_echo_def buf_simps read_req_def)

lemmas handler_simps = return_exception_blit return_echo_req range_overflows_iff yields_def

lemma handle_read_registers_serve:
  assumes h: "rel_option (reads_regs_as I) (read_registers h) (dev_read_regs d)"
    and u: "I u" and resp: "252 \<le> length resp"
  shows "yields (handle_read_registers J h u fc addr qty resp) resp
           (serve_read_regs d u fc addr (unat qty))"
proof (cases "read_registers h")
  case None
  with h resp show ?thesis
    by (simp add: handle_read_registers_def serve_read_regs_def handler_simps)
next
  case (Some f)
  with h obtain g where g: "dev_read_regs d = Some g" "reads_regs_as I f g"
    by (auto simp: option_rel_Some1)
  show ?thesis
  proof (cases "valid_qty 125 (unat qty) \<and> in_range addr (unat qty)")
    case False
    then show ?thesis using Some g resp
      by (auto simp: handle_read_registers_def serve_read_regs_def handler_simps valid_qty_u16)
  next
    case True
    note qty = True valid_qtyD[OF conjunct1[OF True]]
    obtain rc vs u' out where "g fc addr (unat qty) u = (rc, vs, u')"
      "f fc addr qty (local16 J 125) u = Some (rc, out, u')" "length out = 125"
      "rc = 0 \<Longrightarrow> take (unat qty) out = vs"
      using u g(2)[unfolded reads_regs_as_def, rule_format, of u qty "local16 J 125" fc addr] qty
      by (auto split: prod.splits)
    with qty show ?thesis using Some g resp
      by (cases "rc = 0") (auto simp: handle_read_registers_def serve_read_regs_def handler_simps
          valid_qty_u16 buf_simps put_regs_loop mult.commute)
  qed
qed

lemma handle_read_bits_serve:
  assumes h: "rel_option (reads_bits_as I) (read_bits h) (dev_read_bits d)"
    and u: "I u" and resp: "252 \<le> length resp"
  shows "yields (handle_read_bits J h u fc addr qty resp) resp
           (serve_read_bits d u fc addr (unat qty))"
proof (cases "read_bits h")
  case None
  with h resp show ?thesis
    by (simp add: handle_read_bits_def serve_read_bits_def handler_simps)
next
  case (Some f)
  with h obtain g where g: "dev_read_bits d = Some g" "reads_bits_as I f g"
    by (auto simp: option_rel_Some1)
  show ?thesis
  proof (cases "valid_qty 2000 (unat qty) \<and> in_range addr (unat qty)")
    case False
    then show ?thesis using Some g resp
      by (auto simp: handle_read_bits_def serve_read_bits_def handler_simps valid_qty_u16)
  next
    case True
    note qty = True valid_qtyD[OF conjunct1[OF True]]
    let ?z = "blit (local8 J 2000) 0 (replicate (unat qty) 0)"
    have z: "take (unat qty) ?z = replicate (unat qty) 0" by simp
    have bc: "2 + bit_byte_count qty \<le> 252" using qty by (auto simp: bit_byte_count_def)
    obtain rc bs u' out where "g fc addr (unat qty) u = (rc, bs, u')"
      "f fc addr qty ?z u = Some (rc, out, u')" "length out = 2000"
      "rc = 0 \<Longrightarrow> map (\<lambda>v. v \<noteq> 0) (take (unat qty) out) = bs"
      using u g(2)[unfolded reads_bits_as_def, rule_format, of u qty ?z fc addr] qty z
      by (auto split: prod.splits)
    with qty bc show ?thesis using Some g resp
      by (cases "rc = 0") (auto simp: handle_read_bits_def serve_read_bits_def handler_simps
          valid_qty_u16 Let_def buf_simps bit_byte_count_def)
  qed
qed

lemma handle_write_single_coil_serve:
  assumes h: "rel_option (\<lambda>f g. writes_as I f (\<lambda>a bits. g a (map (\<lambda>v. v \<noteq> 0) bits))) (write_bits h) (dev_write_bits d)"
    and u: "I u" and resp: "5 \<le> length resp"
  shows "yields (handle_write_single_coil h u (fc # a1 # a0 # q1 # q0 # body) resp) resp
           (serve_write_coil d u fc (of_be16 a1 a0) (of_be16 q1 q0))"
proof (cases "write_bits h")
  case None
  with h resp show ?thesis
    by (simp add: handle_write_single_coil_def serve_write_coil_def handler_simps)
next
  case (Some f)
  with h obtain g where g: "dev_write_bits d = Some g"
    "writes_as I f (\<lambda>a bits. g a (map (\<lambda>v. v \<noteq> 0) bits))"
    by (auto simp: option_rel_Some1)
  have f: "f a 1 [b] u = Some (g a [b \<noteq> 0] u)" for a b
    using u g(2)[unfolded writes_as_def, rule_format, of u 1 "[b]" a] by simp
  show ?thesis using Some g resp
    by (auto simp: handle_write_single_coil_def serve_write_coil_def write_result_def handler_simps f
        split: prod.splits)
qed

lemma handle_write_single_register_serve:
  assumes h: "rel_option (writes_as I) (write_registers h) (dev_write_regs d)"
    and u: "I u" and resp: "5 \<le> length resp"
  shows "yields (handle_write_single_register h u (fc # a1 # a0 # q1 # q0 # body) resp) resp
           (serve_write_reg d u fc (of_be16 a1 a0) (of_be16 q1 q0))"
proof (cases "write_registers h")
  case None
  with h resp show ?thesis
    by (simp add: handle_write_single_register_def serve_write_reg_def handler_simps)
next
  case (Some f)
  with h obtain g where g: "dev_write_regs d = Some g" "writes_as I f g"
    by (auto simp: option_rel_Some1)
  have f: "f a 1 [b] u = Some (g a [b] u)" for a b
    using u g(2)[unfolded writes_as_def, rule_format, of u 1 "[b]" a] by simp
  show ?thesis using Some g resp
    by (auto simp: handle_write_single_register_def serve_write_reg_def write_result_def handler_simps f
        split: prod.splits)
qed

lemma byte_count_eq_iff: "m < 256 \<Longrightarrow> bc = of_nat m \<longleftrightarrow> unat bc = m" for bc :: u8
  by (simp add: word_unat_eq_iff unat_of_nat_u8)

text \<open>Both kinds of multiple write, up to the point where the payload is decoded.\<close>

lemma handle_write_multiple_serve_coils:
  assumes h: "rel_option (\<lambda>f g. writes_as I f (\<lambda>a bits. g a (map (\<lambda>v. v \<noteq> 0) bits))) (write_bits h) (dev_write_bits d)"
    and u: "I u" and resp: "5 \<le> length resp" and n: "5 \<le> n" "n \<le> 5 + length body"
  shows "yields (handle_write_multiple J h u (15 # a1 # a0 # q1 # q0 # body) n resp) resp
           (serve_write_coils d u 15 (of_be16 a1 a0) (of_be16 q1 q0) (take (n - 5) body))"
proof (cases "write_bits h")
  case None
  with h resp show ?thesis
    by (simp add: handle_write_multiple_def serve_write_coils_def handler_simps)
next
  case (Some f)
  with h obtain g where g: "dev_write_bits d = Some g"
    "writes_as I f (\<lambda>a bits. g a (map (\<lambda>v. v \<noteq> 0) bits))"
    by (auto simp: option_rel_Some1)
  define qty where "qty = of_be16 q1 q0"
  show ?thesis
  proof (cases "5 < n \<and> valid_qty 1968 (unat qty)")
    case False
    then show ?thesis using Some g resp n
      by (auto simp: handle_write_multiple_def serve_write_coils_def handler_simps valid_qty_u16
          qty_def Let_def)
  next
    case True
    note qty = True valid_qtyD[OF conjunct2[OF True]]
    then obtain bc data where body: "body = bc # data" using n by (cases body) auto
    define k where "k = bit_byte_count qty"
    have k: "k = (unat qty + 7) div 8" "k < 256" using qty by (auto simp: k_def bit_byte_count_def)
    have take: "take (n - 5) body = bc # take (n - 6) data"
      using qty body by (simp add: take_Cons' diff_diff_add)
    have bits: "f a qty (blit (local8 J 1968) 0 (map of_bool (unpacked (unat qty) data))) u =
        Some (g a (unpacked (unat qty) data) u)" for a
      using u g(2)[unfolded writes_as_def, rule_format,
          of u qty "blit (local8 J 1968) 0 (map of_bool (unpacked (unat qty) data))" a] qty
      by (simp add: comp_def)
    have unp: "unpacked (unat qty) (take k data) = unpacked (unat qty) data"
      using qty by (auto simp: unpacked_def k)
    show ?thesis
    proof (cases "unat bc = k \<and> n = 6 + k")
      case False
      with qty k n body take show ?thesis using Some g resp
        by (auto simp: handle_write_multiple_def serve_write_coils_def handler_simps valid_qty_u16
            qty_def[symmetric] k_def[symmetric] byte_count_eq_iff Let_def)
    next
      case bc: True
      then have "k \<le> length data" using n body by simp
      moreover obtain rc u' where "g (of_be16 a1 a0) (unpacked (unat qty) data) u = (rc, u')"
        by (cases "g (of_be16 a1 a0) (unpacked (unat qty) data) u")
      moreover have "bc = of_nat k" using bc k by (simp add: byte_count_eq_iff)
      ultimately show ?thesis using Some g resp bc qty n body take
        by (simp add: handle_write_multiple_def serve_write_coils_def handler_simps valid_qty_u16
            qty_def[symmetric] k_def[symmetric] k(1)[symmetric] buf_simps bits unp write_result_def
            Let_def)
    qed
  qed
qed

lemma handle_write_multiple_serve_regs:
  assumes h: "rel_option (writes_as I) (write_registers h) (dev_write_regs d)"
    and u: "I u" and resp: "5 \<le> length resp" and n: "5 \<le> n" "n \<le> 5 + length body"
  shows "yields (handle_write_multiple J h u (16 # a1 # a0 # q1 # q0 # body) n resp) resp
           (serve_write_regs d u 16 (of_be16 a1 a0) (of_be16 q1 q0) (take (n - 5) body))"
proof (cases "write_registers h")
  case None
  with h resp show ?thesis
    by (simp add: handle_write_multiple_def serve_write_regs_def handler_simps)
next
  case (Some f)
  with h obtain g where g: "dev_write_regs d = Some g" "writes_as I f g"
    by (auto simp: option_rel_Some1)
  define qty where "qty = of_be16 q1 q0"
  show ?thesis
  proof (cases "5 < n \<and> valid_qty 123 (unat qty)")
    case False
    then show ?thesis using Some g resp n
      by (auto simp: handle_write_multiple_def serve_write_regs_def handler_simps valid_qty_u16
          qty_def Let_def)
  next
    case True
    note qty = True valid_qtyD[OF conjunct2[OF True]]
    then obtain bc data where body: "body = bc # data" using n by (cases body) auto
    have take: "take (n - 5) body = bc # take (n - 6) data"
      using qty body by (simp add: take_Cons' diff_diff_add)
    have bc_iff: "bc = ucast qty * 2 \<longleftrightarrow> unat bc = 2 * unat qty"
      using qty byte_count_eq_iff[of "unat qty * 2" bc] by auto
    show ?thesis
    proof (cases "unat bc = 2 * unat qty \<and> n = 6 + 2 * unat qty")
      case False
      with qty n body take show ?thesis using Some g resp
        by (auto simp: handle_write_multiple_def serve_write_regs_def handler_simps valid_qty_u16
            qty_def[symmetric] bc_iff Let_def)
    next
      case bc: True
      then have len: "2 * unat qty \<le> length data" using n body by simp
      let ?vs = "of_be16s (take (2 * unat qty) data)"
      have loop: "for_upto (unat qty) (\<lambda>i out. do { v \<leftarrow> get_u16 (ptr data (i * 2)); wr out i v })
          (local16 J 123) = Some (blit (local16 J 123) 0 ?vs)"
        using get_regs_loop[of 0 "unat qty" data "local16 J 123"] len qty by simp
      have regs: "f a qty (blit (local16 J 123) 0 ?vs) u = Some (g a ?vs u)" for a
        using u g(2)[unfolded writes_as_def, rule_format, of u qty "blit (local16 J 123) 0 ?vs" a]
          qty len by (simp add: min_absorb1)
      obtain rc u' where "g (of_be16 a1 a0) ?vs u = (rc, u')"
        by (cases "g (of_be16 a1 a0) ?vs u")
      with bc qty n body take len show ?thesis using Some g resp
        by (simp add: handle_write_multiple_def serve_write_regs_def handler_simps valid_qty_u16
            qty_def[symmetric] bc_iff loop regs write_result_def Let_def)
    qed
  qed
qed

lemma serve_short: "length rest < 4 \<Longrightarrow> serve d u (fc # rest) = (ExcReply fc (if known_fc fc then 3 else 1), u)"
  by (cases "(d, u, fc # rest)" rule: serve.cases) auto

lemma serve_unknown: "\<not> known_fc fc \<Longrightarrow> serve d u (fc # rest) = (ExcReply fc 1, u)"
  by (cases "(d, u, fc # rest)" rule: serve.cases) (auto simp: known_fc_def)

lemma handle_request_serve:
  assumes "device_ok I h d" and "I u" and "1 \<le> n" "n \<le> length req" and "252 \<le> length resp"
  shows "yields (mb_pdu_handle_request J h u req n resp) resp (serve d u (take n req))"
proof -
  from assms obtain fc rest where req: "req = fc # rest" by (cases req) auto
  show ?thesis
  proof (cases "known_fc fc \<and> 5 \<le> n")
    case False
    have "serve d u (take n req) = (ExcReply fc (if known_fc fc then 3 else 1), u)"
      using False assms req by (cases n) (auto simp: serve_short serve_unknown)
    then show ?thesis using False req assms
      by (auto simp: mb_pdu_handle_request_def known_fc_def handler_simps)
  next
    case True
    with assms have "5 \<le> length req" by simp
    then obtain x a1 a0 q1 q0 body where "req = x # a1 # a0 # q1 # q0 # body"
      by (rule length_ge_5_cases)
    with req have "req = fc # a1 # a0 # q1 # q0 # body" by simp
    moreover from this True have "take n req = fc # a1 # a0 # q1 # q0 # take (n - 5) body"
      by (simp add: take_5_Cons)
    ultimately show ?thesis using True assms
        handle_read_bits_serve[of I h d u resp J] handle_read_registers_serve[of I h d u resp J]
        handle_write_single_coil_serve[of I h d u resp]
        handle_write_single_register_serve[of I h d u resp]
        handle_write_multiple_serve_coils[of I h d u resp n body J]
        handle_write_multiple_serve_regs[of I h d u resp n body J]
      by (auto simp: mb_pdu_handle_request_def known_fc_def device_ok_def Let_def)
  qed
qed

section \<open>Memory safety with arbitrary callbacks\<close>

text \<open>
  The callbacks keep the size of the array they are given (no C function can change it), and
  are otherwise arbitrary: they may leave entries unset or return any code.
\<close>

definition keeps_arrays :: "'u mb_pdu_handlers \<Rightarrow> bool" where
  "keeps_arrays h \<longleftrightarrow>
     pred_option (\<lambda>f. \<forall>fc a q out u. \<exists>rc out' u'. f fc a q out u = Some (rc, out', u') \<and> length out' = length out)
       (read_registers h) \<and>
     pred_option (\<lambda>f. \<forall>a q data u. f a q data u \<noteq> None) (write_registers h) \<and>
     pred_option (\<lambda>f. \<forall>fc a q out u. \<exists>rc out' u'. f fc a q out u = Some (rc, out', u') \<and> length out' = length out)
       (read_bits h) \<and>
     pred_option (\<lambda>f. \<forall>a q bits u. f a q bits u \<noteq> None) (write_bits h)"

definition stores_reply :: "'u handled \<Rightarrow> u8 list \<Rightarrow> u8 \<Rightarrow> bool" where
  "stores_reply m resp fc \<longleftrightarrow>
     (\<exists>bs u'. m = Some ((length bs, u'), blit resp 0 bs) \<and> length bs \<le> 252 \<and> 2 \<le> length bs \<and>
        (hd bs = fc \<or> hd bs = fc OR MODBUS_EXCEPTION_FLAG \<and> length bs = 2))"

lemma stores_replyI:
  "m = Some ((length bs, u'), blit resp 0 bs) \<Longrightarrow> length bs \<le> 252 \<Longrightarrow> 2 \<le> length bs \<Longrightarrow>
   hd bs = fc \<or> hd bs = fc OR MODBUS_EXCEPTION_FLAG \<and> length bs = 2 \<Longrightarrow> stores_reply m resp fc"
  by (auto simp: stores_reply_def)

lemma return_exception_stores: "252 \<le> length resp \<Longrightarrow> stores_reply (return_exception u resp fc ex) resp fc"
  by (rule stores_replyI[of _ "[fc OR 0x80, ex]" u]) (auto simp: return_exception_blit)

lemma return_echo_stores:
  "252 \<le> length resp \<Longrightarrow> stores_reply (return_echo u (fc # a1 # a0 # q1 # q0 # body) resp) resp fc"
  by (rule stores_replyI[OF return_echo_req[folded length_read_req[of fc "of_be16 a1 a0" "of_be16 q1 q0"]]])
     (auto simp: read_req_def)

lemmas stores_intros = return_exception_stores return_echo_stores

lemma handle_read_registers_stores:
  assumes "keeps_arrays h" and "252 \<le> length resp"
  shows "stores_reply (handle_read_registers J h u fc addr qty resp) resp fc"
proof (cases "read_registers h = None \<or> \<not> valid_qty 125 (unat qty) \<or> \<not> in_range addr (unat qty)")
  case True
  with assms show ?thesis
    by (auto simp: handle_read_registers_def range_overflows_iff valid_qty_u16 stores_intros split: option.splits)
next
  case False
  then obtain f where f: "read_registers h = Some f" and qty: "1 \<le> unat qty" "unat qty \<le> 125"
    by (auto simp: valid_qty_def)
  obtain rc out u' where cb: "f fc addr qty (local16 J 125) u = Some (rc, out, u')" and out: "length out = 125"
    using assms(1) f by (fastforce simp: keeps_arrays_def)
  show ?thesis
  proof (cases "rc = 0")
    case True
    let ?bs = "fc # of_nat (2 * unat qty) # be16s (take (unat qty) out)"
    show ?thesis using False f cb True out qty assms(2)
      by (intro stores_replyI[where bs = ?bs and u' = u'])
         (auto simp: handle_read_registers_def range_overflows_iff valid_qty_u16 buf_simps put_regs_loop mult.commute)
  next
    case rc: False
    with False f cb assms(2) show ?thesis
      by (auto simp: handle_read_registers_def range_overflows_iff valid_qty_u16 stores_intros)
  qed
qed

lemma handle_read_bits_stores:
  assumes "keeps_arrays h" and "252 \<le> length resp"
  shows "stores_reply (handle_read_bits J h u fc addr qty resp) resp fc"
proof (cases "read_bits h = None \<or> \<not> valid_qty 2000 (unat qty) \<or> \<not> in_range addr (unat qty)")
  case True
  with assms show ?thesis
    by (auto simp: handle_read_bits_def range_overflows_iff valid_qty_u16 stores_intros split: option.splits)
next
  case False
  then obtain f where f: "read_bits h = Some f" and qty: "1 \<le> unat qty" "unat qty \<le> 2000"
    by (auto simp: valid_qty_def)
  let ?z = "blit (local8 J 2000) 0 (replicate (unat qty) 0)"
  obtain rc out u' where cb: "f fc addr qty ?z u = Some (rc, out, u')" and "length out = length ?z"
    using assms(1) f by (fastforce simp: keeps_arrays_def)
  with qty have out: "length out = 2000" by simp
  have bc: "2 + bit_byte_count qty \<le> 252" using qty by (simp add: bit_byte_count_def)
  show ?thesis
  proof (cases "rc = 0")
    case True
    let ?p = "packed (map (\<lambda>v. v \<noteq> 0) (take (unat qty) out))"
    show ?thesis using False f cb True out qty bc assms(2)
      by (intro stores_replyI[where bs = "fc # of_nat (bit_byte_count qty) # ?p" and u' = u'])
         (auto simp: handle_read_bits_def range_overflows_iff valid_qty_u16 buf_simps Let_def bit_byte_count_def)
  next
    case rc: False
    with False f cb qty assms(2) show ?thesis
      by (auto simp: handle_read_bits_def range_overflows_iff valid_qty_u16 buf_simps stores_intros)
  qed
qed

lemma keeps_arrays_write_bits:
  "keeps_arrays h \<Longrightarrow> write_bits h = Some f \<Longrightarrow> f a q bits u \<noteq> None"
  by (simp add: keeps_arrays_def del: not_None_eq)

lemma keeps_arrays_write_registers:
  "keeps_arrays h \<Longrightarrow> write_registers h = Some f \<Longrightarrow> f a q data u \<noteq> None"
  by (simp add: keeps_arrays_def del: not_None_eq)

lemma write_result_stores:
  assumes "m \<noteq> None" and "252 \<le> length resp"
  shows "stores_reply (do { (rc, u) \<leftarrow> m;
      if rc \<noteq> 0 then return_exception u resp fc (exception_from_callback_rc rc)
      else return_echo u (fc # a1 # a0 # q1 # q0 # body) resp }) resp fc"
  using assms by (auto simp: stores_intros)

lemmas write_stores = write_result_stores[OF keeps_arrays_write_bits]
  write_result_stores[OF keeps_arrays_write_registers]

lemma handle_writes_store:
  assumes "keeps_arrays h" and "252 \<le> length resp"
  shows "stores_reply (handle_write_single_coil h u (fc # a1 # a0 # q1 # q0 # body) resp) resp fc"
    and "stores_reply (handle_write_single_register h u (fc # a1 # a0 # q1 # q0 # body) resp) resp fc"
  using assms
  by (simp_all add: handle_write_single_coil_def handle_write_single_register_def stores_intros Let_def
      write_stores split: option.splits)

lemma handle_write_multiple_stores:
  assumes h: "keeps_arrays h" and resp: "252 \<le> length resp" and n: "5 \<le> n" "n \<le> 5 + length body"
  shows "stores_reply (handle_write_multiple J h u (fc # a1 # a0 # q1 # q0 # body) n resp) resp fc"
proof -
  define qty where "qty = of_be16 q1 q0"
  define k where "k = (if fc = 15 then bit_byte_count qty else unat qty * 2)"
  let ?max = "if fc = 15 then 1968 else 123 :: nat"
  show ?thesis
  proof (cases "(if fc = 15 then write_bits h = None else write_registers h = None) \<or>
      n \<le> 5 \<or> \<not> valid_qty ?max (unat qty)")
    case True
    with resp show ?thesis
      by (auto simp: handle_write_multiple_def stores_intros valid_qty_u16 Let_def qty_def[symmetric]
          split: if_splits)
  next
    case False
    then obtain bc data where body: "body = bc # data" using n by (cases body) auto
    from False have qty: "1 \<le> unat qty" "unat qty \<le> ?max" "5 < n" by (auto simp: valid_qty_def)
    show ?thesis
    proof (cases "bc \<noteq> of_nat k \<or> n \<noteq> 6 + k \<or> \<not> in_range (of_be16 a1 a0) (unat qty)")
      case True
      with False body resp show ?thesis
        by (auto simp: handle_write_multiple_def stores_intros valid_qty_u16 Let_def
            qty_def[symmetric] k_def range_overflows_iff split: if_splits)
    next
      case ok: False
      then have "k \<le> length data" using n body by simp
      then have "\<exists>bits. fc = 15 \<longrightarrow> unpack_bits data qty (local8 J 1968) = Some bits"
        "\<exists>vs. fc \<noteq> 15 \<longrightarrow> for_upto (unat qty)
           (\<lambda>i out. do { v \<leftarrow> get_u16 (ptr data (i * 2)); wr out i v }) (local16 J 123) = Some vs"
        using qty get_regs_loop[of 0 "unat qty" data "local16 J 123"]
        by (auto simp: k_def buf_simps split: if_splits)
      then obtain bits vs where
        "fc = 15 \<Longrightarrow> unpack_bits data qty (local8 J 1968) = Some bits"
        "fc \<noteq> 15 \<Longrightarrow> for_upto (unat qty)
           (\<lambda>i out. do { v \<leftarrow> get_u16 (ptr data (i * 2)); wr out i v }) (local16 J 123) = Some vs"
        by blast
      with False ok body resp h show ?thesis
        by (auto simp: handle_write_multiple_def valid_qty_u16 Let_def write_stores
            qty_def[symmetric] k_def range_overflows_iff split: if_splits)
    qed
  qed
qed

lemma handle_request_stores:
  assumes "keeps_arrays h" and n: "1 \<le> n" "n \<le> length req" and resp: "252 \<le> length resp"
  shows "stores_reply (mb_pdu_handle_request J h u req n resp) resp (req ! 0)"
proof -
  from n obtain fc rest where req: "req = fc # rest" by (cases req) auto
  show ?thesis
  proof (cases "known_fc fc \<and> 5 \<le> n")
    case False
    then show ?thesis using req resp
      by (auto simp: mb_pdu_handle_request_def known_fc_def stores_intros)
  next
    case True
    with n have "5 \<le> length req" by simp
    then obtain x a1 a0 q1 q0 body where "req = x # a1 # a0 # q1 # q0 # body"
      by (rule length_ge_5_cases)
    with req have "req = fc # a1 # a0 # q1 # q0 # body" by simp
    with True n show ?thesis
      using handle_read_bits_stores[OF assms(1) resp] handle_read_registers_stores[OF assms(1) resp]
        handle_writes_store[OF assms(1) resp] handle_write_multiple_stores[OF assms(1) resp, of n body]
      by (auto simp: mb_pdu_handle_request_def known_fc_def)
  qed
qed

end
