(* ===== verification/Pdu_Client.thy ===== *)
theory Pdu_Client
  imports Pdu_Server
begin

text \<open>
  What a client gets from the PDU layer: \<^const>\<open>mb_pdu_check_response\<close> is defined on every
  response, accepts exactly the replies that fit the request, and a response it accepted can
  be decoded; every reply of a server that implements the abstract server is accepted and
  decodes to the values the device gave.
\<close>

section \<open>Which replies fit a request\<close>

fun reply_code :: "mb_reply \<Rightarrow> c_int" where
  "reply_code (ExcReply fc ex) = uint ex"
| "reply_code r = 0"

fun reply_fits :: "u8 \<Rightarrow> u16 \<Rightarrow> u16 \<Rightarrow> mb_reply \<Rightarrow> bool" where
  "reply_fits fc addr qty (ExcReply fc' ex) \<longleftrightarrow> fc' = fc \<and> ex \<noteq> 0"
| "reply_fits fc addr qty (RegsReply fc' vs) \<longleftrightarrow> fc' = fc \<and> fc \<in> {3, 4} \<and> length vs = unat qty"
| "reply_fits fc addr qty (BitsReply fc' bs) \<longleftrightarrow> fc' = fc \<and> fc \<in> {1, 2} \<and> length bs = unat qty"
| "reply_fits fc addr qty (EchoReply fc' a v) \<longleftrightarrow> fc' = fc \<and> fc \<in> {5, 6, 15, 16} \<and> a = addr \<and> v = qty"

lemma known_fc_15: "known_fc 15"
  by (simp add: known_fc_def)

lemma known_fc_no_flag: "known_fc fc \<Longrightarrow> fc OR 0x80 \<noteq> fc"
  by (auto simp: known_fc_def)

lemma exception_from_callback_rc_nonzero [simp]: "exception_from_callback_rc rc \<noteq> 0"
  by (auto simp: exception_from_callback_rc_def)

lemma check_response_exception:
  assumes "known_fc fc" and "ex \<noteq> 0"
  shows "mb_pdu_check_response (fc # a1 # a0 # q1 # q0 # body) ((fc OR 0x80) # ex # rest) 2 = Some (uint ex)"
  using assms(2) by (simp add: mb_pdu_check_response_def)

lemma check_response_read:
  assumes "fc \<in> {1, 2, 3, 4}"
    and "length data = (if fc \<in> {1, 2} then bit_byte_count (of_be16 q1 q0) else 2 * unat (of_be16 q1 q0))"
  shows "mb_pdu_check_response (fc # a1 # a0 # q1 # q0 # body) (fc # of_nat (length data) # data @ rest)
           (2 + length data) = Some 0"
  using assms
  by (elim insertE emptyE) (simp_all add: mb_pdu_check_response_def Let_def mult.commute)

lemma check_response_write:
  assumes "fc \<in> {5, 6, 15, 16}"
  shows "mb_pdu_check_response (fc # a1 # a0 # q1 # q0 # body) (fc # a1 # a0 # q1 # q0 # rest) 5 = Some 0"
  using assms by (elim insertE emptyE) (simp_all add: mb_pdu_check_response_def memcmp_eq_def)

lemma check_response_reply:
  assumes "known_fc fc" and "reply_fits fc addr qty r"
  shows "mb_pdu_check_response (read_req fc addr qty @ body) (reply_pdu r @ rest) (length (reply_pdu r)) =
         Some (reply_code r)"
proof -
  obtain a1 a0 where a: "be16 addr = [a1, a0]" by (simp add: be16_def)
  obtain q1 q0 where q: "be16 qty = [q1, q0]" "of_be16 q1 q0 = qty" by (simp add: be16_def)
  show ?thesis
  proof (cases r)
    case (ExcReply fc' ex)
    with assms check_response_exception[of fc ex] show ?thesis
      by (simp add: read_req_def a q numeral_2_eq_2)
  next
    case (RegsReply fc' vs)
    with assms check_response_read[of fc "be16s vs" q1 q0 a1 a0 body rest] q show ?thesis
      by (auto simp: read_req_def a add_2_eq_Suc)
  next
    case (BitsReply fc' bs)
    with assms check_response_read[of fc "packed bs" q1 q0 a1 a0 body rest] q show ?thesis
      by (auto simp: read_req_def a bit_byte_count_def add_2_eq_Suc)
  next
    case (EchoReply fc' x v)
    with assms check_response_write[of fc] show ?thesis
      by (simp add: read_req_def a q eval_nat_numeral)
  qed
qed

section \<open>The reply of a server fits the request\<close>

lemma device_ok_read_regs_length:
  assumes "device_ok I h d" and "I u" and "dev_read_regs d = Some g" and "g fc a n u = (0, vs, u')"
    and "valid_qty 125 n"
  shows "length vs = n"
proof -
  from assms obtain f where f: "reads_regs_as I f g" by (auto simp: device_ok_def option_rel_Some2)
  have "unat (of_nat n :: u16) = n" using assms(5) by (simp add: valid_qty_def unat_of_nat_u16)
  then show ?thesis using assms f[unfolded reads_regs_as_def, rule_format, of u "of_nat n" "replicate 125 0" fc a]
    by (auto simp: valid_qty_def split: prod.splits)
qed

lemma device_ok_read_bits_length:
  assumes "device_ok I h d" and "I u" and "dev_read_bits d = Some g" and "g fc a n u = (0, bs, u')"
    and "valid_qty 2000 n"
  shows "length bs = n"
proof -
  from assms obtain f where f: "reads_bits_as I f g" by (auto simp: device_ok_def option_rel_Some2)
  have "unat (of_nat n :: u16) = n" using assms(5) by (simp add: valid_qty_def unat_of_nat_u16)
  then show ?thesis using assms f[unfolded reads_bits_as_def, rule_format, of u "of_nat n" "replicate 2000 0" fc a]
    by (auto simp: valid_qty_def split: prod.splits)
qed

lemma device_ok_keeps_read_regs:
  assumes "device_ok I h d" and "I u" and "dev_read_regs d = Some g" and "g fc a n u = (rc, vs, u')"
    and "valid_qty 125 n"
  shows "I u'"
proof -
  from assms obtain f where f: "reads_regs_as I f g" by (auto simp: device_ok_def option_rel_Some2)
  have "unat (of_nat n :: u16) = n" using assms(5) by (simp add: valid_qty_def unat_of_nat_u16)
  then show ?thesis using assms f[unfolded reads_regs_as_def, rule_format, of u "of_nat n" "replicate 125 0" fc a]
    by (auto simp: valid_qty_def split: prod.splits)
qed

lemma device_ok_keeps_read_bits:
  assumes "device_ok I h d" and "I u" and "dev_read_bits d = Some g" and "g fc a n u = (rc, bs, u')"
    and "valid_qty 2000 n"
  shows "I u'"
proof -
  from assms obtain f where f: "reads_bits_as I f g" by (auto simp: device_ok_def option_rel_Some2)
  have "unat (of_nat n :: u16) = n" using assms(5) by (simp add: valid_qty_def unat_of_nat_u16)
  then show ?thesis using assms f[unfolded reads_bits_as_def, rule_format, of u "of_nat n" "replicate 2000 0" fc a]
    by (auto simp: valid_qty_def split: prod.splits)
qed

lemma device_ok_keeps_write_regs:
  assumes "device_ok I h d" and "I u" and "dev_write_regs d = Some g" and "1 \<le> length vs" and "length vs \<le> 123"
  shows "I (snd (g a vs u))"
proof -
  from assms obtain f where f: "writes_as I f g" by (auto simp: device_ok_def option_rel_Some2)
  have "unat (of_nat (length vs) :: u16) = length vs" using assms(5) by (simp add: unat_of_nat_u16)
  then show ?thesis using assms f[unfolded writes_as_def, rule_format, of u "of_nat (length vs)" vs a] by simp
qed

lemma device_ok_keeps_write_bits:
  assumes "device_ok I h d" and "I u" and "dev_write_bits d = Some g" and "1 \<le> length bs" and "length bs \<le> 1968"
  shows "I (snd (g a bs u))"
proof -
  from assms obtain f where f: "writes_as I f (\<lambda>a bits. g a (map (\<lambda>v. v \<noteq> (0 :: u8)) bits))"
    by (auto simp: device_ok_def option_rel_Some2)
  have "unat (of_nat (length bs) :: u16) = length bs" using assms(5) by (simp add: unat_of_nat_u16)
  then show ?thesis
    using assms f[unfolded writes_as_def, rule_format, of u "of_nat (length bs)" "map of_bool bs" a]
    by (simp add: comp_def)
qed

lemma serve_keeps:
  assumes ok: "device_ok I h d" "I u" and "req \<noteq> []"
  shows "I (snd (serve d u req))"
proof -
  have "I (snd (serve_read_regs d u fc a n))" for fc a n
    using ok by (auto simp: serve_read_regs_def split: option.split prod.split intro: device_ok_keeps_read_regs)
  moreover have "I (snd (serve_read_bits d u fc a n))" for fc a n
    using ok by (auto simp: serve_read_bits_def split: option.split prod.split intro: device_ok_keeps_read_bits)
  moreover have "I (snd (serve_write_coil d u fc a v))" for fc a v
    using ok by (auto simp: serve_write_coil_def write_result_def split: option.split
        intro!: device_ok_keeps_write_bits[OF ok])
  moreover have "I (snd (serve_write_reg d u fc a v))" for fc a v
    using ok by (auto simp: serve_write_reg_def write_result_def split: option.split
        intro!: device_ok_keeps_write_regs[OF ok])
  moreover have "I (snd (serve_write_coils d u fc a q body))" for fc a q body
    using ok by (auto simp: serve_write_coils_def write_result_def valid_qty_def split: option.split
        intro!: device_ok_keeps_write_bits[OF ok])
  moreover have "I (snd (serve_write_regs d u fc a q body))" for fc a q body
    using ok by (auto simp: serve_write_regs_def write_result_def valid_qty_def split: option.split
        intro!: device_ok_keeps_write_regs[OF ok])
  ultimately show ?thesis using assms by (cases "(d, u, req)" rule: serve.cases) (auto simp: Let_def)
qed

lemma serve_reply_fits:
  assumes ok: "device_ok I h d" "I u" and "known_fc fc"
  shows "reply_fits fc addr qty (fst (serve d u (read_req fc addr qty @ body)))"
proof -
  obtain a1 a0 where a: "be16 addr = [a1, a0]" "of_be16 a1 a0 = addr" by (simp add: be16_def)
  obtain q1 q0 where q: "be16 qty = [q1, q0]" "of_be16 q1 q0 = qty" by (simp add: be16_def)
  have "reply_fits fc addr qty (fst (serve_read_regs d u fc addr (unat qty)))" if "fc \<in> {3, 4}" for fc
    using that by (auto simp: serve_read_regs_def split: option.split prod.split
        dest: device_ok_read_regs_length[OF ok])
  moreover have "reply_fits fc addr qty (fst (serve_read_bits d u fc addr (unat qty)))" if "fc \<in> {1, 2}" for fc
    using that by (auto simp: serve_read_bits_def split: option.split prod.split
        dest: device_ok_read_bits_length[OF ok])
  moreover have "reply_fits fc addr qty (fst (write_result fc addr qty res))" if "fc \<in> {5, 6, 15, 16}"
    for fc and res :: "c_int \<times> 'a"
    using that by (simp add: write_result_def)
  ultimately show ?thesis using assms(3)
    by (auto simp: read_req_def a q known_fc_def serve_write_coil_def serve_write_reg_def
        serve_write_coils_def serve_write_regs_def split: option.split)
qed

text \<open>Replies fit into a PDU.\<close>

lemma serve_reply_length:
  assumes ok: "device_ok I h d" "I u" and "pdu \<noteq> []"
  shows "2 \<le> length (reply_pdu (fst (serve d u pdu))) \<and> length (reply_pdu (fst (serve d u pdu))) \<le> 252"
proof -
  have regs: "length (reply_pdu (fst (serve_read_regs d u fc addr (unat qty)))) \<le> 252" for fc addr and qty :: u16
    by (auto simp: serve_read_regs_def valid_qty_def split: option.split prod.split dest: device_ok_read_regs_length[OF ok])
  have bits: "length (reply_pdu (fst (serve_read_bits d u fc addr (unat qty)))) \<le> 252" for fc addr and qty :: u16
    by (auto simp: serve_read_bits_def valid_qty_def split: option.split prod.split dest: device_ok_read_bits_length[OF ok])
  have wr: "length (reply_pdu (fst (write_result fc addr v res))) \<le> 252" for fc addr v and res :: "c_int \<times> 'a"
    by (simp add: write_result_def)
  have "length (reply_pdu (fst (serve d u pdu))) \<le> 252"
    using assms(3) regs bits wr
    by (cases "(d, u, pdu)" rule: serve.cases)
       (auto simp: Let_def serve_write_coil_def serve_write_reg_def serve_write_coils_def serve_write_regs_def split: option.split)
  moreover have "2 \<le> length (reply_pdu r)" for r by (cases r) simp_all
  ultimately show ?thesis by blast
qed

section \<open>Decoding\<close>

lemma get_registers_reply:
  assumes "length vs = unat qty" and "unat qty \<le> length out"
  shows "mb_pdu_get_registers (fc # bc # be16s vs @ rest) qty out = Some (blit out 0 vs)"
  using get_regs_loop[of 2 "unat qty" "fc # bc # be16s vs @ rest" out] assms
  by (simp add: mb_pdu_get_registers_def)

lemma unpacked_append: "length bs \<le> 8 * length bytes \<Longrightarrow> unpacked (length bs) (bytes @ rest) = unpacked (length bs) bytes"
  by (auto simp: unpacked_def nth_append)

lemma get_bits_reply:
  assumes "length bs = unat qty" and "unat qty \<le> length out"
  shows "mb_pdu_get_bits (fc # bc # packed bs @ rest) qty out = Some (blit out 0 (map of_bool bs))"
proof -
  have "unpacked (unat qty) (packed bs @ rest) = bs"
    using unpacked_append[of bs "packed bs" rest] unpacked_packed[of bs] assms(1) by simp
  with assms show ?thesis
    by (simp add: mb_pdu_get_bits_def unpack_bits_unpacked bit_byte_count_def)
qed

section \<open>Every response\<close>

lemma get_registers_take:
  assumes "n = 2 + 2 * unat qty" and "n \<le> length resp" and "unat qty \<le> length out"
  shows "mb_pdu_get_registers resp qty out = Some (blit out 0 (of_be16s (drop 2 (take n resp))))"
  using get_regs_loop[of 2 "unat qty" resp out] assms
  by (simp add: mb_pdu_get_registers_def drop_take)

lemma get_bits_take:
  assumes "n = 2 + bit_byte_count qty" and "n \<le> length resp" and "unat qty \<le> length out"
  shows "mb_pdu_get_bits resp qty out = Some (blit out 0 (map of_bool (unpacked (unat qty) (drop 2 (take n resp)))))"
proof -
  have "unpacked (unat qty) (take (bit_byte_count qty) (drop 2 resp)) = unpacked (unat qty) (drop 2 resp)"
    by (auto simp: unpacked_def bit_byte_count_def)
  with assms show ?thesis by (simp add: mb_pdu_get_bits_def unpack_bits_unpacked ptr_def drop_take)
qed

lemma check_response_cases:
  assumes req: "req = fc # a1 # a0 # q1 # q0 # body" and "n \<le> length resp"
  shows "\<exists>rc. mb_pdu_check_response req resp n = Some rc \<and>
    (rc = - 1 \<or>
     1 \<le> rc \<and> rc \<le> 255 \<and> take n resp = [fc OR 0x80, of_int rc] \<or>
     rc = 0 \<and> fc \<in> {3, 4} \<and> n = 2 + 2 * unat (of_be16 q1 q0) \<or>
     rc = 0 \<and> fc \<in> {1, 2} \<and> n = 2 + bit_byte_count (of_be16 q1 q0) \<or>
     rc = 0 \<and> mb_pdu_is_write fc \<and> take n resp = take 5 req)"
proof (cases "n = 0")
  case True
  then show ?thesis by (simp add: mb_pdu_check_response_def req)
next
  case False
  then obtain r0 rs where resp: "resp = r0 # rs" using assms by (cases resp) auto
  note defs = mb_pdu_check_response_def req resp
  show ?thesis
  proof (cases "r0 = fc OR 0x80 \<or> r0 \<noteq> fc")
    case True
    have exc: "1 \<le> uint x \<and> uint x \<le> 255" if "x \<noteq> 0" for x :: u8
      using that uint_lt2p[of x] uint_ge_0[of x] by (auto simp: uint_0_iff order_le_less simp del: uint_ge_0)
    have "mb_pdu_check_response req resp n = (if r0 = fc OR 0x80 \<and> n = 2 \<and> hd rs \<noteq> 0 then Some (uint (hd rs)) else Some (- 1))"
    proof (cases "r0 = fc OR 0x80")
      case eq: True
      show ?thesis using assms(2) False by (cases rs) (simp_all add: defs eq)
    next
      case ne: False
      with True have "r0 \<noteq> fc" by simp
      with ne False show ?thesis by (simp add: defs)
    qed
    with exc[of "hd rs"] assms(2) resp show ?thesis
      by (cases rs) (auto simp: numeral_2_eq_2)
  next
    case ok: False
    then have r0: "r0 = fc" "fc \<noteq> fc OR 0x80" by auto
    consider "fc \<in> {1, 2}" | "fc \<in> {3, 4}" | "mb_pdu_is_write fc" | "\<not> known_fc fc"
      by (auto simp: mb_pdu_is_write_def known_fc_def)
    then show ?thesis
    proof cases
      case 1
      then have "mb_pdu_check_response req resp n =
          (if n = 2 + bit_byte_count (of_be16 q1 q0) \<and> hd rs = of_nat (bit_byte_count (of_be16 q1 q0))
           then Some 0 else Some (- 1))"
        using False r0 assms(2) by (elim insertE emptyE; cases rs) (simp_all add: defs Let_def)
      with 1 show ?thesis by auto
    next
      case 2
      then have "mb_pdu_check_response req resp n =
          (if n = 2 + unat (of_be16 q1 q0) * 2 \<and> hd rs = of_nat (unat (of_be16 q1 q0) * 2)
           then Some 0 else Some (- 1))"
        using False r0 assms(2) by (elim insertE emptyE; cases rs) (simp_all add: defs Let_def)
      with 2 show ?thesis by (auto simp: mult.commute)
    next
      case 3
      then have "mb_pdu_check_response req resp n =
          (if n \<noteq> 5 then Some (- 1) else Some (if take 4 rs = [a1, a0, q1, q0] then 0 else - 1))"
        using False r0 assms(2) unfolding mb_pdu_is_write_def
        by (elim disjE) (simp_all add: defs memcmp_eq_def)
      with 3 r0 resp req show ?thesis by auto
    next
      case 4
      then show ?thesis using False r0 by (simp add: defs known_fc_def)
    qed
  qed
qed

lemma check_response_total:
  assumes "5 \<le> length req" and "n \<le> length resp"
  shows "\<exists>rc. mb_pdu_check_response req resp n = Some rc \<and> - 1 \<le> rc \<and> rc \<le> 255"
proof -
  obtain fc a1 a0 q1 q0 body where "req = fc # a1 # a0 # q1 # q0 # body"
    using assms(1) by (rule length_ge_5_cases)
  from check_response_cases[OF this assms(2)] show ?thesis by auto
qed

section \<open>One exchange between a client and a server\<close>

text \<open>
  A server is given by its callbacks, the device they implement and the invariant of the
  application state. Whatever it answers to a request of a client, the client accepts.
\<close>

definition exchange ::
    "stack \<Rightarrow> 'u mb_pdu_handlers \<Rightarrow> 'u \<Rightarrow> u8 list \<Rightarrow> nat \<Rightarrow> u8 list \<Rightarrow> (c_int \<times> u8 list \<times> 'u) option" where
  "exchange J h u pdu pdu_len resp = do {
     ((resp_len, u), resp) \<leftarrow> mb_pdu_handle_request J h u pdu pdu_len resp;
     rc \<leftarrow> mb_pdu_check_response pdu resp resp_len;
     Some (rc, resp, u) }"

locale pdu_server =
  fixes I :: "'u \<Rightarrow> bool" and h :: "'u mb_pdu_handlers" and d :: "'u device"
  assumes ok: "device_ok I h d"
begin

lemma dispatch:
  "I u \<Longrightarrow> 1 \<le> n \<Longrightarrow> n \<le> length req \<Longrightarrow> 252 \<le> length resp \<Longrightarrow>
   mb_pdu_handle_request J h u req n resp =
     (case serve d u (take n req) of (r, u') \<Rightarrow> Some ((length (reply_pdu r), u'), blit resp 0 (reply_pdu r)))"
  using handle_request_serve[OF ok, of u n req resp J] by (simp add: yields_def split_beta)

lemma exchange_accepted:
  assumes "I u" and "252 \<le> length resp" and "known_fc fc"
    and pdu: "take n pdu = read_req fc addr qty @ body" "n \<le> length pdu" "n = 5 + length body"
  shows "exchange J h u pdu n resp =
     (case serve d u (take n pdu) of (r, u') \<Rightarrow> Some (reply_code r, blit resp 0 (reply_pdu r), u'))"
proof -
  obtain r u' where r: "serve d u (take n pdu) = (r, u')" by fastforce
  have "pdu = read_req fc addr qty @ body @ drop n pdu"
    using pdu by (metis append_assoc append_take_drop_id)
  moreover have "reply_fits fc addr qty r"
    using serve_reply_fits[OF ok assms(1,3), of addr qty body] r pdu by simp
  ultimately have "mb_pdu_check_response pdu (reply_pdu r @ drop (length (reply_pdu r)) resp) (length (reply_pdu r)) =
      Some (reply_code r)"
    using check_response_reply[OF assms(3)] by metis
  then show ?thesis
    using dispatch[of u n pdu resp J] assms r by (simp add: exchange_def blit_def)
qed

lemma read_registers_exchange:
  assumes "I u" and "252 \<le> length resp" and "5 \<le> length pdu" and "unat qty \<le> length out"
    and "fc \<in> {3, 4}" and "valid_qty 125 (unat qty)" and "in_range addr (unat qty)"
    and g: "dev_read_regs d = Some g" "g fc addr (unat qty) u = (0, vs, u')"
  shows "do { (n, pdu) \<leftarrow> mb_pdu_build_read pdu fc addr qty;
              (rc, resp, u) \<leftarrow> exchange J h u pdu n resp;
              out \<leftarrow> mb_pdu_get_registers resp qty out;
              Some (rc, out, u) } = Some (0, blit out 0 vs, u')"
proof -
  have fc: "known_fc fc" using assms(5) by (auto simp: known_fc_def)
  obtain a1 a0 q1 q0 where b: "be16 addr = [a1, a0]" "of_be16 a1 a0 = addr"
    "be16 qty = [q1, q0]" "of_be16 q1 q0 = qty" by (simp add: be16_def)
  have "serve d u (read_req fc addr qty) = (RegsReply fc vs, u')"
    using assms(5-9) b by (auto simp: read_req_def serve_read_regs_def)
  moreover have "length vs = unat qty"
    using device_ok_read_regs_length[OF ok assms(1) g assms(6)] .
  ultimately show ?thesis
    using assms exchange_accepted[OF assms(1,2) fc, of 5 "blit pdu 0 (read_req fc addr qty)" addr qty "[]" J]
      get_registers_reply[of vs qty out fc "of_nat (2 * length vs)" "drop (2 + 2 * length vs) resp"]
    by (simp add: buf_simps) (simp add: blit_def add_2_eq_Suc)
qed

lemma read_bits_exchange:
  assumes "I u" and "252 \<le> length resp" and "5 \<le> length pdu" and "unat qty \<le> length out"
    and "fc \<in> {1, 2}" and "valid_qty 2000 (unat qty)" and "in_range addr (unat qty)"
    and g: "dev_read_bits d = Some g" "g fc addr (unat qty) u = (0, bs, u')"
  shows "do { (n, pdu) \<leftarrow> mb_pdu_build_read pdu fc addr qty;
              (rc, resp, u) \<leftarrow> exchange J h u pdu n resp;
              out \<leftarrow> mb_pdu_get_bits resp qty out;
              Some (rc, out, u) } = Some (0, blit out 0 (map of_bool bs), u')"
proof -
  have fc: "known_fc fc" using assms(5) by (auto simp: known_fc_def)
  obtain a1 a0 q1 q0 where b: "be16 addr = [a1, a0]" "of_be16 a1 a0 = addr"
    "be16 qty = [q1, q0]" "of_be16 q1 q0 = qty" by (simp add: be16_def)
  have "serve d u (read_req fc addr qty) = (BitsReply fc bs, u')"
    using assms(5-9) b by (auto simp: read_req_def serve_read_bits_def)
  moreover have "length bs = unat qty"
    using device_ok_read_bits_length[OF ok assms(1) g assms(6)] .
  ultimately show ?thesis
    using assms exchange_accepted[OF assms(1,2) fc, of 5 "blit pdu 0 (read_req fc addr qty)" addr qty "[]" J]
      get_bits_reply[of bs qty out fc "of_nat (length (packed bs))" "drop (2 + length (packed bs)) resp"]
    by (simp add: buf_simps) (simp add: blit_def add_2_eq_Suc)
qed

lemma write_registers_exchange:
  assumes "I u" and "252 \<le> length resp" and "6 + 2 * unat qty \<le> length pdu" and "unat qty \<le> length data"
    and "valid_qty 123 (unat qty)" and "in_range addr (unat qty)"
    and g: "dev_write_regs d = Some g" "g addr (take (unat qty) data) u = (0, u')"
  shows "do { (n, pdu) \<leftarrow> mb_pdu_build_write_registers pdu addr qty data;
              (rc, resp, u) \<leftarrow> exchange J h u pdu n resp;
              Some (rc, u) } = Some (0, u')"
proof -
  let ?vs = "take (unat qty) data"
  let ?body = "of_nat (2 * unat qty) # be16s ?vs"
  obtain a1 a0 q1 q0 where b: "be16 addr = [a1, a0]" "of_be16 a1 a0 = addr"
    "be16 qty = [q1, q0]" "of_be16 q1 q0 = qty" by (simp add: be16_def)
  have len: "length ?vs = unat qty" using assms(4) by simp
  have bc: "unat (of_nat (2 * unat qty) :: u8) = 2 * unat qty"
    using assms(5) by (intro unat_of_nat_u8) (simp add: valid_qty_def)
  have req: "write_regs_req addr ?vs = read_req 16 addr qty @ ?body"
    using len by (simp add: write_regs_req_def)
  have "serve d u (read_req 16 addr qty @ ?body) = (EchoReply 16 addr qty, u')"
    using assms(5-8) b bc len by (simp add: read_req_def serve_write_regs_def write_result_def del: of_nat_mult)
  moreover have "take (6 + 2 * unat qty) (blit pdu 0 (write_regs_req addr ?vs)) = read_req 16 addr qty @ ?body"
    using len by (simp only: req[symmetric]) simp
  ultimately have "exchange J h u (blit pdu 0 (write_regs_req addr ?vs)) (6 + 2 * unat qty) resp =
      Some (0, blit resp 0 (reply_pdu (EchoReply 16 addr qty)), u')"
    using exchange_accepted[OF assms(1,2), of 16 "6 + 2 * unat qty" "blit pdu 0 (write_regs_req addr ?vs)"
        addr qty ?body J] len assms(3) by (simp only: known_fc_def) simp
  then show ?thesis by (simp add: mb_pdu_build_write_registers_req[OF assms(4,3)])
qed

lemma write_coils_exchange:
  assumes "I u" and "252 \<le> length resp" and "6 + bit_byte_count qty \<le> length pdu" and "unat qty \<le> length data"
    and "valid_qty 1968 (unat qty)" and "in_range addr (unat qty)"
    and g: "dev_write_bits d = Some g" "g addr (map (\<lambda>v. v \<noteq> 0) (take (unat qty) data)) u = (0, u')"
  shows "do { (n, pdu) \<leftarrow> mb_pdu_build_write_coils pdu addr qty data;
              (rc, resp, u) \<leftarrow> exchange J h u pdu n resp;
              Some (rc, u) } = Some (0, u')"
proof -
  define bs where "bs = map (\<lambda>v. v \<noteq> 0) (take (unat qty) data)"
  define k where "k = bit_byte_count qty"
  define p where "p = packed bs"
  have len: "length bs = unat qty" using assms(4) by (simp add: bs_def)
  have k: "k = (unat qty + 7) div 8" "unat (of_nat k :: u8) = k" "length p = k"
    using assms(5) len by (auto simp: valid_qty_def k_def p_def bit_byte_count_def intro!: unat_of_nat_u8)
  obtain a1 a0 q1 q0 where b: "be16 addr = [a1, a0]" "of_be16 a1 a0 = addr"
    "be16 qty = [q1, q0]" "of_be16 q1 q0 = qty" by (simp add: be16_def)
  have req: "write_coils_req addr bs = read_req 15 addr qty @ of_nat k # p"
    using len k by (simp add: write_coils_req_def p_def)
  have "unpacked (unat qty) p = bs" using unpacked_packed[of bs] len by (simp add: p_def)
  then have serve: "serve d u (read_req 15 addr qty @ of_nat k # p) = (EchoReply 15 addr qty, u')"
    using assms(5,6) g b k(2,3)
    by (simp add: read_req_def serve_write_coils_def write_result_def bs_def[symmetric] k(1)[symmetric])
  have six: "6 + k = 5 + length (of_nat k # p)" using k(3) by simp
  have pdu: "6 + k \<le> length (blit pdu 0 (write_coils_req addr bs))"
    using assms(3) k(3) by (simp add: req k_def)
  have take: "take (6 + k) (blit pdu 0 (write_coils_req addr bs)) = read_req 15 addr qty @ of_nat k # p"
    using k(3) by (simp only: req) simp
  have "exchange J h u (blit pdu 0 (write_coils_req addr bs)) (6 + k) resp =
      Some (0, blit resp 0 (reply_pdu (EchoReply 15 addr qty)), u')"
    unfolding exchange_accepted[OF assms(1,2) known_fc_15 take pdu six] take serve by simp
  then show ?thesis
    by (simp add: mb_pdu_build_write_coils_req[OF assms(4,3)] bs_def[symmetric] k_def[symmetric])
qed

lemma failing_exchange:
  assumes "I u" and "252 \<le> length resp" and "known_fc fc" and "5 \<le> length pdu"
    and "serve d u (read_req fc addr qty) = (ExcReply fc ex, u')"
  shows "do { (n, pdu) \<leftarrow> mb_pdu_build_read pdu fc addr qty;
              (rc, resp, u) \<leftarrow> exchange J h u pdu n resp;
              Some (rc, u) } = Some (uint ex, u')"
  using assms exchange_accepted[OF assms(1-3), of 5 "blit pdu 0 (read_req fc addr qty)" addr qty "[]" J]
  by (simp add: buf_simps)

end

end
