(* ===== verification/Register_Bank.thy ===== *)
theory Register_Bank
  imports Pdu_Client
begin

text \<open>
  The application of \<^verbatim>\<open>src/examples/rtu_server_example.c\<close>: a bank of 32 registers behind
  \<open>on_read\<close> and \<open>on_write\<close>. The callbacks implement an abstract device, so everything proved
  about the PDU layer for a conforming application holds for this one.

  \<open>userdata\<close> may be a null pointer, so the application state is optional. The lock around the
  accesses has no counterpart here: a callback is one step on the application state. The data
  pointer of a write callback comes from the PDU layer, which never passes a null one.
\<close>

section \<open>The callbacks\<close>

abbreviation (input) REG_TEMPERATURE :: nat where "REG_TEMPERATURE \<equiv> 0"
abbreviation (input) REG_STATUS :: nat where "REG_STATUS \<equiv> 1"
abbreviation (input) REG_BANK_SIZE :: u32 where "REG_BANK_SIZE \<equiv> 32"

record server_app_ctx =
  reg_bank :: "u16 list"

definition on_read ::
    "u8 \<Rightarrow> u16 \<Rightarrow> u16 \<Rightarrow> u16 list \<Rightarrow> server_app_ctx option \<Rightarrow> (c_int \<times> u16 list \<times> server_app_ctx option) option" where
  "on_read function_code addr qty out userdata =
     (case userdata of
        None \<Rightarrow> Some (uint MODBUS_EX_ILLEGAL_DATA_ADDRESS, out, userdata)
      | Some app \<Rightarrow>
          if (ucast addr :: u32) + ucast qty > REG_BANK_SIZE then
            Some (uint MODBUS_EX_ILLEGAL_DATA_ADDRESS, out, userdata)
          else do {
            bank \<leftarrow> wr (reg_bank app) REG_TEMPERATURE 253;
            bank \<leftarrow> wr bank REG_STATUS 0x0001;
            out \<leftarrow> for_upto (unat qty) (\<lambda>i out. do { v \<leftarrow> rd bank (unat addr + i); wr out i v }) out;
            Some (0, out, Some (app\<lparr>reg_bank := bank\<rparr>)) })"

definition on_write ::
    "u16 \<Rightarrow> u16 \<Rightarrow> u16 list \<Rightarrow> server_app_ctx option \<Rightarrow> (c_int \<times> server_app_ctx option) option" where
  "on_write addr qty data userdata =
     (case userdata of
        None \<Rightarrow> Some (uint MODBUS_EX_ILLEGAL_DATA_ADDRESS, userdata)
      | Some app \<Rightarrow>
          if (ucast addr :: u32) + ucast qty > REG_BANK_SIZE then
            Some (uint MODBUS_EX_ILLEGAL_DATA_ADDRESS, userdata)
          else do {
            bank \<leftarrow> for_upto (unat qty) (\<lambda>i bank. do { v \<leftarrow> rd data i; wr bank (unat addr + i) v }) (reg_bank app);
            Some (0, Some (app\<lparr>reg_bank := bank\<rparr>)) })"

text \<open>The callbacks the RTU server passes on: registers only, no coils.\<close>

definition bank_handlers :: "server_app_ctx option mb_pdu_handlers" where
  "bank_handlers = \<lparr>read_registers = Some on_read, write_registers = Some on_write,
     read_bits = None, write_bits = None\<rparr>"

section \<open>The device they implement\<close>

definition bank_ok :: "server_app_ctx option \<Rightarrow> bool" where
  "bank_ok u \<longleftrightarrow> pred_option (\<lambda>app. length (reg_bank app) = 32) u"

definition refresh :: "u16 list \<Rightarrow> u16 list" where
  "refresh bank = bank[0 := 253, 1 := 1]"

definition bank_read :: "u8 \<Rightarrow> u16 \<Rightarrow> nat \<Rightarrow> server_app_ctx option \<Rightarrow> c_int \<times> u16 list \<times> server_app_ctx option" where
  "bank_read fc a n u =
     (case u of
        None \<Rightarrow> (2, [], u)
      | Some app \<Rightarrow>
          if unat a + n > 32 then (2, [], u)
          else (0, take n (drop (unat a) (refresh (reg_bank app))), Some (app\<lparr>reg_bank := refresh (reg_bank app)\<rparr>)))"

definition bank_write :: "u16 \<Rightarrow> u16 list \<Rightarrow> server_app_ctx option \<Rightarrow> c_int \<times> server_app_ctx option" where
  "bank_write a vs u =
     (case u of
        None \<Rightarrow> (2, u)
      | Some app \<Rightarrow>
          if unat a + length vs > 32 then (2, u)
          else (0, Some (app\<lparr>reg_bank := blit (reg_bank app) (unat a) vs\<rparr>)))"

definition bank_device :: "server_app_ctx option device" where
  "bank_device = \<lparr>dev_read_regs = Some bank_read, dev_write_regs = Some bank_write,
     dev_read_bits = None, dev_write_bits = None\<rparr>"

lemma bank_bound: "(ucast addr :: u32) + ucast qty > 32 \<longleftrightarrow> unat addr + unat qty > 32" for addr qty :: u16
proof -
  have "unat ((ucast addr :: u32) + ucast qty) = unat addr + unat qty"
    using unat_u16_less[of addr] unat_u16_less[of qty]
    by (simp add: unat_word_ariths unsigned_ucast_eq take_bit_eq_mod)
  then show ?thesis by (simp add: word_less_nat_alt)
qed

lemma length_refresh [simp]: "length (refresh bank) = length bank"
  by (simp add: refresh_def)

lemma copy_out_loop:
  assumes "a + n \<le> length bank" and "n \<le> length out"
  shows "for_upto n (\<lambda>i out. do { v \<leftarrow> rd bank (a + i); wr out i v }) out =
         Some (blit out 0 (take n (drop a bank)))"
  using assms
  by (intro for_upto_eq[where g = "\<lambda>i. blit out 0 (take i (drop a bank))", THEN trans])
     (auto simp: buf_simps take_Suc_conv_app_nth)

lemma copy_in_loop:
  assumes "a + n \<le> length bank" and "n \<le> length data"
  shows "for_upto n (\<lambda>i bank. do { v \<leftarrow> rd data i; wr bank (a + i) v }) bank =
         Some (blit bank a (take n data))"
  using assms
  by (intro for_upto_eq[where g = "\<lambda>i. blit bank a (take i data)", THEN trans])
     (auto simp: buf_simps take_Suc_conv_app_nth)

lemma on_read_bank: "reads_regs_as bank_ok on_read bank_read"
  unfolding reads_regs_as_def
proof (intro allI impI, elim conjE)
  fix fc :: u8 and a q :: u16 and out :: "u16 list" and u
  assume u: "bank_ok u" and q: "1 \<le> unat q" "unat q \<le> length out"
  show "case bank_read fc a (unat q) u of (rc, vs, u') \<Rightarrow>
      \<exists>out'. on_read fc a q out u = Some (rc, out', u') \<and> length out' = length out \<and> bank_ok u' \<and>
        (rc = 0 \<longrightarrow> take (unat q) out' = vs)"
  proof (cases u)
    case None
    then show ?thesis by (simp add: on_read_def bank_read_def bank_ok_def)
  next
    case (Some app)
    with u have len: "length (reg_bank app) = 32" by (simp add: bank_ok_def)
    then have "do { bank \<leftarrow> wr (reg_bank app) 0 253; wr bank 1 1 } = Some (refresh (reg_bank app))"
      by (simp add: wr_def refresh_def)
    with Some len q show ?thesis
      by (auto simp: on_read_def bank_read_def bank_ok_def bank_bound copy_out_loop not_less
          bind_assoc[symmetric])
  qed
qed

lemma on_write_bank: "writes_as bank_ok on_write bank_write"
  unfolding writes_as_def
  by (auto simp: on_write_def bank_write_def bank_ok_def bank_bound copy_in_loop not_less min_absorb2
      split: option.split)

interpretation bank: pdu_server bank_ok bank_handlers bank_device
  by unfold_locales (simp add: device_ok_def bank_handlers_def bank_device_def on_read_bank on_write_bank)

end
