(* ===== verification/Pdu_Properties.thy ===== *)
theory Pdu_Properties
  imports Register_Bank
begin

text \<open>
  The properties of the PDU layer (\<^verbatim>\<open>src/src/modbus_pdu.c\<close>): the dispatch of a request
  implements the abstract server and stays inside the response buffer, the check of a response
  is total and an accepted response decodes, and a client that talks to a server reads back
  what it wrote. Each property with hypotheses is followed by an instance of it.
\<close>

section \<open>Inputs of the instances\<close>

definition zero_bank :: "server_app_ctx option" where
  "zero_bank = Some \<lparr>reg_bank = replicate 32 0\<rparr>"

lemma bank_ok_zero [simp]: "bank_ok zero_bank"
  by (simp add: bank_ok_def zero_bank_def)

lemma of_be16_small: "of_be16 0 lo = ucast lo"
  by (simp add: of_be16_def)

lemma take_refresh: "2 \<le> length bank \<Longrightarrow> take 2 (refresh bank) = [253, 1]"
  by (cases bank; cases "tl bank") (auto simp: refresh_def numeral_2_eq_2)

text \<open>A device with one coil output, as an application that handles coils would have it.\<close>

definition coil_write :: "u16 \<Rightarrow> u16 \<Rightarrow> u8 list \<Rightarrow> u8 list \<Rightarrow> (c_int \<times> u8 list) option" where
  "coil_write a q data u = Some (0, map (\<lambda>v. of_bool (v \<noteq> 0)) (take (unat q) data))"

definition coil_handlers :: "u8 list mb_pdu_handlers" where
  "coil_handlers = \<lparr>read_registers = None, write_registers = None,
     read_bits = None, write_bits = Some coil_write\<rparr>"

definition coil_device :: "u8 list device" where
  "coil_device = \<lparr>dev_read_regs = None, dev_write_regs = None,
     dev_read_bits = None, dev_write_bits = Some (\<lambda>a bs u. (0, map of_bool bs))\<rparr>"

lemma coil_device_ok: "device_ok (\<lambda>_. True) coil_handlers coil_device"
  by (simp add: device_ok_def coil_handlers_def coil_device_def writes_as_def coil_write_def comp_def)

section \<open>Dispatch\<close>

text \<open>
  C1. For every application whose callbacks implement a device, the dispatch of a request
  stores exactly the reply of the abstract server at the start of the response buffer, returns
  its length and leaves the application in the state of the device, on every branch: unknown
  function codes, short requests, bad quantities, address overflow, failing and missing
  callbacks, and every read and write.
\<close>

theorem dispatch_refines_server:
  assumes "device_ok I h d" and "I u" and "1 \<le> n" and "n \<le> length req" and "252 \<le> length resp"
  shows "mb_pdu_handle_request J h u req n resp =
    (case serve d u (take n req) of
       (r, u') \<Rightarrow> Some ((length (reply_pdu r), u'), reply_pdu r @ drop (length (reply_pdu r)) resp))"
  using handle_request_serve[OF assms, of J] by (simp add: yields_def split_beta blit_def)

theorem dispatch_refines_server_witness:
  "mb_pdu_handle_request zero_stack bank_handlers zero_bank [3, 0, 0, 0, 2] 5 (replicate 252 7) =
     Some ((6, Some \<lparr>reg_bank = refresh (replicate 32 0)\<rparr>), [3, 4, 0, 253, 0, 1] @ replicate 246 7)"
proof -
  have "serve bank_device zero_bank [3, 0, 0, 0, 2] =
      (RegsReply 3 [253, 1], Some \<lparr>reg_bank = refresh (replicate 32 0)\<rparr>)"
    by (simp add: of_be16_small serve_read_regs_def bank_device_def bank_read_def zero_bank_def valid_qty_def
        in_range_def take_refresh)
  then show ?thesis
    using dispatch_refines_server[OF bank.ok, of zero_bank 5 "[3, 0, 0, 0, 2]" "replicate 252 7" zero_stack]
    by (simp add: be16_def)
qed

text \<open>
  C2. Memory safety of the dispatch: whatever the callbacks store in their arrays and
  whatever they return, the dispatch of any request of at least one byte terminates without
  an access outside a buffer, returns a length between 2 and 252 and changes nothing behind
  that length; the first byte of the response is the function code, with the exception flag
  exactly in responses of two bytes.
\<close>

theorem dispatch_memory_safe:
  assumes "keeps_arrays h" and "1 \<le> n" and "n \<le> length req" and "252 \<le> length resp"
  shows "\<exists>m u' resp'. mb_pdu_handle_request J h u req n resp = Some ((m, u'), resp') \<and>
    2 \<le> m \<and> m \<le> 252 \<and> length resp' = length resp \<and> drop m resp' = drop m resp \<and>
    (resp' ! 0 = req ! 0 \<or> resp' ! 0 = req ! 0 OR MODBUS_EXCEPTION_FLAG \<and> m = 2)"
proof -
  obtain bs u' where b: "mb_pdu_handle_request J h u req n resp = Some ((length bs, u'), blit resp 0 bs)"
    and len: "length bs \<le> 252" "2 \<le> length bs"
    and hd: "hd bs = req ! 0 \<or> hd bs = req ! 0 OR MODBUS_EXCEPTION_FLAG \<and> length bs = 2"
    using handle_request_stores[OF assms, of J u] by (auto simp: stores_reply_def)
  have "blit resp 0 bs ! 0 = hd bs" using len by (cases bs) (auto simp: blit_def)
  with b len hd assms(4) show ?thesis
    by (intro exI[of _ "length bs"] exI[of _ u'] exI[of _ "blit resp 0 bs"]) (auto simp: blit_def)
qed

lemma keeps_arrays_coil: "keeps_arrays coil_handlers"
  by (simp add: keeps_arrays_def coil_handlers_def coil_write_def)

theorem dispatch_memory_safe_witness:
  "\<exists>m u' resp'. mb_pdu_handle_request zero_stack coil_handlers [] [5, 0, 0, 0xFF, 0] 5 (replicate 252 0) =
      Some ((m, u'), resp') \<and>
    2 \<le> m \<and> m \<le> 252 \<and> length resp' = 252 \<and> drop m resp' = drop m (replicate 252 0) \<and>
    (resp' ! 0 = 5 \<or> resp' ! 0 = 0x85 \<and> m = 2)"
  using dispatch_memory_safe[OF keeps_arrays_coil, of 5 "[5, 0, 0, 0xFF, 0]" "replicate 252 0" zero_stack "[]"]
  by simp

definition missing_callback :: "'u mb_pdu_handlers \<Rightarrow> u8 \<Rightarrow> bool" where
  "missing_callback h fc \<longleftrightarrow>
     fc \<in> {3, 4} \<and> read_registers h = None \<or> fc \<in> {1, 2} \<and> read_bits h = None \<or>
     fc \<in> {5, 15} \<and> write_bits h = None \<or> fc \<in> {6, 16} \<and> write_registers h = None"

text \<open>
  A request whose callback the application left null is answered with exception 1
  (illegal function), never with a device failure, and does not touch the application.
\<close>

theorem null_callback_illegal_function:
  assumes "missing_callback h (req ! 0)" and "5 \<le> n" and "n \<le> length req" and "2 \<le> length resp"
  shows "mb_pdu_handle_request J h u req n resp =
    Some ((2, u), (req ! 0 OR MODBUS_EXCEPTION_FLAG) # MODBUS_EX_ILLEGAL_FUNCTION # drop 2 resp)"
proof -
  from assms have "5 \<le> length req" by simp
  then obtain fc a1 a0 q1 q0 body where req: "req = fc # a1 # a0 # q1 # q0 # body"
    by (rule length_ge_5_cases)
  have "return_exception u resp fc 1 = Some ((2, u), (fc OR 0x80) # 1 # drop 2 resp)"
    using assms by (simp add: return_exception_blit blit_def numeral_2_eq_2)
  with assms(1,2) show ?thesis unfolding req missing_callback_def
    by (elim disjE conjE insertE emptyE) (simp_all add: mb_pdu_handle_request_def handle_read_bits_def
        handle_read_registers_def handle_write_single_coil_def handle_write_single_register_def
        handle_write_multiple_def)
qed

theorem null_callback_illegal_function_witness:
  "mb_pdu_handle_request zero_stack coil_handlers [] [3, 0, 0, 0, 2] 5 (replicate 252 0) =
     Some ((2, []), 0x83 # 1 # replicate 250 0)"
  using null_callback_illegal_function[of coil_handlers "[3, 0, 0, 0, 2]" 5 "replicate 252 0" zero_stack "[]"]
  by (simp add: missing_callback_def coil_handlers_def)

text \<open>
  A non-zero code of a read callback is answered with an exception of the same number when
  it is one of the nine Modbus exception codes, the acknowledge, busy, parity and gateway codes
  included, and with a device failure otherwise.
\<close>

theorem read_callback_error_code:
  assumes "read_registers h = Some cb" and "cb fc addr qty (local16 J 125) u = Some (rc, out, u')"
    and "rc \<noteq> 0" and "1 \<le> unat qty" and "unat qty \<le> 125" and "unat addr + unat qty \<le> 65536"
    and "2 \<le> length resp"
  shows "handle_read_registers J h u fc addr qty resp =
    Some ((2, u'), (fc OR MODBUS_EXCEPTION_FLAG) #
      (if rc \<in> {1, 2, 3, 4, 5, 6, 8, 10, 11} then of_int rc else 4) # drop 2 resp)"
proof -
  have "\<not> range_overflows addr qty" using assms by (simp add: range_overflows_iff in_range_def)
  moreover have "qty \<noteq> 0" using assms(4) by auto
  ultimately show ?thesis using assms
    by (simp add: handle_read_registers_def return_exception_blit blit_def exception_from_callback_rc_def numeral_2_eq_2)
qed

definition busy_handlers :: "unit mb_pdu_handlers" where
  "busy_handlers = \<lparr>read_registers = Some (\<lambda>fc a q out u. Some (6, out, u)), write_registers = None,
     read_bits = None, write_bits = None\<rparr>"

theorem read_callback_error_code_witness:
  "handle_read_registers zero_stack busy_handlers () 3 0 1 (replicate 252 0) =
     Some ((2, ()), 0x83 # 6 # replicate 250 0)"
  using read_callback_error_code[of busy_handlers "\<lambda>fc a q out u. Some (6, out, u)" 3 0 1 zero_stack "()" 6
      "local16 zero_stack 125" "()" "replicate 252 0"]
  by (simp add: busy_handlers_def)

section \<open>Checking responses\<close>

text \<open>
  C3. The check of a response is total: for a request of at least five bytes and any response
  whose length lies inside its buffer it returns a code between -1 and 255 without an access
  outside a buffer. A positive code means that the response is exactly the exception PDU of the
  request with that code; after the code 0 for a read the decoder of registers (or of bits) is
  defined and yields the values on the wire; after the code 0 for a write the response is the
  echo of the first five bytes of the request.
\<close>

theorem check_response_sound:
  assumes "5 \<le> length req" and "n \<le> length resp" and "qty = of_be16 (req ! 3) (req ! 4)"
    and "unat qty \<le> length regs" and "unat qty \<le> length bits"
  shows "\<exists>rc. mb_pdu_check_response req resp n = Some rc \<and> - 1 \<le> rc \<and> rc \<le> 255 \<and>
    (0 < rc \<longrightarrow> take n resp = [req ! 0 OR MODBUS_EXCEPTION_FLAG, of_int rc]) \<and>
    (rc = 0 \<longrightarrow>
       req ! 0 \<in> {3, 4} \<and> mb_pdu_get_registers resp qty regs =
         Some (of_be16s (drop 2 (take n resp)) @ drop (unat qty) regs) \<or>
       req ! 0 \<in> {1, 2} \<and> mb_pdu_get_bits resp qty bits =
         Some (map of_bool (unpacked (unat qty) (drop 2 (take n resp))) @ drop (unat qty) bits) \<or>
       mb_pdu_is_write (req ! 0) \<and> take n resp = take 5 req)"
proof -
  obtain fc a1 a0 q1 q0 body where req: "req = fc # a1 # a0 # q1 # q0 # body"
    using assms(1) by (rule length_ge_5_cases)
  with assms(3) have qty: "qty = of_be16 q1 q0" by simp
  obtain rc where rc: "mb_pdu_check_response req resp n = Some rc" and cases:
    "rc = - 1 \<or>
     1 \<le> rc \<and> rc \<le> 255 \<and> take n resp = [fc OR 0x80, of_int rc] \<or>
     rc = 0 \<and> fc \<in> {3, 4} \<and> n = 2 + 2 * unat qty \<or>
     rc = 0 \<and> fc \<in> {1, 2} \<and> n = 2 + bit_byte_count qty \<or>
     rc = 0 \<and> mb_pdu_is_write fc \<and> take n resp = take 5 req"
    using check_response_cases[OF req assms(2)] by (auto simp: qty)
  have regs: "mb_pdu_get_registers resp qty regs = Some (of_be16s (drop 2 (take n resp)) @ drop (unat qty) regs)"
    if "n = 2 + 2 * unat qty"
    using get_registers_take[OF that assms(2,4)] that assms(2) by (simp add: blit_def min_absorb2)
  have bits: "mb_pdu_get_bits resp qty bits =
      Some (map of_bool (unpacked (unat qty) (drop 2 (take n resp))) @ drop (unat qty) bits)"
    if "n = 2 + bit_byte_count qty"
    using get_bits_take[OF that assms(2,5)] by (simp add: blit_def)
  show ?thesis
    by (rule exI[of _ rc]) (use rc cases regs bits req in \<open>elim disjE conjE; simp\<close>)
qed

theorem check_response_sound_witness:
  "\<exists>rc. mb_pdu_check_response [3, 0, 0, 0, 1] [3, 2, 0x12, 0x34] 4 = Some rc \<and> - 1 \<le> rc \<and> rc \<le> 255 \<and>
    (0 < rc \<longrightarrow> [3, 2, 0x12, 0x34] = [0x83, of_int rc :: u8]) \<and>
    (rc = 0 \<longrightarrow> mb_pdu_get_registers [3, 2, 0x12, 0x34] 1 [0] = Some [of_be16 0x12 0x34])"
  using check_response_sound[of "[3, 0, 0, 0, 1]" 4 "[3, 2, 0x12, 0x34]" 1 "[0]" "[0]"]
  by (simp add: of_be16_small mb_pdu_is_write_def)

section \<open>Clients and servers\<close>

text \<open>
  A client accepts every answer of a server to a request with a known function code: the
  check of the response returns 0 for a reply with values or an echo and the exception code
  for an exception, never a frame error, whatever the body of the request.
\<close>

theorem client_accepts_every_reply:
  assumes "device_ok I h d" and "I u" and "252 \<le> length resp" and "known_fc fc"
    and "pdu = read_req fc addr qty @ body"
  shows "exchange J h u pdu (length pdu) resp =
    (case serve d u pdu of (r, u') \<Rightarrow> Some (reply_code r, reply_pdu r @ drop (length (reply_pdu r)) resp, u'))"
  using pdu_server.exchange_accepted[OF pdu_server.intro[OF assms(1)] assms(2-4), of "length pdu" pdu addr qty body J]
    assms(5) by (simp add: blit_def)

theorem client_accepts_every_reply_witness:
  "exchange zero_stack coil_handlers [] [5, 0, 0, 0xFF, 0] 5 (replicate 252 0) =
     Some (0, [5, 0, 0, 0xFF, 0] @ replicate 247 0, [1])"
proof -
  have five: "Suc (Suc (Suc (Suc (Suc 0)))) = 5" by simp
  have "read_req 5 0 0xFF00 = [5, 0, 0, 0xFF, 0]" by (simp add: read_req_def be16_def)
  moreover have "of_be16 0xFF 0 = 0xFF00" by (simp add: of_be16_def)
  ultimately show ?thesis
    using client_accepts_every_reply[OF coil_device_ok, where u = "[]" and resp = "replicate 252 0" and fc = 5
        and pdu = "[5, 0, 0, 0xFF, 0]" and addr = 0 and qty = "0xFF00" and body = "[]" and J = zero_stack]
    by (simp add: known_fc_def of_be16_small serve_write_coil_def coil_device_def write_result_def)
       (simp add: five)
qed

text \<open>
  C4. Coils written by a client arrive unchanged: the states a client packs into a write request
  of 1 to 1968 coils are the states the write callback of the device gets, in order, and the
  client sees success.
\<close>

theorem client_writes_coils:
  assumes "device_ok I h d" and "I u" and "252 \<le> length resp" and "6 + bit_byte_count qty \<le> length pdu"
    and "unat qty = length states" and "1 \<le> length states" and "length states \<le> 1968"
    and "unat addr + length states \<le> 65536"
    and "dev_write_bits d = Some g" and "g addr (map (\<lambda>v. v \<noteq> 0) states) u = (0, u')"
  shows "do { (n, pdu) \<leftarrow> mb_pdu_build_write_coils pdu addr qty states;
              (rc, resp, u) \<leftarrow> exchange J h u pdu n resp;
              Some (rc, u) } = Some (0, u')"
  using pdu_server.write_coils_exchange[OF pdu_server.intro[OF assms(1)] assms(2-4), of states addr g u' J] assms(5-)
  by (simp add: valid_qty_def in_range_def)

theorem client_writes_coils_witness:
  "do { (n, pdu) \<leftarrow> mb_pdu_build_write_coils (replicate 253 0) 7 3 [1, 0, 9];
        (rc, resp, u) \<leftarrow> exchange zero_stack coil_handlers [] pdu n (replicate 252 0);
        Some (rc, u) } = Some (0, [1, 0, 1])"
  by (rule client_writes_coils[OF coil_device_ok, where g = "\<lambda>a bs u. (0, map of_bool bs)"]) (simp_all add: coil_device_def bit_byte_count_def)

text \<open>
  Coil states survive packing: unpacking what \<^const>\<open>pack_bits\<close> stored gives back the states,
  normalised to 0 and 1, for every quantity, and packing changes no byte outside its range.
\<close>

theorem pack_unpack_bits:
  assumes "unat qty \<le> length states" and "off + bit_byte_count qty \<le> length out" and "unat qty \<le> length bits"
  shows "\<exists>out'. pack_bits states qty out off = Some out' \<and> length out' = length out \<and>
    take off out' = take off out \<and> drop (off + bit_byte_count qty) out' = drop (off + bit_byte_count qty) out \<and>
    unpack_bits (ptr out' off) qty bits =
      Some (map (\<lambda>v. of_bool (v \<noteq> 0)) (take (unat qty) states) @ drop (unat qty) bits)"
proof -
  define bs where "bs = map (\<lambda>v. v \<noteq> 0) (take (unat qty) states)"
  have len: "length bs = unat qty" "length (packed bs) = bit_byte_count qty"
    using assms by (simp_all add: bs_def bit_byte_count_def)
  have "unpacked (unat qty) (packed bs @ rest) = bs" for rest
    using unpacked_append[of bs "packed bs" rest] unpacked_packed[of bs] len by simp
  moreover have "ptr (blit out off (packed bs)) off = packed bs @ drop (off + bit_byte_count qty) out"
    using assms len by (simp add: ptr_def blit_def)
  ultimately have "unpack_bits (ptr (blit out off (packed bs)) off) qty bits =
      Some (map of_bool bs @ drop (unat qty) bits)"
    using assms len by (simp add: unpack_bits_unpacked blit_def)
  then show ?thesis
    using assms len
    by (intro exI[of _ "blit out off (packed bs)"])
       (simp add: pack_bits_packed bs_def[symmetric], simp add: blit_def bs_def comp_def)
qed

theorem pack_unpack_bits_witness:
  "\<exists>out'. pack_bits [1, 0, 9] 3 [7, 7, 7] 1 = Some out' \<and> length out' = 3 \<and>
    take 1 out' = [7] \<and> drop 2 out' = [7] \<and> unpack_bits (ptr out' 1) 3 [0, 0, 0, 0] = Some [1, 0, 1, 0]"
  using pack_unpack_bits[of 3 "[1, 0, 9]" 1 "[7, 7, 7]" "[0, 0, 0, 0]"]
  by (simp add: bit_byte_count_def) (simp add: numeral_2_eq_2 numeral_3_eq_3)

text \<open>
  Registers written by a client and read back: against the register bank of the example
  server, a write of any 1 to 30 registers from address 2 on succeeds, and a following read of
  the same range returns the values written, each through a complete exchange of request and
  response PDUs, for any contents of the buffers and of the stack.
\<close>

theorem bank_write_then_read:
  assumes "bank_ok (Some app)" and "2 \<le> unat addr" and "unat addr + unat qty \<le> 32" and "1 \<le> unat qty"
    and "length vals = unat qty" and "length out = unat qty"
    and "253 \<le> length pdu" and "253 \<le> length resp" and "5 \<le> length pdu'"
  shows "do { (n, req) \<leftarrow> mb_pdu_build_write_registers pdu addr qty vals;
              (rc, rsp, u) \<leftarrow> exchange J bank_handlers (Some app) req n resp;
              (n', req') \<leftarrow> mb_pdu_build_read pdu' 3 addr qty;
              (rc', rsp', u') \<leftarrow> exchange J' bank_handlers u req' n' resp;
              out \<leftarrow> mb_pdu_get_registers rsp' qty out;
              Some (rc, rc', out) } = Some (0, 0, vals)"
proof -
  let ?app = "app\<lparr>reg_bank := blit (reg_bank app) (unat addr) vals\<rparr>"
  let ?app' = "?app\<lparr>reg_bank := refresh (reg_bank ?app)\<rparr>"
  have len: "length (reg_bank app) = 32" using assms(1) by (simp add: bank_ok_def)
  have w: "do { (n, req) \<leftarrow> mb_pdu_build_write_registers pdu addr qty vals;
              (rc, rsp, u) \<leftarrow> exchange J bank_handlers (Some app) req n resp;
              Some (rc, u) } = Some (0, Some ?app)"
    using assms
    by (intro bank.write_registers_exchange[where g = bank_write])
       (auto simp: bank_device_def bank_write_def valid_qty_def in_range_def)
  have vals: "take (unat qty) (drop (unat addr) (refresh (reg_bank ?app))) = vals"
    using assms len by (auto simp: refresh_def list_eq_iff_nth_eq nth_list_update nth_blit)
  have r: "do { (n', req') \<leftarrow> mb_pdu_build_read pdu' 3 addr qty;
              (rc', rsp', u') \<leftarrow> exchange J' bank_handlers (Some ?app) req' n' resp;
              out \<leftarrow> mb_pdu_get_registers rsp' qty out;
              Some (rc', out, u') } = Some (0, blit out 0 vals, Some ?app')"
    using assms len vals
    by (intro bank.read_registers_exchange[where g = bank_read])
       (auto simp: bank_ok_def bank_device_def bank_read_def valid_qty_def in_range_def)
  show ?thesis using w r assms(5,6) by (auto simp: bind_eq_Some_conv split: prod.splits)
qed

theorem bank_write_then_read_witness:
  "do { (n, req) \<leftarrow> mb_pdu_build_write_registers (replicate 253 0) 10 2 [7, 8];
        (rc, rsp, u) \<leftarrow> exchange zero_stack bank_handlers zero_bank req n (replicate 253 0);
        (n', req') \<leftarrow> mb_pdu_build_read (replicate 253 0) 3 10 2;
        (rc', rsp', u') \<leftarrow> exchange zero_stack bank_handlers u req' n' (replicate 253 0);
        out \<leftarrow> mb_pdu_get_registers rsp' 2 [0, 0];
        Some (rc, rc', out) } = Some (0, 0, [7, 8])"
  using bank_ok_zero unfolding zero_bank_def by (intro bank_write_then_read) simp_all

end
