(* ===== verification/Rtu_Frame.thy ===== *)
theory Rtu_Frame
  imports Pdu_Server
begin

text \<open>
  RTU framing and timing, from \<^verbatim>\<open>src/src/modbus_rtu.c\<close>: the CRC-16 of a frame, appending and
  validating it, the silent interval between frames, and the builders and the parser of RTU
  frames. A pointer the code compares with a null pointer is an optional value.

  The CRC is analysed at the level of bits: the routine is a shift register fed bit by bit, a
  frame is valid exactly when the register ends at zero, and from that follow the error
  detection properties of the checksum.
\<close>

section \<open>Constants and configuration\<close>

abbreviation (input) MODBUS_RTU_CRC_LEN :: nat where "MODBUS_RTU_CRC_LEN \<equiv> 2"
abbreviation (input) MODBUS_RTU_MIN_REQ_LENGTH :: nat where "MODBUS_RTU_MIN_REQ_LENGTH \<equiv> 8"
abbreviation (input) MODBUS_RTU_MAX_ADU_LENGTH :: nat where "MODBUS_RTU_MAX_ADU_LENGTH \<equiv> 256"
abbreviation (input) MB_RTU_TIMING_DISABLED :: u32 where "MB_RTU_TIMING_DISABLED \<equiv> 0xFFFFFFFF"

abbreviation (input) RTU_OFFSET_UNIT_ID :: nat where "RTU_OFFSET_UNIT_ID \<equiv> 0"
abbreviation (input) RTU_OFFSET_FC :: nat where "RTU_OFFSET_FC \<equiv> 1"
abbreviation (input) RTU_OFFSET_ADDR_HIGH :: nat where "RTU_OFFSET_ADDR_HIGH \<equiv> 2"
abbreviation (input) RTU_OFFSET_ADDR_LOW :: nat where "RTU_OFFSET_ADDR_LOW \<equiv> 3"
abbreviation (input) RTU_OFFSET_QTY_HIGH :: nat where "RTU_OFFSET_QTY_HIGH \<equiv> 4"
abbreviation (input) RTU_OFFSET_QTY_LOW :: nat where "RTU_OFFSET_QTY_LOW \<equiv> 5"
abbreviation (input) RTU_OFFSET_FC16_BYTE_CNT :: nat where "RTU_OFFSET_FC16_BYTE_CNT \<equiv> 6"
abbreviation (input) RTU_OFFSET_FC16_DATA :: nat where "RTU_OFFSET_FC16_DATA \<equiv> 7"
abbreviation (input) RTU_STANDARD_PDU_LEN :: nat where "RTU_STANDARD_PDU_LEN \<equiv> 5"
abbreviation (input) RTU_READ_RESPONSE_BASE :: nat where "RTU_READ_RESPONSE_BASE \<equiv> 5"
abbreviation (input) RTU_T35_FIXED_BAUD_ABOVE :: u32 where "RTU_T35_FIXED_BAUD_ABOVE \<equiv> 19200"
abbreviation (input) RTU_T35_FIXED_US :: u32 where "RTU_T35_FIXED_US \<equiv> 1750"

text \<open>The enumerations are C integers, which may hold a value that is no enumerator.\<close>

abbreviation (input) MB_RTU_PARITY_NONE :: c_int where "MB_RTU_PARITY_NONE \<equiv> 0"
abbreviation (input) MB_RTU_PARITY_EVEN :: c_int where "MB_RTU_PARITY_EVEN \<equiv> 1"
abbreviation (input) MB_RTU_PARITY_ODD :: c_int where "MB_RTU_PARITY_ODD \<equiv> 2"

record mb_rtu_serial_config =
  device :: "string option"
  baud_rate :: u32
  data_bits :: u8
  stop_bits :: u8
  parity :: c_int
  rs485_mode :: c_int

definition effective_data_bits :: "u8 \<Rightarrow> u8" where
  "effective_data_bits n = (if n = 0 then 8 else n)"

definition effective_stop_bits :: "u8 \<Rightarrow> u8" where
  "effective_stop_bits n = (if n = 0 then 1 else n)"

section \<open>Checksum\<close>

definition crc_step :: "u16 \<Rightarrow> u16" where
  "crc_step crc = (if crc AND 0x0001 \<noteq> 0 then drop_bit 1 crc XOR 0xA001 else drop_bit 1 crc)"

definition mb_rtu_crc16 :: "u8 list option \<Rightarrow> nat \<Rightarrow> u16 option" where
  "mb_rtu_crc16 data len =
     (case data of
        None \<Rightarrow> Some (if len > 0 then 0 else 0xFFFF)
      | Some data \<Rightarrow>
          for_upto len (\<lambda>i crc. do {
            d \<leftarrow> rd data i;
            let crc = crc XOR ucast d;
            for_upto 8 (\<lambda>bit crc. Some (crc_step crc)) crc }) 0xFFFF)"

definition mb_rtu_append_crc :: "u8 list option \<Rightarrow> nat \<Rightarrow> nat \<Rightarrow> (c_int \<times> u8 list option) option" where
  "mb_rtu_append_crc frame frame_len_without_crc frame_cap =
     (case frame of
        None \<Rightarrow> Some (- 1, None)
      | Some frame \<Rightarrow>
          if frame_cap < (frame_len_without_crc + MODBUS_RTU_CRC_LEN) mod 2 ^ 64 then Some (- 1, Some frame)
          else do {
            crc \<leftarrow> mb_rtu_crc16 (Some frame) frame_len_without_crc;
            frame \<leftarrow> wr frame frame_len_without_crc (ucast (crc AND 0xFF));
            frame \<leftarrow> wr frame ((frame_len_without_crc + 1) mod 2 ^ 64) (ucast (drop_bit 8 crc));
            Some (0, Some frame) })"

definition mb_rtu_validate_crc :: "u8 list option \<Rightarrow> nat \<Rightarrow> c_int option" where
  "mb_rtu_validate_crc frame frame_len =
     (case frame of
        None \<Rightarrow> Some (- 1)
      | Some frame \<Rightarrow>
          if frame_len < MODBUS_RTU_CRC_LEN then Some (- 1)
          else do {
            let payload_len = frame_len - MODBUS_RTU_CRC_LEN;
            expected \<leftarrow> mb_rtu_crc16 (Some frame) payload_len;
            lo \<leftarrow> rd frame payload_len;
            hi \<leftarrow> rd frame (payload_len + 1);
            let received = ucast lo OR push_bit 8 (ucast hi);
            Some (if expected = received then 0 else - 1) })"

section \<open>Timing\<close>

definition mb_rtu_t35_us :: "mb_rtu_serial_config option \<Rightarrow> u32" where
  "mb_rtu_t35_us serial =
     (case serial of
        None \<Rightarrow> 0
      | Some serial \<Rightarrow>
          let baud = (if baud_rate serial = 0 then 9600 else baud_rate serial) in
          if baud > RTU_T35_FIXED_BAUD_ABOVE then RTU_T35_FIXED_US
          else
            let char_bits = (1 :: u32) + ucast (effective_data_bits (data_bits serial)) +
                  ucast (effective_stop_bits (stop_bits serial)) +
                  (if parity serial \<noteq> MB_RTU_PARITY_NONE then 1 else 0)
            in ucast ((((ucast char_bits :: u64) * 3500000 + ucast baud - 1)) div ucast baud))"

definition mb_rtu_effective_timing :: "u32 \<Rightarrow> u32 \<Rightarrow> u32" where
  "mb_rtu_effective_timing configured default_value =
     (if configured = MB_RTU_TIMING_DISABLED then 0
      else if configured = 0 then default_value
      else configured)"

section \<open>Frames\<close>

definition mb_rtu_build_request_basis ::
    "u8 \<Rightarrow> c_int \<Rightarrow> c_int \<Rightarrow> u16 \<Rightarrow> u8 list option \<Rightarrow> nat \<Rightarrow> (c_int \<times> u8 list option) option" where
  "mb_rtu_build_request_basis unit_id func addr nb req req_cap =
     (case req of
        None \<Rightarrow> Some (- 1, None)
      | Some req \<Rightarrow>
          if req_cap < MODBUS_RTU_MIN_REQ_LENGTH then Some (- 1, Some req)
          else if func < 0 \<or> func > 255 \<or> addr < 0 \<or> addr > 65535 then Some (- 1, Some req)
          else do {
            req \<leftarrow> wr req RTU_OFFSET_UNIT_ID unit_id;
            req \<leftarrow> wr req RTU_OFFSET_FC (word_of_int func);
            req \<leftarrow> wr req RTU_OFFSET_ADDR_HIGH (ucast (drop_bit 8 (word_of_int addr :: u32)));
            req \<leftarrow> wr req RTU_OFFSET_ADDR_LOW (ucast ((word_of_int addr :: u32) AND 0xFF));
            req \<leftarrow> wr req RTU_OFFSET_QTY_HIGH (ucast (drop_bit 8 nb));
            req \<leftarrow> wr req RTU_OFFSET_QTY_LOW (ucast (nb AND 0xFF));
            (rc, req) \<leftarrow> mb_rtu_append_crc (Some req) (1 + RTU_STANDARD_PDU_LEN) req_cap;
            Some (if rc \<noteq> 0 then (- 1, req) else (int MODBUS_RTU_MIN_REQ_LENGTH, req)) })"

definition mb_rtu_build_fc06_request ::
    "u8 \<Rightarrow> u16 \<Rightarrow> u16 \<Rightarrow> u8 list option \<Rightarrow> nat \<Rightarrow> (c_int \<times> u8 list option) option" where
  "mb_rtu_build_fc06_request unit_id addr value req req_cap =
     mb_rtu_build_request_basis unit_id (uint MODBUS_FUNC_WRITE_SINGLE_REGISTER) (uint addr) value req req_cap"

definition mb_rtu_build_fc16_request ::
    "u8 \<Rightarrow> u16 \<Rightarrow> u16 \<Rightarrow> u16 list option \<Rightarrow> u8 list option \<Rightarrow> nat \<Rightarrow> (c_int \<times> u8 list option) option" where
  "mb_rtu_build_fc16_request unit_id addr num_registers values req req_cap =
     (case (req, values) of
        (Some req, Some values) \<Rightarrow>
          if num_registers = 0 \<or> unat num_registers > MODBUS_MAX_WRITE_REGISTERS then Some (- 1, Some req)
          else do {
            let byte_count = (of_nat (unat num_registers * 2) :: u8);
            let total_len = 9 + unat byte_count;
            if req_cap < total_len \<or> total_len > MODBUS_RTU_MAX_ADU_LENGTH then Some (- 1, Some req)
            else do {
              req \<leftarrow> wr req RTU_OFFSET_UNIT_ID unit_id;
              req \<leftarrow> wr req RTU_OFFSET_FC MODBUS_FUNC_WRITE_MULTIPLE_REGISTERS;
              req \<leftarrow> wr req RTU_OFFSET_ADDR_HIGH (ucast (drop_bit 8 addr));
              req \<leftarrow> wr req RTU_OFFSET_ADDR_LOW (ucast (addr AND 0xFF));
              req \<leftarrow> wr req RTU_OFFSET_QTY_HIGH (ucast (drop_bit 8 num_registers));
              req \<leftarrow> wr req RTU_OFFSET_QTY_LOW (ucast (num_registers AND 0xFF));
              req \<leftarrow> wr req RTU_OFFSET_FC16_BYTE_CNT byte_count;
              req \<leftarrow> for_upto (unat num_registers) (\<lambda>i req. do {
                let offset = RTU_OFFSET_FC16_DATA + i * 2;
                v \<leftarrow> rd values i;
                req \<leftarrow> wr req offset (ucast (drop_bit 8 v));
                wr req (offset + 1) (ucast (v AND 0xFF)) }) req;
              (rc, req) \<leftarrow> mb_rtu_append_crc (Some req) (total_len - MODBUS_RTU_CRC_LEN) req_cap;
              Some (if rc \<noteq> 0 then (- 1, req) else (int total_len, req)) } }
      | _ \<Rightarrow> Some (- 1, req))"

definition mb_rtu_parse_request ::
    "u8 list option \<Rightarrow> nat \<Rightarrow> u8 option \<Rightarrow> u16 option \<Rightarrow> u16 option \<Rightarrow>
     (c_int \<times> u8 option \<times> u16 option \<times> u16 option) option" where
  "mb_rtu_parse_request request len function_code address quantity =
     (case request of
        None \<Rightarrow> Some (- 1, function_code, address, quantity)
      | Some bytes \<Rightarrow>
          if function_code = None \<or> address = None \<or> quantity = None \<or> len < MODBUS_RTU_MIN_REQ_LENGTH then
            Some (- 1, function_code, address, quantity)
          else do {
            rc \<leftarrow> mb_rtu_validate_crc request len;
            if rc \<noteq> 0 then Some (- 1, function_code, address, quantity)
            else do {
              fc \<leftarrow> rd bytes RTU_OFFSET_FC;
              a1 \<leftarrow> rd bytes RTU_OFFSET_ADDR_HIGH;
              a0 \<leftarrow> rd bytes RTU_OFFSET_ADDR_LOW;
              let addr = push_bit 8 (ucast a1) OR ucast a0;
              if fc = MODBUS_FUNC_WRITE_SINGLE_REGISTER then Some (0, Some fc, Some addr, Some 1)
              else do {
                q1 \<leftarrow> rd bytes RTU_OFFSET_QTY_HIGH;
                q0 \<leftarrow> rd bytes RTU_OFFSET_QTY_LOW;
                Some (0, Some fc, Some addr, Some (push_bit 8 (ucast q1) OR ucast q0)) } } })"

definition mb_rtu_build_read_registers_response ::
    "u8 \<Rightarrow> u8 \<Rightarrow> u16 list option \<Rightarrow> u16 \<Rightarrow> u8 list option \<Rightarrow> nat \<Rightarrow> (c_int \<times> u8 list option) option" where
  "mb_rtu_build_read_registers_response function_code unit_id data quantity response response_cap =
     (case (response, data) of
        (Some resp, Some data) \<Rightarrow>
          if unat quantity > MODBUS_MAX_READ_REGISTERS then Some (- 1, response)
          else do {
            let total_len = RTU_READ_RESPONSE_BASE + unat quantity * 2;
            if response_cap < total_len \<or> total_len > MODBUS_RTU_MAX_ADU_LENGTH then Some (- 1, response)
            else do {
              resp \<leftarrow> wr resp RTU_OFFSET_UNIT_ID unit_id;
              resp \<leftarrow> wr resp RTU_OFFSET_FC function_code;
              resp \<leftarrow> wr resp 2 (of_nat (unat quantity * 2));
              resp \<leftarrow> for_upto (unat quantity) (\<lambda>i resp. do {
                let offset = 3 + i * 2;
                v \<leftarrow> rd data i;
                resp \<leftarrow> wr resp offset (ucast (drop_bit 8 v));
                wr resp (offset + 1) (ucast (v AND 0xFF)) }) resp;
              (rc, resp) \<leftarrow> mb_rtu_append_crc (Some resp) (total_len - MODBUS_RTU_CRC_LEN) response_cap;
              Some (if rc \<noteq> 0 then (- 1, resp) else (int total_len, resp)) } }
      | _ \<Rightarrow> Some (- 1, response))"

section \<open>The checksum as a shift register\<close>

definition crc_feed :: "u16 \<Rightarrow> bool \<Rightarrow> u16" where
  "crc_feed c x = crc_step (c XOR of_bool x)"

definition bits_of :: "u8 \<Rightarrow> bool list" where
  "bits_of b = map (bit b) [0..<8]"

definition frame_bits :: "u8 list \<Rightarrow> bool list" where
  "frame_bits bs = concat (map bits_of bs)"

definition crc_of :: "u8 list \<Rightarrow> u16" where
  "crc_of bs = foldl crc_feed 0xFFFF (frame_bits bs)"

definition crc_bytes :: "u16 \<Rightarrow> u8 list" where
  "crc_bytes c = [ucast (c AND 0xFF), ucast (drop_bit 8 c)]"

definition rtu_adu :: "u8 list \<Rightarrow> u8 list" where
  "rtu_adu bs = bs @ crc_bytes (crc_of bs)"

lemma and_1_iff_bit: "c AND 1 \<noteq> 0 \<longleftrightarrow> bit c 0" for c :: u16
  by (simp add: and_one_eq bit_0 mod_2_eq_odd)

lemma crc_step_alt: "crc_step c = drop_bit 1 c XOR (if bit c 0 then 0xA001 else 0)"
  using and_1_iff_bit[of c] by (auto simp: crc_step_def)

lemma crc_step_0 [simp]: "crc_step 0 = 0"
  by (simp add: crc_step_def)

lemma xor_eq_0_word: "x XOR y = 0 \<longleftrightarrow> x = y" for x y :: u16
  by (metis xor.assoc xor.left_neutral xor_self_eq)

lemma xor_cancel_word:
  fixes x y z :: u16
  shows "x XOR z = y XOR z \<longleftrightarrow> x = y" and "z XOR x = z XOR y \<longleftrightarrow> x = y"
proof -
  show "x XOR z = y XOR z \<longleftrightarrow> x = y" for x y
  proof
    assume "x XOR z = y XOR z"
    then have "(x XOR z) XOR z = (y XOR z) XOR z" by simp
    then show "x = y" by (simp only: xor.assoc xor_self_eq xor.right_neutral)
  qed simp
  then show "z XOR x = z XOR y \<longleftrightarrow> x = y" by (simp only: xor.commute[of z])
qed

lemma crc_step_xor: "crc_step (x XOR y) = crc_step x XOR crc_step y"
  by (simp add: crc_step_alt bit_xor_iff drop_bit_xor ac_simps xor.left_commute)

text \<open>The top bit of the polynomial is set, so the step loses nothing.\<close>

lemma bit_15_crc_step: "bit (crc_step c) 15 \<longleftrightarrow> bit c 0"
  using bit_imp_le_length[of c 16] by (auto simp: crc_step_alt bit_xor_iff bit_drop_bit_eq)

lemma crc_step_eq_0_iff [simp]: "crc_step z = 0 \<longleftrightarrow> z = 0"
proof
  assume z: "crc_step z = 0"
  then have b0: "\<not> bit z 0" using bit_15_crc_step[of z] by simp
  with z have d: "drop_bit 1 z = 0" by (simp add: crc_step_alt)
  show "z = 0"
  proof (rule bit_word_eqI)
    fix n :: nat assume "n < LENGTH(16)"
    show "bit z n \<longleftrightarrow> bit (0 :: u16) n"
      using b0 arg_cong[OF d, of "\<lambda>w. bit w (n - 1)"] by (cases n) (auto simp: bit_drop_bit_eq)
  qed
qed simp

lemma crc_step_inject [simp]: "crc_step x = crc_step y \<longleftrightarrow> x = y"
  using crc_step_eq_0_iff[of "x XOR y"] by (simp only: crc_step_xor xor_eq_0_word)

lemma crc_steps_inject [simp]: "(crc_step ^^ n) x = (crc_step ^^ n) y \<longleftrightarrow> x = y"
  by (induction n) auto

lemma crc_steps_eq_0_iff [simp]: "(crc_step ^^ n) z = 0 \<longleftrightarrow> z = 0"
  by (induction n) auto

lemma crc_step_double:
  assumes "\<not> bit h 15"
  shows "crc_step (2 * h) = h"
proof -
  have "drop_bit 1 (2 * h) = h"
  proof (rule bit_word_eqI)
    fix n :: nat assume "n < LENGTH(16)"
    then show "bit (drop_bit 1 (2 * h)) n = bit h n"
      using assms by (cases "n = 15") (auto simp: bit_drop_bit_eq bit_double_iff)
  qed
  then show ?thesis by (simp add: crc_step_alt bit_double_iff del: drop_bit_Suc)
qed

text \<open>Up to sixteen bits can be added to the register at once.\<close>

lemma horner_Cons: "horner_sum of_bool 2 (x # xs) = (of_bool x :: u16) XOR 2 * horner_sum of_bool 2 xs"
  by (cases x) (simp_all add: one_xor_eq)

lemma crc_feed_window:
  "length xs \<le> 16 \<Longrightarrow>
   foldl crc_feed c xs = (crc_step ^^ length xs) (c XOR horner_sum of_bool 2 xs)"
proof (induction xs arbitrary: c)
  case Nil
  then show ?case by simp
next
  case (Cons x xs)
  let ?h = "horner_sum of_bool 2 xs :: u16"
  have "\<not> bit ?h 15" using Cons.prems by (simp add: bit_horner_sum_bit_iff)
  from crc_step_double[OF this]
  have "crc_step (c XOR horner_sum of_bool 2 (x # xs)) = crc_feed c x XOR ?h"
    unfolding crc_feed_def horner_Cons
    by (simp only: xor.assoc[symmetric] crc_step_xor[of "c XOR of_bool x"])
  then show ?case using Cons by (simp add: funpow_Suc_right del: funpow.simps horner_sum_simps)
qed

lemma crc_feed_inject: "foldl crc_feed r xs = foldl crc_feed s xs \<longleftrightarrow> r = s"
  by (induction xs arbitrary: r s) (auto simp: crc_feed_def xor_cancel_word)

lemma horner_inject:
  assumes "length xs = length ys" and "length xs \<le> 16"
    and "horner_sum of_bool 2 xs = (horner_sum of_bool 2 ys :: u16)"
  shows "xs = ys"
proof (rule nth_equalityI)
  fix i assume "i < length xs"
  then show "xs ! i = ys ! i"
    using assms(1,2) arg_cong[OF assms(3), of "\<lambda>w. bit w i"] by (simp add: bit_horner_sum_bit_iff)
qed fact

lemma length_bits_of [simp]: "length (bits_of b) = 8"
  by (simp add: bits_of_def)

lemma frame_bits_simps [simp]: "frame_bits [] = []" "frame_bits (b # bs) = bits_of b @ frame_bits bs"
  "frame_bits (as @ bs) = frame_bits as @ frame_bits bs"
  by (simp_all add: frame_bits_def)

lemma length_frame_bits [simp]: "length (frame_bits bs) = 8 * length bs"
  by (induction bs) auto

lemma horner_bits_of: "horner_sum of_bool 2 (bits_of b) = (ucast b :: u16)"
  by (rule bit_word_eqI) (use bit_imp_le_length[of b] in \<open>force simp: bits_of_def bit_horner_sum_bit_iff bit_simps\<close>)

lemma horner_two_bytes:
  "horner_sum of_bool 2 (bits_of lo @ bits_of hi) = (ucast lo :: u16) OR push_bit 8 (ucast hi)"
  by (rule bit_word_eqI)
     (auto simp: bits_of_def bit_horner_sum_bit_iff bit_simps nth_append dest: bit_imp_le_length)

lemma bits_of_inject: "bits_of a = bits_of b \<Longrightarrow> a = b"
  by (rule bit_word_eqI) (simp add: bits_of_def)

lemma frame_bits_inject: "length as = length bs \<Longrightarrow> frame_bits as = frame_bits bs \<Longrightarrow> as = bs"
  by (induction as bs rule: list_induct2) (auto dest: bits_of_inject)

lemma crc_loop: "for_upto n (\<lambda>_ c. Some (crc_step c)) c = Some ((crc_step ^^ n) c)"
  by (induction n) auto

lemma crc16_crc_of:
  assumes "n \<le> length data"
  shows "mb_rtu_crc16 (Some data) n = Some (crc_of (take n data))"
proof -
  have "(crc_step ^^ 8) (c XOR ucast b) = foldl crc_feed c (bits_of b)" for c b
    using crc_feed_window[of "bits_of b" c] by (simp add: horner_bits_of)
  then have "for_upto n (\<lambda>i crc. do { d \<leftarrow> rd data i; let crc = crc XOR ucast d;
        for_upto 8 (\<lambda>bit crc. Some (crc_step crc)) crc }) 0xFFFF = Some (crc_of (take n data))"
    using assms
    by (intro for_upto_eq[where g = "\<lambda>i. crc_of (take i data)"])
       (auto simp: crc_of_def crc_loop rd_def take_Suc_conv_app_nth)
  then show ?thesis by (simp add: mb_rtu_crc16_def)
qed

lemma crc_of_two_bytes: "crc_of (bs @ [lo, hi]) = (crc_step ^^ 16) (crc_of bs XOR (ucast lo OR push_bit 8 (ucast hi)))"
  using crc_feed_window[of "bits_of lo @ bits_of hi" "crc_of bs"]
  by (simp add: crc_of_def horner_two_bytes)

lemma crc_of_residue: "crc_of (bs @ [lo, hi]) = 0 \<longleftrightarrow> crc_of bs = ucast lo OR push_bit 8 (ucast hi)"
  unfolding crc_of_two_bytes by (simp add: xor_eq_0_word)

lemma crc_bytes_word: "ucast (ucast (c AND 0xFF) :: u8) OR push_bit 8 (ucast (ucast (drop_bit 8 c) :: u8)) = (c :: u16)"
  unfolding mask8_u16 by (rule bit_word_eqI) (auto simp: bit_simps)

lemma length_crc_bytes [simp]: "length (crc_bytes c) = 2"
  by (simp add: crc_bytes_def)

lemma length_rtu_adu [simp]: "length (rtu_adu bs) = length bs + 2"
  by (simp add: rtu_adu_def)

lemma crc_of_rtu_adu: "crc_of (rtu_adu bs) = 0"
  unfolding rtu_adu_def crc_bytes_def crc_of_residue by (simp only: crc_bytes_word)

lemma snoc2: "2 \<le> length xs \<Longrightarrow> xs = take (length xs - 2) xs @ [xs ! (length xs - 2), xs ! (length xs - 1)]"
  using Cons_nth_drop_Suc[of "length xs - 2" xs] Cons_nth_drop_Suc[of "length xs - 1" xs]
    append_take_drop_id[of "length xs - 2" xs]
  by (simp add: Suc_diff_le numeral_2_eq_2 Suc_diff_Suc)

lemma crc_bytes_of_word: "crc_bytes (ucast lo OR push_bit 8 (ucast hi)) = [lo, hi]"
proof -
  have "ucast ((ucast lo OR push_bit 8 (ucast hi) :: u16) AND 0xFF) = lo"
    unfolding mask8_u16 by (rule bit_word_eqI) (auto simp: bit_simps)
  moreover have "ucast (drop_bit 8 (ucast lo OR push_bit 8 (ucast hi) :: u16)) = hi"
    by (rule bit_word_eqI) (auto simp: bit_simps dest: bit_imp_le_length)
  ultimately show ?thesis by (simp add: crc_bytes_def)
qed

lemma valid_frame_adu:
  assumes "crc_of f = 0" and "2 \<le> length f"
  shows "f = rtu_adu (take (length f - 2) f)"
proof -
  let ?p = "take (length f - 2) f" and ?lo = "f ! (length f - 2)" and ?hi = "f ! (length f - 1)"
  have f: "f = ?p @ [?lo, ?hi]" using snoc2[OF assms(2)] .
  have "crc_of (?p @ [?lo, ?hi]) = 0" using assms(1) f by simp
  then have "crc_bytes (crc_of ?p) = [?lo, ?hi]" by (simp only: crc_of_residue crc_bytes_of_word)
  with f show ?thesis by (simp add: rtu_adu_def)
qed

lemma rtu_adu_inject [simp]: "rtu_adu a = rtu_adu b \<longleftrightarrow> a = b"
proof
  assume e: "rtu_adu a = rtu_adu b"
  then have "length a = length b" by (metis add_right_cancel length_rtu_adu)
  with e show "a = b" by (simp add: rtu_adu_def)
qed simp

lemma validate_crc_residue:
  assumes "2 \<le> n" and "n \<le> length frame"
  shows "mb_rtu_validate_crc (Some frame) n = Some (if crc_of (take n frame) = 0 then 0 else - 1)"
proof -
  have n: "length (take n frame) = n" using assms by simp
  have "take n frame = take (n - 2) frame @ [frame ! (n - 2), frame ! (n - 1)]"
    using snoc2[of "take n frame"] assms n by simp
  then have "crc_of (take n frame) = 0 \<longleftrightarrow>
      crc_of (take (n - 2) frame) = ucast (frame ! (n - 2)) OR push_bit 8 (ucast (frame ! (n - 1)))"
    by (simp only: crc_of_residue)
  moreover have "n - 2 + 1 = n - 1" using assms by simp
  ultimately show ?thesis using assms
    by (simp add: mb_rtu_validate_crc_def crc16_crc_of rd_def Let_def)
qed

lemma append_crc_adu:
  assumes "n + 2 \<le> cap" and "cap \<le> length frame" and "cap < 2 ^ 64"
  shows "mb_rtu_append_crc (Some frame) n cap = Some (0, Some (blit frame n (crc_bytes (crc_of (take n frame)))))"
  using assms by (simp add: mb_rtu_append_crc_def crc16_crc_of crc_bytes_def buf_simps)

section \<open>Parity of valid frames\<close>

definition odd_ones :: "u16 \<Rightarrow> bool" where
  "odd_ones c \<longleftrightarrow> odd (length (filter (bit c) [0..<16]))"

lemma odd_filter_xor:
  "odd (length (filter (\<lambda>i. P i \<noteq> Q i) xs)) \<longleftrightarrow> odd (length (filter P xs)) \<noteq> odd (length (filter Q xs))"
  by (induction xs) auto

lemma odd_ones_xor: "odd_ones (x XOR y) \<longleftrightarrow> odd_ones x \<noteq> odd_ones y"
  unfolding odd_ones_def bit_xor_iff by (rule odd_filter_xor)

lemma odd_ones_drop: "odd_ones (drop_bit 1 c) \<longleftrightarrow> odd_ones c \<noteq> bit c 0"
proof -
  have b16: "\<not> bit c 16" using bit_imp_le_length[of c 16] by auto
  have "length (filter (\<lambda>i. bit c (Suc i)) [0..<16]) = length (filter (bit c) (map Suc [0..<16]))"
    by (simp add: filter_map comp_def)
  also have "map Suc [0..<16] = [1..<16] @ [16]"
    using upt_Suc_append[of 1 16] by (simp add: map_Suc_upt)
  finally have "length (filter (bit (drop_bit 1 c)) [0..<16]) = length (filter (bit c) [1..<16])"
    using b16 by (simp add: bit_drop_bit_eq comp_def)
  moreover have "[0..<16] = 0 # [1..<16]" by (simp add: upt_conv_Cons)
  ultimately show ?thesis by (auto simp: odd_ones_def)
qed

lemma odd_ones_consts: "odd_ones 0xA001" "\<not> odd_ones 0" "\<not> odd_ones 0xFFFF" "odd_ones 1"
  by code_simp+

lemma odd_ones_step: "odd_ones (crc_step c) \<longleftrightarrow> odd_ones c"
  using odd_ones_drop[of c] odd_ones_consts by (auto simp: crc_step_alt odd_ones_xor)

lemma odd_ones_of_bool: "odd_ones (of_bool x) \<longleftrightarrow> x"
  using odd_ones_consts by (cases x) simp_all

lemma odd_ones_feed: "odd_ones (foldl crc_feed c xs) \<longleftrightarrow> odd_ones c \<noteq> odd (length (filter id xs))"
  by (induction xs arbitrary: c) (auto simp: crc_feed_def odd_ones_step odd_ones_xor odd_ones_of_bool)

lemma crc_of_even:
  assumes "crc_of bs = 0"
  shows "even (length (filter id (frame_bits bs)))"
  using odd_ones_feed[of "0xFFFF" "frame_bits bs"] assms odd_ones_consts by (simp add: crc_of_def)

section \<open>Builders produce framed PDUs\<close>

lemma append_crc_frame:
  assumes "length bs = n" and "n + 2 \<le> cap" and "cap \<le> length b" and "cap < 2 ^ 64"
  shows "mb_rtu_append_crc (Some (blit b 0 bs)) n cap = Some (0, Some (blit b 0 (rtu_adu bs)))"
  using assms by (simp add: append_crc_adu blit_append rtu_adu_def)

lemma build_request_basis_adu:
  assumes "8 \<le> cap" and "cap \<le> length req" and "cap < 2 ^ 64"
    and "0 \<le> func" "func \<le> 255" "0 \<le> addr" "addr \<le> 65535"
  shows "mb_rtu_build_request_basis unit_id func addr nb (Some req) cap =
    Some (8, Some (blit req 0 (rtu_adu (unit_id # read_req (word_of_int func) (word_of_int addr) nb))))"
proof -
  let ?bs = "unit_id # read_req (word_of_int func) (word_of_int addr) nb"
  have bytes: "?bs = [unit_id, word_of_int func, ucast (drop_bit 8 (word_of_int addr :: u32)),
      ucast ((word_of_int addr :: u32) AND 0xFF), ucast (drop_bit 8 nb), ucast (nb AND 0xFF)]"
    by (simp add: read_req_def be16_def be16_of_u32)
  have "mb_rtu_append_crc (Some (blit req 0 ?bs)) 6 cap = Some (0, Some (blit req 0 (rtu_adu ?bs)))"
    using assms(1-3) by (intro append_crc_frame) simp_all
  then show ?thesis using assms
    by (simp add: mb_rtu_build_request_basis_def buf_simps bytes[symmetric])
qed

lemma build_fc16_adu:
  assumes n: "1 \<le> unat n" "unat n \<le> 123" and "unat n \<le> length vals"
    and cap: "9 + 2 * unat n \<le> cap" "cap \<le> length req" "cap < 2 ^ 64"
  shows "mb_rtu_build_fc16_request unit_id addr n (Some vals) (Some req) cap =
    Some (9 + 2 * int (unat n), Some (blit req 0 (rtu_adu (unit_id # write_regs_req addr (take (unat n) vals)))))"
proof -
  let ?bs = "unit_id # write_regs_req addr (take (unat n) vals)"
  have len: "length (take (unat n) vals) = unat n" using assms by simp
  have bc: "unat (of_nat (unat n * 2) :: u8) = unat n * 2" using n by (intro unat_of_nat_u8) simp
  have qty: "n \<noteq> 0" using n by auto
  have bytes: "?bs = unit_id # 16 # ucast (drop_bit 8 addr) # ucast (addr AND 0xFF) # ucast (drop_bit 8 n) #
      ucast (n AND 0xFF) # of_nat (unat n * 2) # be16s (take (unat n) vals)"
    using len by (simp add: write_regs_req_def read_req_def be16_def mult.commute)
  have "mb_rtu_append_crc (Some (blit req 0 ?bs)) (7 + 2 * unat n) cap = Some (0, Some (blit req 0 (rtu_adu ?bs)))"
    using cap len by (intro append_crc_frame) simp_all
  then show ?thesis using assms bc qty
    by (simp add: mb_rtu_build_fc16_request_def Let_def buf_simps put_words_loop bytes[symmetric]
        mult.commute del: of_nat_mult) (simp add: mult.commute)
qed

lemma build_read_response_adu:
  assumes "unat n \<le> 125" and "unat n \<le> length data"
    and cap: "5 + 2 * unat n \<le> cap" "cap \<le> length resp" "cap < 2 ^ 64"
  shows "mb_rtu_build_read_registers_response fc unit_id (Some data) n (Some resp) cap =
    Some (5 + 2 * int (unat n), Some (blit resp 0 (rtu_adu (unit_id # reply_pdu (RegsReply fc (take (unat n) data))))))"
proof -
  let ?bs = "unit_id # reply_pdu (RegsReply fc (take (unat n) data))"
  have len: "length (take (unat n) data) = unat n" using assms by simp
  have bytes: "?bs = unit_id # fc # of_nat (unat n * 2) # be16s (take (unat n) data)"
    using len by (simp add: mult.commute)
  have "mb_rtu_append_crc (Some (blit resp 0 ?bs)) (3 + 2 * unat n) cap = Some (0, Some (blit resp 0 (rtu_adu ?bs)))"
    using cap len by (intro append_crc_frame) simp_all
  then show ?thesis using assms
    by (simp add: mb_rtu_build_read_registers_response_def Let_def buf_simps put_words_loop
        bytes[symmetric] mult.commute del: of_nat_mult reply_pdu.simps) simp
qed

lemma parse_request_adu:
  assumes adu_def: "adu = rtu_adu (unit_id # read_req fc addr qty @ body)"
  shows "mb_rtu_parse_request (Some (adu @ rest)) (length adu) (Some x) (Some y) (Some z) =
    Some (0, Some fc, Some addr, Some (if fc = 6 then 1 else qty))"
proof -
  obtain a1 a0 where a: "be16 addr = [a1, a0]" "of_be16 a1 a0 = addr" by (simp add: be16_def)
  obtain q1 q0 where q: "be16 qty = [q1, q0]" "of_be16 q1 q0 = qty" by (simp add: be16_def)
  obtain crc where adu: "adu = unit_id # fc # a1 # a0 # q1 # q0 # body @ crc" and "length crc = 2"
    by (simp add: adu_def rtu_adu_def read_req_def a q)
  moreover have "mb_rtu_validate_crc (Some (adu @ rest)) (length adu) = Some 0"
    using crc_of_rtu_adu by (subst validate_crc_residue) (simp_all add: adu_def)
  ultimately show ?thesis
    using a(2) q(2) by (simp add: mb_rtu_parse_request_def of_be16_def adu)
qed

end
