(* ===== verification/Rtu_Frame_Properties.thy ===== *)
theory Rtu_Frame_Properties
  imports Rtu_Frame Pdu_Client
begin

text \<open>
  The properties of RTU framing (\<^verbatim>\<open>src/src/modbus_rtu.c\<close>): what the checksum accepts and which
  transmission errors it detects, the length of the silent interval, and that the builders of
  frames are the PDU builders between a unit identifier and a checksum.
\<close>

section \<open>Checksum\<close>

text \<open>
  C7. Appending the checksum changes the two bytes behind the payload only, and the frame with
  its checksum validates, for every payload that fits the buffer.
\<close>

theorem append_crc_validates:
  assumes "n + 2 \<le> cap" and "cap \<le> length frame" and "cap < 2 ^ 64"
  shows "\<exists>frame'. mb_rtu_append_crc (Some frame) n cap = Some (0, Some frame') \<and>
    length frame' = length frame \<and> take n frame' = take n frame \<and> drop (n + 2) frame' = drop (n + 2) frame \<and>
    mb_rtu_validate_crc (Some frame') (n + 2) = Some 0"
proof -
  let ?f = "blit frame n (crc_bytes (crc_of (take n frame)))"
  have "take (n + 2) ?f = rtu_adu (take n frame)"
    using assms by (simp add: rtu_adu_def)
  then have "mb_rtu_validate_crc (Some ?f) (n + 2) = Some 0"
    using assms crc_of_rtu_adu by (subst validate_crc_residue) simp_all
  then show ?thesis using append_crc_adu[OF assms] assms
    by (intro exI[of _ ?f]) (simp add: blit_def)
qed

theorem append_crc_validates_witness:
  "\<exists>frame'. mb_rtu_append_crc (Some [1, 3, 0, 0, 0, 1, 0, 0]) 6 8 = Some (0, Some frame') \<and>
    length frame' = 8 \<and> take 6 frame' = [1, 3, 0, 0, 0, 1] \<and> drop 8 frame' = [] \<and>
    mb_rtu_validate_crc (Some frame') 8 = Some 0"
  using append_crc_validates[of 6 8 "[1, 3, 0, 0, 0, 1, 0, 0]"] by auto

text \<open>
  C5. The checksum detects every burst of at most 16 wrong bits: two frames of the same length
  that both validate and whose bits, in the order of transmission, agree outside a window of 16
  bits are equal.
\<close>

theorem crc_detects_bursts:
  assumes "mb_rtu_validate_crc (Some f) (length f) = Some 0" and "mb_rtu_validate_crc (Some g) (length g) = Some 0"
    and "length f = length g"
    and "take k (frame_bits f) = take k (frame_bits g)"
    and "drop (k + 16) (frame_bits f) = drop (k + 16) (frame_bits g)"
  shows "f = g"
proof -
  have long: "2 \<le> length f" using assms(1) by (rule contrapos_pp) (simp add: mb_rtu_validate_crc_def)
  then have z: "crc_of f = 0" "crc_of g = 0"
    using assms(1-3) validate_crc_residue[of "length f" f] validate_crc_residue[of "length g" g]
    by (auto split: if_splits)
  define a where "a = take k (frame_bits f)"
  define w where "w = (\<lambda>x. take 16 (drop k (frame_bits x)))"
  define c where "c = drop (k + 16) (frame_bits f)"
  have split: "frame_bits x = take k (frame_bits x) @ w x @ drop (k + 16) (frame_bits x)" for x
    unfolding w_def by (metis append_take_drop_id drop_drop add.commute)
  have len: "length (w f) = length (w g)" "length (w x) \<le> 16" for x
    using assms(3) by (simp_all add: w_def)
  have "foldl crc_feed (foldl crc_feed (foldl crc_feed 0xFFFF a) (w x)) c = 0" if "x \<in> {f, g}" for x
  proof -
    have "frame_bits x = a @ w x @ c" using that split[of x] assms(4,5) by (auto simp: a_def c_def)
    then show ?thesis using that z by (auto simp: crc_of_def)
  qed
  from this[of f] this[of g]
  have "foldl crc_feed (foldl crc_feed 0xFFFF a) (w f) = foldl crc_feed (foldl crc_feed 0xFFFF a) (w g)"
    using crc_feed_inject[of "foldl crc_feed (foldl crc_feed 0xFFFF a) (w f)" c
        "foldl crc_feed (foldl crc_feed 0xFFFF a) (w g)"] by simp
  then have "horner_sum of_bool 2 (w f) = (horner_sum of_bool 2 (w g) :: u16)"
    using len crc_feed_window[of "w f"] crc_feed_window[of "w g"] by (simp add: xor_cancel_word)
  then have "w f = w g" using horner_inject len by blast
  then show ?thesis using split[of f] split[of g] assms(3-5) frame_bits_inject by metis
qed

lemma valid_adu: "mb_rtu_validate_crc (Some (rtu_adu bs)) (length (rtu_adu bs)) = Some 0"
  by (subst validate_crc_residue) (simp_all add: crc_of_rtu_adu)

theorem crc_detects_bursts_witness:
  "rtu_adu [1, 3] = rtu_adu [1, 3] \<and> mb_rtu_validate_crc (Some (rtu_adu [1, 3])) 4 = Some 0"
  using crc_detects_bursts[of "rtu_adu [1, 3]" "rtu_adu [1, 3]" 0] valid_adu[of "[1, 3]"] by simp

text \<open>
  C6. The checksum detects every odd number of wrong bits: two frames of the same length that
  both validate differ in an even number of bits.
\<close>

theorem crc_detects_odd_errors:
  assumes "mb_rtu_validate_crc (Some f) n = Some 0" and "mb_rtu_validate_crc (Some g) n = Some 0"
    and "length f = n" and "length g = n"
  shows "even (length (filter (\<lambda>i. frame_bits f ! i \<noteq> frame_bits g ! i) [0..<8 * n]))"
proof -
  have ones: "length (filter id xs) = length (filter (\<lambda>i. xs ! i) [0..<length xs])" for xs
    using filter_map[of id "\<lambda>i. xs ! i" "[0..<length xs]"] by (simp add: map_nth comp_def)
  have "2 \<le> n" using assms(1) by (rule contrapos_pp) (simp add: mb_rtu_validate_crc_def)
  then have "crc_of f = 0" "crc_of g = 0"
    using assms validate_crc_residue[of n f] validate_crc_residue[of n g] by (auto split: if_splits)
  then have "even (length (filter (\<lambda>i. frame_bits f ! i) [0..<8 * n]))"
    "even (length (filter (\<lambda>i. frame_bits g ! i) [0..<8 * n]))"
    using crc_of_even[of f] crc_of_even[of g] assms(3,4) by (simp_all add: ones)
  then show ?thesis
    using odd_filter_xor[of "\<lambda>i. frame_bits f ! i" "\<lambda>i. frame_bits g ! i" "[0..<8 * n]"] by blast
qed

theorem crc_detects_odd_errors_witness:
  "even (length (filter (\<lambda>i. frame_bits (rtu_adu [1, 3]) ! i \<noteq> frame_bits (rtu_adu [1, 4]) ! i) [0..<8 * 4]))"
  using valid_adu[of "[1, 3]"] valid_adu[of "[1, 4]"] by (intro crc_detects_odd_errors) simp_all

text \<open>
  The bounds check of \<^const>\<open>mb_rtu_append_crc\<close> adds to the payload length before it
  compares, so a length within two of the largest \<open>size_t\<close> wraps around, passes the check for
  any capacity and runs outside the buffer.
\<close>

theorem append_crc_length_wraps:
  "length frame < 2 ^ 64 - 2 \<Longrightarrow> mb_rtu_append_crc (Some frame) (2 ^ 64 - 2) cap = None"
proof -
  have read: "rd frame i = None \<Longrightarrow> i < n \<Longrightarrow> mb_rtu_crc16 (Some frame) n = None" for i n
    by (induction n) (auto simp: mb_rtu_crc16_def less_Suc_eq)
  assume "length frame < 2 ^ 64 - 2"
  then have "mb_rtu_crc16 (Some frame) (2 ^ 64 - 2) = None"
    by (intro read[of "length frame"]) (simp_all add: rd_def)
  then show ?thesis by (simp add: mb_rtu_append_crc_def)
qed

theorem append_crc_length_wraps_witness:
  "mb_rtu_append_crc (Some (replicate 256 0)) (2 ^ 64 - 2) 256 = None"
  by (rule append_crc_length_wraps) simp

section \<open>Timing\<close>

definition t35_char_bits :: "mb_rtu_serial_config \<Rightarrow> nat" where
  "t35_char_bits s = 1 + unat (effective_data_bits (data_bits s)) + unat (effective_stop_bits (stop_bits s)) +
     (if parity s \<noteq> 0 then 1 else 0)"

lemma ceiling_div:
  fixes b x :: nat
  assumes "0 < b" and "1 \<le> x"
  shows "x * 3500000 \<le> (x * 3500000 + b - 1) div b * b \<and>
    ((x * 3500000 + b - 1) div b - 1) * b < x * 3500000 \<and> 0 < (x * 3500000 + b - 1) div b"
proof -
  define n where "n = x * 3500000 + b - 1"
  have n: "n = x * 3500000 + b - 1" "b \<le> n" using assms by (auto simp: n_def)
  have "n div b * b + n mod b = n" "n mod b < b" using assms(1) by simp_all
  moreover have "0 < n div b" using n(2) assms(1) by (simp add: div_greater_zero_iff)
  moreover have "(n div b - 1) * b = n div b * b - b" by (simp add: diff_mult_distrib)
  ultimately show ?thesis unfolding n_def[symmetric] using n(1) assms by linarith
qed

text \<open>
  The silent interval is exact: for a baud rate up to 19200 it is the least number of
  microseconds not shorter than three and a half characters at that rate, for every
  configuration of the line, with no overflow in between; above 19200 it is 1750 microseconds.
\<close>

theorem t35_exact:
  "let baud = (if baud_rate s = 0 then 9600 else unat (baud_rate s)); t = unat (mb_rtu_t35_us (Some s))
   in if baud > 19200 then t = 1750
      else t35_char_bits s * 3500000 \<le> t * baud \<and> (t - 1) * baud < t35_char_bits s * 3500000 \<and> 0 < t"
proof -
  define baud :: u32 where "baud = (if baud_rate s = 0 then 9600 else baud_rate s)"
  have baud: "0 < unat baud" by (auto simp: baud_def unat_gt_0)
  define bits where "bits = t35_char_bits s"
  have small: "unat (effective_data_bits (data_bits s)) < 256" "unat (effective_stop_bits (stop_bits s)) < 256"
    by (rule unat_u8_less)+
  then have bits: "1 \<le> bits" "bits \<le> 512" by (auto simp: bits_def t35_char_bits_def)
  have char: "(1 :: u32) + ucast (effective_data_bits (data_bits s)) + ucast (effective_stop_bits (stop_bits s)) +
      (if parity s \<noteq> 0 then 1 else 0) = of_nat bits"
    by (simp add: bits_def t35_char_bits_def)
  show ?thesis
  proof (cases "baud > 19200")
    case True
    then have "unat baud > 19200" by (simp add: word_less_nat_alt)
    then show ?thesis using True by (simp add: mb_rtu_t35_us_def baud_def Let_def split: if_splits)
  next
    case False
    then have le: "unat baud \<le> 19200" by (simp add: word_less_nat_alt)
    define N where "N = bits * 3500000 + unat baud - 1"
    have "(ucast (of_nat bits :: u32) :: u64) = of_nat bits" "(ucast baud :: u64) = of_nat (unat baud)"
      using bits by (simp_all add: unsigned_of_nat take_bit_eq_mod)
    then have num: "(ucast (of_nat bits :: u32) :: u64) * 3500000 + ucast baud - 1 = of_nat N"
      using bits by (simp add: N_def of_nat_diff)
    have N: "N < 2 ^ 32" using bits le by (simp add: N_def)
    then have "unat (of_nat N :: u64) = N" by (simp add: unat_of_nat)
    moreover have "unat (ucast baud :: u64) = unat baud" using le by (simp add: unsigned_ucast_eq take_bit_eq_mod)
    moreover have "N div unat baud < 2 ^ 32" using N div_le_dividend[of N "unat baud"] by linarith
    ultimately have t: "unat (mb_rtu_t35_us (Some s)) = N div unat baud"
      using False char num
      by (simp add: mb_rtu_t35_us_def baud_def[symmetric] Let_def unsigned_ucast_eq take_bit_eq_mod unat_div)
    have "(if baud_rate s = 0 then 9600 else unat (baud_rate s)) = unat baud" by (simp add: baud_def)
    then show ?thesis using ceiling_div[OF baud bits(1)] le
      unfolding t N_def Let_def by (simp add: bits_def[symmetric])
  qed
qed

section \<open>Frames\<close>

lemma blit_adu_append:
  "length bs + 2 \<le> length b \<Longrightarrow> blit b 0 (rtu_adu bs) = rtu_adu bs @ drop (length bs + 2) b"
  by (simp add: blit_def)

lemma take_blit_adu: "n = length bs \<Longrightarrow> take n (blit b 0 (rtu_adu bs)) = bs"
  by (simp add: blit_def rtu_adu_def)

text \<open>
  C8. A request built by \<^const>\<open>mb_rtu_build_request_basis\<close> parses back: for every function code
  and address in range the parser returns them and the quantity, which it reports as 1 for the
  write of a single register; a function code or an address out of range is rejected and leaves
  the buffer alone.
\<close>

theorem rtu_request_roundtrip:
  assumes "8 \<le> cap" and "cap \<le> length req" and "cap < 2 ^ 64"
  shows "do { (n, frame) \<leftarrow> mb_rtu_build_request_basis unit_id func addr nb (Some req) cap;
              if n < 0 then Some (n, frame, None)
              else do { res \<leftarrow> mb_rtu_parse_request frame (nat n) (Some 0) (Some 0) (Some 0);
                        Some (n, frame, Some res) } } =
    (if 0 \<le> func \<and> func \<le> 255 \<and> 0 \<le> addr \<and> addr \<le> 65535
     then Some (8, Some (rtu_adu (unit_id # read_req (word_of_int func) (word_of_int addr) nb) @ drop 8 req),
       Some (0, Some (word_of_int func), Some (word_of_int addr), Some (if func = 6 then 1 else nb)))
     else Some (- 1, Some req, None))"
proof (cases "0 \<le> func \<and> func \<le> 255 \<and> 0 \<le> addr \<and> addr \<le> 65535")
  case True
  let ?bs = "unit_id # read_req (word_of_int func) (word_of_int addr) nb"
  have "(word_of_int func :: u8) = 6 \<longleftrightarrow> func = 6"
    using True by (auto simp: word_uint_eq_iff uint_word_of_int)
  then show ?thesis
    using True build_request_basis_adu[OF assms, of func addr unit_id nb] assms
      parse_request_adu[of "rtu_adu ?bs" unit_id "word_of_int func" "word_of_int addr" nb "[]" "drop 8 req" 0 0 0]
    by (simp add: blit_adu_append)
next
  case False
  then show ?thesis using assms by (auto simp: mb_rtu_build_request_basis_def)
qed

theorem rtu_request_roundtrip_witness:
  "do { (n, frame) \<leftarrow> mb_rtu_build_request_basis 1 3 0x10 2 (Some (replicate 256 0)) 256;
        if n < 0 then Some (n, frame, None)
        else do { res \<leftarrow> mb_rtu_parse_request frame (nat n) (Some 0) (Some 0) (Some 0);
                  Some (n, frame, Some res) } } =
     Some (8, Some (rtu_adu (1 # read_req 3 0x10 2) @ replicate 248 0), Some (0, Some 3, Some 0x10, Some 2))"
  using rtu_request_roundtrip[of 256 "replicate 256 0" 1 3 "0x10" 2] by simp

text \<open>
  The RTU builder of multiple writes agrees with the PDU layer: for 1 to 123 registers the
  frame is the unit identifier, the PDU that \<^const>\<open>mb_pdu_build_write_registers\<close> builds from the
  same arguments, and a checksum that validates.
\<close>

theorem rtu_fc16_frames_pdu:
  assumes "1 \<le> unat n" and "unat n \<le> 123" and "unat n \<le> length vals"
    and "9 + 2 * unat n \<le> cap" and "cap \<le> length req" and "cap < 2 ^ 64" and "253 \<le> length pdu"
  shows "\<exists>frame m pdu'.
    mb_rtu_build_fc16_request unit_id addr n (Some vals) (Some req) cap = Some (int (m + 3), Some frame) \<and>
    mb_pdu_build_write_registers pdu addr n vals = Some (m, pdu') \<and>
    take (m + 1) frame = unit_id # take m pdu' \<and> mb_rtu_validate_crc (Some frame) (m + 3) = Some 0"
proof -
  let ?pdu = "write_regs_req addr (take (unat n) vals)"
  let ?frame = "blit req 0 (rtu_adu (unit_id # ?pdu))"
  have frame: "take (9 + 2 * unat n) ?frame = rtu_adu (unit_id # ?pdu)" "length ?frame = length req"
    "take (7 + 2 * unat n) ?frame = unit_id # ?pdu"
    using assms by (simp, simp, simp add: take_blit_adu)
  then have "mb_rtu_validate_crc (Some ?frame) (9 + 2 * unat n) = Some 0"
    using assms crc_of_rtu_adu by (subst validate_crc_residue) simp_all
  then show ?thesis
    using build_fc16_adu[OF assms(1-6)] mb_pdu_build_write_registers_req[OF assms(3), of pdu addr] frame assms
    by (intro exI[of _ ?frame] exI[of _ "6 + 2 * unat n"] exI[of _ "blit pdu 0 ?pdu"]) simp
qed

theorem rtu_fc16_frames_pdu_witness:
  "\<exists>frame m pdu'.
    mb_rtu_build_fc16_request 1 7 2 (Some [5, 6]) (Some (replicate 256 0)) 256 = Some (int (m + 3), Some frame) \<and>
    mb_pdu_build_write_registers (replicate 253 0) 7 2 [5, 6] = Some (m, pdu') \<and>
    take (m + 1) frame = 1 # take m pdu' \<and> mb_rtu_validate_crc (Some frame) (m + 3) = Some 0"
  by (rule rtu_fc16_frames_pdu) simp_all

text \<open>
  A read response built by \<^const>\<open>mb_rtu_build_read_registers_response\<close> is what a client
  expects: for every quantity up to 125 its checksum validates, the check of responses accepts
  the PDU inside it for the matching request, and the decoder returns the registers.
\<close>

theorem rtu_read_response_accepted:
  assumes "fc \<in> {3, 4}" and "unat n \<le> 125" and "length vals = unat n" and "length out = unat n"
    and "256 \<le> length resp"
  shows "\<exists>frame. mb_rtu_build_read_registers_response fc unit_id (Some vals) n (Some resp) 256 =
      Some (5 + 2 * int (unat n), Some frame) \<and>
    mb_rtu_validate_crc (Some frame) (5 + 2 * unat n) = Some 0 \<and> frame ! 0 = unit_id \<and>
    mb_pdu_check_response (read_req fc addr n) (ptr frame 1) (2 + 2 * unat n) = Some 0 \<and>
    mb_pdu_get_registers (ptr frame 1) n out = Some vals"
proof -
  let ?r = "RegsReply fc vals"
  let ?frame = "rtu_adu (unit_id # reply_pdu ?r) @ drop (5 + 2 * unat n) resp"
  have build: "mb_rtu_build_read_registers_response fc unit_id (Some vals) n (Some resp) 256 =
      Some (5 + 2 * int (unat n), Some ?frame)"
    using build_read_response_adu[of n vals 256 resp fc unit_id] assms by (simp add: blit_adu_append)
  have valid: "mb_rtu_validate_crc (Some ?frame) (5 + 2 * unat n) = Some 0"
    using assms crc_of_rtu_adu[of "unit_id # reply_pdu ?r"]
    by (subst validate_crc_residue) (simp_all del: reply_pdu.simps add: length_rtu_adu, simp_all)
  have ptr: "ptr ?frame 1 = reply_pdu ?r @ crc_bytes (crc_of (unit_id # reply_pdu ?r)) @ drop (5 + 2 * unat n) resp"
    by (simp add: ptr_def rtu_adu_def)
  have "known_fc fc" using assms(1) by (auto simp: known_fc_def)
  from check_response_reply[OF this, of addr n ?r "[]" "crc_bytes (crc_of (unit_id # reply_pdu ?r)) @ drop (5 + 2 * unat n) resp"]
  have check: "mb_pdu_check_response (read_req fc addr n) (ptr ?frame 1) (2 + 2 * unat n) = Some 0"
    using assms unfolding ptr by (simp add: add_2_eq_Suc)
  have "mb_pdu_get_registers (ptr ?frame 1) n out = Some vals"
    using get_registers_reply[of vals n out fc] assms unfolding ptr by simp
  with build valid check show ?thesis by (intro exI[of _ ?frame]) (simp add: rtu_adu_def)
qed

theorem rtu_read_response_accepted_witness:
  "\<exists>frame. mb_rtu_build_read_registers_response 3 1 (Some [7, 8]) 2 (Some (replicate 256 0)) 256 =
      Some (9, Some frame) \<and>
    mb_rtu_validate_crc (Some frame) 9 = Some 0 \<and> frame ! 0 = 1 \<and>
    mb_pdu_check_response (read_req 3 0x20 2) (ptr frame 1) 6 = Some 0 \<and>
    mb_pdu_get_registers (ptr frame 1) 2 [0, 0] = Some [7, 8]"
  using rtu_read_response_accepted[of 3 2 "[7, 8]" "[0, 0]" "replicate 256 0" 1 "0x20"] by simp

end
