(* ===== verification/Tcp_Frame.thy ===== *)
theory Tcp_Frame
  imports Pdu_Server
begin

text \<open>
  TCP framing, from \<^verbatim>\<open>src/src/modbus_tcp.c\<close>: the transport context with its transaction
  counter, the builders of requests and responses and the parser of requests. A pointer the code
  compares with a null pointer is an optional value. The lock around the transaction counter has
  no counterpart: taking the next identifier is one step.

  On the wire an ADU is the MBAP header (transaction identifier, protocol identifier zero, length
  of what follows), the unit identifier and the PDU; \<open>tcp_adu\<close> states that layout once.
\<close>

section \<open>Constants and context\<close>

abbreviation (input) MODBUS_TCP_MBAP_HEADER_LEN :: nat where "MODBUS_TCP_MBAP_HEADER_LEN \<equiv> 6"
abbreviation (input) MODBUS_TCP_MBAP_LEN_STANDARD_REQ :: u8 where "MODBUS_TCP_MBAP_LEN_STANDARD_REQ \<equiv> 6"
abbreviation (input) MODBUS_TCP_MIN_READ_REQ_LENGTH :: nat where "MODBUS_TCP_MIN_READ_REQ_LENGTH \<equiv> 12"
abbreviation (input) MODBUS_TCP_MAX_ADU_LENGTH :: nat where "MODBUS_TCP_MAX_ADU_LENGTH \<equiv> 260"

text \<open>
  The configuration of the transport. The callbacks are not part of the record: they are
  arguments of the operations that call them.
\<close>

record mb_tcp_config =
  mode :: c_int
  remote_host :: "string option"
  port :: u16
  bind_iface :: "string option"
  connect_timeout_sec :: u32
  connect_retry_sec :: u32
  recv_timeout_ms :: u32
  max_clients :: u16
  keepalive_idle_sec :: u32
  keepalive_interval_sec :: u32
  keepalive_count :: u32
  idle_poll_ms :: u32

record mb_tcp_ctx =
  keep_running :: c_int
  tid :: u16
  cfg :: mb_tcp_config
  listen_sock :: c_int
  stream_sock :: c_int
  client_fds :: "c_int list"
  client_cap :: u16
  initialized :: c_int

section \<open>Builders and parser\<close>

text \<open>The step the three builders share: advance the transaction counter, skipping 0.\<close>

definition advance_tid :: "u16 \<Rightarrow> u16" where
  "advance_tid t = (if t < 0xFFFF then t + 1 else 1)"

definition mb_tcp_build_request_basis ::
    "mb_tcp_ctx option \<Rightarrow> u8 \<Rightarrow> c_int \<Rightarrow> c_int \<Rightarrow> u16 \<Rightarrow> u8 list option \<Rightarrow> nat \<Rightarrow>
     (c_int \<times> mb_tcp_ctx option \<times> u8 list option) option" where
  "mb_tcp_build_request_basis ctx modbus_uid func addr nb req req_cap =
     (case (ctx, req) of
        (Some c, Some r) \<Rightarrow>
          if req_cap < MODBUS_TCP_MIN_READ_REQ_LENGTH then Some (- 1, ctx, req)
          else if func < 0 \<or> func > 255 \<or> addr < 0 \<or> addr > 65535 then Some (- 1, ctx, req)
          else do {
            let c = c\<lparr>tid := advance_tid (tid c)\<rparr>;
            let t = tid c;
            let mbap_len = (1 + 5 :: u16);
            r \<leftarrow> wr r 0 (ucast (drop_bit 8 t));
            r \<leftarrow> wr r 1 (ucast (t AND 0xFF));
            r \<leftarrow> wr r 2 0;
            r \<leftarrow> wr r 3 0;
            r \<leftarrow> wr r 4 (ucast (drop_bit 8 mbap_len));
            r \<leftarrow> wr r 5 (ucast (mbap_len AND 0xFF));
            r \<leftarrow> wr r 6 modbus_uid;
            r \<leftarrow> wr r 7 (word_of_int func);
            r \<leftarrow> wr r 8 (ucast (drop_bit 8 (word_of_int addr :: u32)));
            r \<leftarrow> wr r 9 (ucast ((word_of_int addr :: u32) AND 0xFF));
            r \<leftarrow> wr r 10 (ucast (drop_bit 8 nb));
            r \<leftarrow> wr r 11 (ucast (nb AND 0xFF));
            Some (0, Some c, Some r) }
      | _ \<Rightarrow> Some (- 1, ctx, req))"

definition mb_tcp_build_fc06_request ::
    "mb_tcp_ctx option \<Rightarrow> u8 \<Rightarrow> u16 \<Rightarrow> u16 \<Rightarrow> u8 list option \<Rightarrow> nat \<Rightarrow>
     (c_int \<times> mb_tcp_ctx option \<times> u8 list option) option" where
  "mb_tcp_build_fc06_request ctx modbus_uid addr value req req_cap =
     (case (ctx, req) of
        (Some c, Some r) \<Rightarrow>
          if req_cap < MODBUS_TCP_MIN_READ_REQ_LENGTH then Some (- 1, ctx, req)
          else do {
            let c = c\<lparr>tid := advance_tid (tid c)\<rparr>;
            let t = tid c;
            r \<leftarrow> wr r 0 (ucast (drop_bit 8 t));
            r \<leftarrow> wr r 1 (ucast (t AND 0xFF));
            r \<leftarrow> wr r 2 0;
            r \<leftarrow> wr r 3 0;
            r \<leftarrow> wr r 4 0;
            r \<leftarrow> wr r 5 MODBUS_TCP_MBAP_LEN_STANDARD_REQ;
            r \<leftarrow> wr r 6 modbus_uid;
            r \<leftarrow> wr r 7 MODBUS_FUNC_WRITE_SINGLE_REGISTER;
            r \<leftarrow> wr r 8 (ucast (drop_bit 8 addr));
            r \<leftarrow> wr r 9 (ucast (addr AND 0xFF));
            r \<leftarrow> wr r 10 (ucast (drop_bit 8 value));
            r \<leftarrow> wr r 11 (ucast (value AND 0xFF));
            Some (0, Some c, Some r) }
      | _ \<Rightarrow> Some (- 1, ctx, req))"

definition mb_tcp_build_fc16_request ::
    "mb_tcp_ctx option \<Rightarrow> u8 \<Rightarrow> u16 \<Rightarrow> u16 \<Rightarrow> u16 list option \<Rightarrow> u8 list option \<Rightarrow> nat \<Rightarrow>
     (c_int \<times> mb_tcp_ctx option \<times> u8 list option) option" where
  "mb_tcp_build_fc16_request ctx modbus_uid addr num_registers values req req_cap =
     (case (ctx, req, values) of
        (Some c, Some r, Some values) \<Rightarrow>
          if num_registers = 0 \<or> unat num_registers > MODBUS_MAX_WRITE_REGISTERS then Some (- 1, ctx, req)
          else do {
            let byte_count = (of_nat (unat num_registers * 2) :: u8);
            let mbap_len = (7 + ucast byte_count :: u16);
            let total_len = MODBUS_TCP_MBAP_HEADER_LEN + unat mbap_len;
            if req_cap < total_len then Some (- 1, ctx, req)
            else do {
              let c = c\<lparr>tid := advance_tid (tid c)\<rparr>;
              let t = tid c;
              r \<leftarrow> wr r 0 (ucast (drop_bit 8 t));
              r \<leftarrow> wr r 1 (ucast (t AND 0xFF));
              r \<leftarrow> wr r 2 0;
              r \<leftarrow> wr r 3 0;
              r \<leftarrow> wr r 4 (ucast (drop_bit 8 mbap_len));
              r \<leftarrow> wr r 5 (ucast (mbap_len AND 0xFF));
              r \<leftarrow> wr r 6 modbus_uid;
              r \<leftarrow> wr r 7 MODBUS_FUNC_WRITE_MULTIPLE_REGISTERS;
              r \<leftarrow> wr r 8 (ucast (drop_bit 8 addr));
              r \<leftarrow> wr r 9 (ucast (addr AND 0xFF));
              r \<leftarrow> wr r 10 (ucast (drop_bit 8 num_registers));
              r \<leftarrow> wr r 11 (ucast (num_registers AND 0xFF));
              r \<leftarrow> wr r 12 byte_count;
              r \<leftarrow> for_upto (unat num_registers) (\<lambda>i r. do {
                v \<leftarrow> rd values i;
                r \<leftarrow> wr r (13 + i * 2) (ucast (drop_bit 8 v));
                wr r (13 + i * 2 + 1) (ucast (v AND 0xFF)) }) r;
              Some (int total_len, Some c, Some r) } }
      | _ \<Rightarrow> Some (- 1, ctx, req))"

definition mb_tcp_parse_request ::
    "u8 list option \<Rightarrow> nat \<Rightarrow> u8 option \<Rightarrow> u16 option \<Rightarrow> u16 option \<Rightarrow>
     (c_int \<times> u8 option \<times> u16 option \<times> u16 option) option" where
  "mb_tcp_parse_request request len function_code address quantity =
     (let failed = Some (- 1, function_code, address, quantity) in
      case request of
        None \<Rightarrow> failed
      | Some bytes \<Rightarrow>
          if function_code = None \<or> address = None \<or> quantity = None then failed
          else if len < MODBUS_TCP_MBAP_HEADER_LEN then failed
          else do {
            l1 \<leftarrow> rd bytes 4;
            l0 \<leftarrow> rd bytes 5;
            let mbap_len = (push_bit 8 (ucast l1) OR ucast l0 :: u16);
            if mbap_len < 6 then failed
            else if mbap_len > of_nat (MODBUS_TCP_MAX_ADU_LENGTH - MODBUS_TCP_MBAP_HEADER_LEN) then failed
            else if len < MODBUS_TCP_MBAP_HEADER_LEN + unat mbap_len then failed
            else do {
              fc \<leftarrow> rd bytes 7;
              a1 \<leftarrow> rd bytes 8;
              a0 \<leftarrow> rd bytes 9;
              let addr = push_bit 8 (ucast a1) OR ucast a0;
              if fc = MODBUS_FUNC_WRITE_SINGLE_REGISTER then Some (0, Some fc, Some addr, Some 1)
              else do {
                q1 \<leftarrow> rd bytes 10;
                q0 \<leftarrow> rd bytes 11;
                Some (0, Some fc, Some addr, Some (push_bit 8 (ucast q1) OR ucast q0)) } } })"

definition mb_tcp_build_read_registers_response ::
    "u16 \<Rightarrow> u8 \<Rightarrow> u8 \<Rightarrow> u16 list option \<Rightarrow> u16 \<Rightarrow> u8 list option \<Rightarrow> nat \<Rightarrow> (c_int \<times> u8 list option) option" where
  "mb_tcp_build_read_registers_response t function_code unit_id data quantity response response_cap =
     (case (response, data) of
        (Some r, Some data) \<Rightarrow>
          if unat quantity > 125 then Some (- 1, response)
          else do {
            let pdu_len = 1 + 1 + unat quantity * 2;
            let mbap_len = 1 + pdu_len;
            let total = MODBUS_TCP_MBAP_HEADER_LEN + mbap_len;
            if response_cap < total then Some (- 1, response)
            else do {
              r \<leftarrow> wr r 0 (ucast (drop_bit 8 t AND 0xFF));
              r \<leftarrow> wr r 1 (ucast (t AND 0xFF));
              r \<leftarrow> wr r 2 0;
              r \<leftarrow> wr r 3 0;
              r \<leftarrow> wr r 4 (of_nat (mbap_len div 2 ^ 8));
              r \<leftarrow> wr r 5 (of_nat (mbap_len mod 2 ^ 8));
              r \<leftarrow> wr r 6 unit_id;
              r \<leftarrow> wr r 7 function_code;
              r \<leftarrow> wr r 8 (of_nat (unat quantity * 2));
              r \<leftarrow> for_upto (unat quantity) (\<lambda>i r. do {
                v \<leftarrow> rd data i;
                r \<leftarrow> wr r (9 + i * 2) (ucast (drop_bit 8 v AND 0xFF));
                wr r (10 + i * 2) (ucast (v AND 0xFF)) }) r;
              Some (int total, Some r) } }
      | _ \<Rightarrow> Some (- 1, response))"

section \<open>The layout of an ADU\<close>

definition tcp_adu :: "u16 \<Rightarrow> u8 \<Rightarrow> u8 list \<Rightarrow> u8 list" where
  "tcp_adu t unit_id pdu = be16 t @ [0, 0] @ be16 (of_nat (1 + length pdu)) @ unit_id # pdu"

lemma length_tcp_adu [simp]: "length (tcp_adu t uid pdu) = 7 + length pdu"
  by (simp add: tcp_adu_def)

lemma be16_6: "be16 (6 :: u16) = [0, 6]"
  by (simp add: be16_def)

lemma tcp_build_request_basis_adu:
  assumes "12 \<le> cap" and "cap \<le> length req" and "0 \<le> func" "func \<le> 255" "0 \<le> addr" "addr \<le> 65535"
  shows "mb_tcp_build_request_basis (Some c) uid func addr nb (Some req) cap =
    Some (0, Some (c\<lparr>tid := advance_tid (tid c)\<rparr>),
      Some (blit req 0 (tcp_adu (advance_tid (tid c)) uid (read_req (word_of_int func) (word_of_int addr) nb))))"
proof -
  have "tcp_adu t uid (read_req (word_of_int func) (word_of_int addr) nb) =
      [ucast (drop_bit 8 t), ucast (t AND 0xFF), 0, 0, 0, 6, uid, word_of_int func,
       ucast (drop_bit 8 (word_of_int addr :: u32)), ucast ((word_of_int addr :: u32) AND 0xFF),
       ucast (drop_bit 8 nb), ucast (nb AND 0xFF)]" for t
    by (simp add: tcp_adu_def read_req_def be16_6) (simp add: be16_def be16_of_u32)
  then show ?thesis using assms
    by (simp add: mb_tcp_build_request_basis_def Let_def buf_simps)
qed

lemma tcp_build_fc06_adu:
  assumes "12 \<le> cap" and "cap \<le> length req"
  shows "mb_tcp_build_fc06_request (Some c) uid addr v (Some req) cap =
    Some (0, Some (c\<lparr>tid := advance_tid (tid c)\<rparr>),
      Some (blit req 0 (tcp_adu (advance_tid (tid c)) uid (read_req 6 addr v))))"
proof -
  have "tcp_adu t uid (read_req 6 addr v) =
      [ucast (drop_bit 8 t), ucast (t AND 0xFF), 0, 0, 0, 6, uid, 6,
       ucast (drop_bit 8 addr), ucast (addr AND 0xFF), ucast (drop_bit 8 v), ucast (v AND 0xFF)]" for t
    by (simp add: tcp_adu_def read_req_def be16_6) (simp add: be16_def)
  then show ?thesis using assms
    by (simp add: mb_tcp_build_fc06_request_def Let_def buf_simps)
qed

lemma tcp_build_fc16_adu:
  assumes n: "1 \<le> unat n" "unat n \<le> 123" and "unat n \<le> length vals"
    and cap: "13 + 2 * unat n \<le> cap" "cap \<le> length req"
  shows "mb_tcp_build_fc16_request (Some c) uid addr n (Some vals) (Some req) cap =
    Some (13 + 2 * int (unat n), Some (c\<lparr>tid := advance_tid (tid c)\<rparr>),
      Some (blit req 0 (tcp_adu (advance_tid (tid c)) uid (write_regs_req addr (take (unat n) vals)))))"
proof -
  define bc :: u8 where "bc = of_nat (unat n * 2)"
  define m :: u16 where "m = 7 + ucast bc"
  have bc: "unat bc = unat n * 2" unfolding bc_def using n by (intro unat_of_nat_u8) simp
  have m: "unat m = 7 + unat n * 2" "m = of_nat (7 + 2 * unat n)"
  proof -
    have "m = of_nat (7 + unat bc)" by (simp add: m_def)
    then show "m = of_nat (7 + 2 * unat n)" by (simp add: bc mult.commute)
    then show "unat m = 7 + unat n * 2" using n by (simp add: unat_of_nat_u16 del: of_nat_add of_nat_mult)
  qed
  have qty: "n \<noteq> 0" using n by auto
  have len: "length (take (unat n) vals) = unat n" using assms by simp
  have adu: "tcp_adu t uid (write_regs_req addr (take (unat n) vals)) =
      ucast (drop_bit 8 t) # ucast (t AND 0xFF) # 0 # 0 # ucast (drop_bit 8 m) # ucast (m AND 0xFF) # uid # 16 #
      ucast (drop_bit 8 addr) # ucast (addr AND 0xFF) # ucast (drop_bit 8 n) # ucast (n AND 0xFF) # bc #
      be16s (take (unat n) vals)" for t
    unfolding tcp_adu_def length_write_regs_req len
    by (simp add: m(2)[symmetric] del: of_nat_add of_nat_mult)
       (simp add: write_regs_req_def read_req_def be16_def bc_def assms(3) min_absorb2 mult.commute)
  have alt: "ucast n * 2 = bc" by (simp add: bc_def)
  show ?thesis using assms qty
    by (simp add: mb_tcp_build_fc16_request_def Let_def buf_simps put_words_loop alt
        m_def[symmetric] m(1) adu)
qed

lemma drop_bit_8_mask: "ucast (drop_bit 8 t AND 0xFF) = (ucast (drop_bit 8 t) :: u8)" for t :: u16
  unfolding mask8_u16 by (rule bit_word_eqI) (auto simp: bit_simps)

lemma tcp_build_read_response_adu:
  assumes "unat n \<le> 125" and "unat n \<le> length data" and "9 + 2 * unat n \<le> cap" "cap \<le> length resp"
  shows "mb_tcp_build_read_registers_response t fc uid (Some data) n (Some resp) cap =
    Some (9 + 2 * int (unat n), Some (blit resp 0 (tcp_adu t uid (reply_pdu (RegsReply fc (take (unat n) data))))))"
proof -
  have len: "length (take (unat n) data) = unat n" using assms by simp
  have "tcp_adu t uid (reply_pdu (RegsReply fc (take (unat n) data))) =
      ucast (drop_bit 8 t) # ucast (t AND 0xFF) # 0 # 0 # of_nat ((3 + unat n * 2) div 2 ^ 8) #
      of_nat ((3 + unat n * 2) mod 2 ^ 8) # uid # fc # of_nat (unat n * 2) # be16s (take (unat n) data)"
    using assms len be16_of_nat[of "3 + unat n * 2"]
    by (simp add: tcp_adu_def mult.commute del: of_nat_mult of_nat_add) (simp add: be16_def)
  then show ?thesis using assms
    by (simp add: mb_tcp_build_read_registers_response_def Let_def buf_simps put_words_loop drop_bit_8_mask
        del: of_nat_mult reply_pdu.simps) simp
qed

lemma tcp_parse_request_adu:
  assumes "length body \<le> 248" and adu_def: "adu = tcp_adu t uid (read_req fc addr qty @ body)"
  shows "mb_tcp_parse_request (Some (adu @ rest)) (length adu + k) (Some x) (Some y) (Some z) =
    Some (0, Some fc, Some addr, Some (if fc = 6 then 1 else qty))"
proof -
  obtain a1 a0 q1 q0 where b: "be16 addr = [a1, a0]" "of_be16 a1 a0 = addr"
    "be16 qty = [q1, q0]" "of_be16 q1 q0 = qty" by (simp add: be16_def)
  define m :: u16 where "m = of_nat (6 + length body)"
  have m: "unat m = 6 + length body" unfolding m_def using assms by (intro unat_of_nat_u16) simp
  obtain l1 l0 where l: "be16 m = [l1, l0]" "of_be16 l1 l0 = m" by (simp add: be16_def)
  obtain t1 t0 where "be16 t = [t1, t0]" by (simp add: be16_def)
  moreover have "1 + length (read_req fc addr qty @ body) = 6 + length body" by simp
  ultimately have adu: "adu = t1 # t0 # 0 # 0 # l1 # l0 # uid # fc # a1 # a0 # q1 # q0 # body"
    unfolding adu_def tcp_adu_def using b l by (simp only: m_def[symmetric]) (simp add: read_req_def)
  have "\<not> m < 6" "\<not> m > 254" using m assms by (simp_all add: word_less_nat_alt)
  then show ?thesis using m b(2,4) l(2)
    by (simp add: mb_tcp_parse_request_def adu of_be16_def[symmetric] Let_def)
qed

section \<open>The transaction counter\<close>

lemma advance_tid_nonzero [simp]: "advance_tid t \<noteq> 0"
proof (cases "t < 0xFFFF")
  case True
  then have "unat (t + 1) = unat t + 1" by (simp add: word_less_nat_alt unat_word_ariths)
  then have "t + 1 \<noteq> 0" by (metis add_is_0 one_neq_zero unat_0)
  with True show ?thesis by (simp add: advance_tid_def)
qed (simp add: advance_tid_def)

lemma unat_advance_tid: "unat (advance_tid t) = unat t mod 65535 + 1"
  using unat_u16_less[of t]
  by (cases "unat t = 65535") (simp_all add: advance_tid_def word_less_nat_alt unat_word_ariths)

lemma advance_tid_funpow: "unat ((advance_tid ^^ Suc k) t) = (unat t + k) mod 65535 + 1"
proof (induction k)
  case 0
  then show ?case by (simp add: unat_advance_tid)
next
  case (Suc k)
  then show ?case
    by (subst funpow.simps) (simp add: unat_advance_tid mod_Suc_eq del: funpow.simps)
qed

section \<open>Frames in a stream\<close>

text \<open>
  What a frame on the wire looks like: header, unit identifier and PDU, with any protocol
  identifier.
\<close>

definition mbap_frame :: "u8 list \<Rightarrow> u8 list \<Rightarrow> u8 \<Rightarrow> u8 list \<Rightarrow> u8 list" where
  "mbap_frame tid2 proto2 unit_id pdu = tid2 @ proto2 @ be16 (of_nat (1 + length pdu)) @ unit_id # pdu"

lemma tcp_adu_mbap: "tcp_adu t uid pdu = mbap_frame (be16 t) [0, 0] uid pdu"
  by (simp add: tcp_adu_def mbap_frame_def)

lemma length_mbap_frame [simp]:
  "length tid2 = 2 \<Longrightarrow> length proto2 = 2 \<Longrightarrow> length (mbap_frame tid2 proto2 uid pdu) = 7 + length pdu"
  by (simp add: mbap_frame_def)

lemma list2_cases:
  assumes "length xs = 2"
  obtains a b where "xs = [a, b]"
  using assms by (auto simp: numeral_2_eq_2 length_Suc_conv)

lemma mbap_split:
  fixes bs :: "u8 list"
  defines "m \<equiv> unat (of_be16 (bs ! 4) (bs ! 5))"
  assumes "1 \<le> m" and "6 + m \<le> length bs"
  shows "bs = mbap_frame (take 2 bs) (take 2 (drop 2 bs)) (bs ! 6) (take (m - 1) (drop 7 bs)) @ drop (6 + m) bs"
proof -
  have "7 \<le> length bs" using assms by simp
  then obtain t1 t0 p1 p0 l1 l0 uid rest where bs: "bs = t1 # t0 # p1 # p0 # l1 # l0 # uid # rest"
    by (auto simp: numeral_eq_Suc Suc_le_length_iff)
  then have m: "of_be16 l1 l0 = of_nat m" "m - 1 \<le> length rest" "1 + (m - 1) = m"
    using assms by (simp_all add: m_def)
  have "be16 (of_nat (1 + length (take (m - 1) rest))) = [l1, l0]"
    using m by (metis be16_of_be16 length_take min_absorb2)
  moreover have "drop (6 + m) bs = drop (m - 1) rest"
    using assms(2) by (cases m) (simp_all add: bs eval_nat_numeral)
  ultimately show ?thesis by (simp add: mbap_frame_def bs)
qed

end
