(* ===== verification/Tcp_Frame_Properties.thy ===== *)
theory Tcp_Frame_Properties
  imports Tcp_Frame Pdu_Client
begin

text \<open>
  The properties of TCP framing (\<^verbatim>\<open>src/src/modbus_tcp.c\<close>): requests parse back, the builders are
  the PDU builders behind an MBAP header, and transaction identifiers do not repeat.
\<close>

definition idle_ctx :: mb_tcp_ctx where
  "idle_ctx = \<lparr>keep_running = 0, tid = 0,
     cfg = \<lparr>mode = 0, remote_host = None, port = 502, bind_iface = None, connect_timeout_sec = 5,
       connect_retry_sec = 3, recv_timeout_ms = 0, max_clients = 0, keepalive_idle_sec = 0,
       keepalive_interval_sec = 0, keepalive_count = 0, idle_poll_ms = 0\<rparr>,
     listen_sock = - 1, stream_sock = - 1, client_fds = [], client_cap = 0, initialized = 0\<rparr>"

lemma blit_0: "blit b 0 xs = xs @ drop (length xs) b"
  by (simp add: blit_def)

text \<open>
  A request built by \<^const>\<open>mb_tcp_build_request_basis\<close> parses back: for every function code
  and address in range the parser returns them and the quantity, which it reports as 1 for the
  write of a single register, and the transaction counter advances once; arguments out of range
  are rejected and leave the buffer and the counter alone.
\<close>

theorem tcp_request_roundtrip:
  assumes "12 \<le> cap" and "cap \<le> length req"
  shows "do { (rc, c, frame) \<leftarrow> mb_tcp_build_request_basis (Some ctx) uid func addr nb (Some req) cap;
              if rc < 0 then Some (c, frame, None)
              else do { res \<leftarrow> mb_tcp_parse_request frame 12 (Some 0) (Some 0) (Some 0);
                        Some (c, frame, Some res) } } =
    (if 0 \<le> func \<and> func \<le> 255 \<and> 0 \<le> addr \<and> addr \<le> 65535
     then Some (Some (ctx\<lparr>tid := advance_tid (tid ctx)\<rparr>),
       Some (tcp_adu (advance_tid (tid ctx)) uid (read_req (word_of_int func) (word_of_int addr) nb) @ drop 12 req),
       Some (0, Some (word_of_int func), Some (word_of_int addr), Some (if func = 6 then 1 else nb)))
     else Some (Some ctx, Some req, None))"
proof (cases "0 \<le> func \<and> func \<le> 255 \<and> 0 \<le> addr \<and> addr \<le> 65535")
  case True
  let ?adu = "tcp_adu (advance_tid (tid ctx)) uid (read_req (word_of_int func) (word_of_int addr) nb)"
  have "(word_of_int func :: u8) = 6 \<longleftrightarrow> func = 6"
    using True by (auto simp: word_uint_eq_iff uint_word_of_int)
  moreover have "blit req 0 ?adu = ?adu @ drop 12 req" by (simp add: blit_0)
  ultimately show ?thesis
    using True tcp_build_request_basis_adu[OF assms, of func addr ctx uid nb]
      tcp_parse_request_adu[of "[]" ?adu "advance_tid (tid ctx)" uid "word_of_int func" "word_of_int addr" nb
        "drop 12 req" 0 0 0 0]
    by simp
next
  case False
  then show ?thesis using assms by (auto simp: mb_tcp_build_request_basis_def)
qed

theorem tcp_request_roundtrip_witness:
  "do { (rc, c, frame) \<leftarrow> mb_tcp_build_request_basis (Some idle_ctx) 1 3 0x10 2 (Some (replicate 260 0)) 260;
        if rc < 0 then Some (c, frame, None)
        else do { res \<leftarrow> mb_tcp_parse_request frame 12 (Some 0) (Some 0) (Some 0);
                  Some (c, frame, Some res) } } =
     Some (Some (idle_ctx\<lparr>tid := 1\<rparr>), Some (tcp_adu 1 1 (read_req 3 0x10 2) @ replicate 248 0),
       Some (0, Some 3, Some 0x10, Some 2))"
  using tcp_request_roundtrip[of 260 "replicate 260 0" idle_ctx 1 3 "0x10" 2]
  by (simp add: idle_ctx_def advance_tid_def)

text \<open>
  The TCP builders of writes agree with the PDU layer: for 1 to 123 registers the frame of
  \<^const>\<open>mb_tcp_build_fc16_request\<close> is an MBAP header with the next transaction identifier, protocol 0
  and the length of the rest, the unit identifier, and the PDU that
  \<^const>\<open>mb_pdu_build_write_registers\<close> builds from the same arguments; the frame of
  \<^const>\<open>mb_tcp_build_fc06_request\<close> is the same around the PDU of \<^const>\<open>mb_pdu_build_write_single\<close>.
\<close>

theorem tcp_writes_frame_pdu:
  assumes "1 \<le> unat n" and "unat n \<le> 123" and "unat n \<le> length vals"
    and "13 + 2 * unat n \<le> cap" and "cap \<le> length req" and "253 \<le> length pdu"
  shows "(\<exists>frame m pdu'.
      mb_tcp_build_fc16_request (Some ctx) uid addr n (Some vals) (Some req) cap =
        Some (int (m + 7), Some (ctx\<lparr>tid := advance_tid (tid ctx)\<rparr>), Some frame) \<and>
      mb_pdu_build_write_registers pdu addr n vals = Some (m, pdu') \<and>
      frame = tcp_adu (advance_tid (tid ctx)) uid (take m pdu') @ drop (m + 7) req) \<and>
    (\<exists>frame pdu'.
      mb_tcp_build_fc06_request (Some ctx) uid addr v (Some req) cap =
        Some (0, Some (ctx\<lparr>tid := advance_tid (tid ctx)\<rparr>), Some frame) \<and>
      mb_pdu_build_write_single pdu 6 addr v = Some (5, pdu') \<and>
      frame = tcp_adu (advance_tid (tid ctx)) uid (take 5 pdu') @ drop 12 req)"
proof
  let ?pdu = "write_regs_req addr (take (unat n) vals)"
  have "take (6 + 2 * unat n) (blit pdu 0 ?pdu) = ?pdu" using assms by simp
  then show "\<exists>frame m pdu'.
      mb_tcp_build_fc16_request (Some ctx) uid addr n (Some vals) (Some req) cap =
        Some (int (m + 7), Some (ctx\<lparr>tid := advance_tid (tid ctx)\<rparr>), Some frame) \<and>
      mb_pdu_build_write_registers pdu addr n vals = Some (m, pdu') \<and>
      frame = tcp_adu (advance_tid (tid ctx)) uid (take m pdu') @ drop (m + 7) req"
    using tcp_build_fc16_adu[OF assms(1-5), of ctx uid addr]
      mb_pdu_build_write_registers_req[OF assms(3), of pdu addr] assms
    by (intro exI[of _ "6 + 2 * unat n"] exI[of _ "blit pdu 0 ?pdu"] exI) (simp add: blit_0)
next
  have "take 5 (blit pdu 0 (read_req 6 addr v)) = read_req 6 addr v" by simp
  then show "\<exists>frame pdu'.
      mb_tcp_build_fc06_request (Some ctx) uid addr v (Some req) cap =
        Some (0, Some (ctx\<lparr>tid := advance_tid (tid ctx)\<rparr>), Some frame) \<and>
      mb_pdu_build_write_single pdu 6 addr v = Some (5, pdu') \<and>
      frame = tcp_adu (advance_tid (tid ctx)) uid (take 5 pdu') @ drop 12 req"
    using tcp_build_fc06_adu[of cap req ctx uid addr v] mb_pdu_build_read_req[of pdu 6 addr v] assms
    by (simp add: mb_pdu_build_write_single_def blit_0)
qed

theorem tcp_writes_frame_pdu_witness:
  "(\<exists>frame m pdu'.
      mb_tcp_build_fc16_request (Some idle_ctx) 1 7 2 (Some [5, 6]) (Some (replicate 260 0)) 260 =
        Some (int (m + 7), Some (idle_ctx\<lparr>tid := advance_tid (tid idle_ctx)\<rparr>), Some frame) \<and>
      mb_pdu_build_write_registers (replicate 253 0) 7 2 [5, 6] = Some (m, pdu') \<and>
      frame = tcp_adu (advance_tid (tid idle_ctx)) 1 (take m pdu') @ drop (m + 7) (replicate 260 0)) \<and>
    (\<exists>frame pdu'.
      mb_tcp_build_fc06_request (Some idle_ctx) 1 7 9 (Some (replicate 260 0)) 260 =
        Some (0, Some (idle_ctx\<lparr>tid := advance_tid (tid idle_ctx)\<rparr>), Some frame) \<and>
      mb_pdu_build_write_single (replicate 253 0) 6 7 9 = Some (5, pdu') \<and>
      frame = tcp_adu (advance_tid (tid idle_ctx)) 1 (take 5 pdu') @ drop 12 (replicate 260 0))"
  by (rule tcp_writes_frame_pdu) simp_all

text \<open>
  A read response built by \<^const>\<open>mb_tcp_build_read_registers_response\<close> is what a client
  expects: for every quantity up to 125 it carries the transaction identifier, protocol 0 and the
  length of the rest, the check of responses accepts the PDU inside it for the matching request,
  and the decoder returns the registers.
\<close>

theorem tcp_read_response_accepted:
  assumes "fc \<in> {3, 4}" and "unat n \<le> 125" and "length vals = unat n" and "length out = unat n"
    and "260 \<le> length resp"
  shows "\<exists>frame. mb_tcp_build_read_registers_response t fc uid (Some vals) n (Some resp) 260 =
      Some (9 + 2 * int (unat n), Some frame) \<and>
    take 7 frame = be16 t @ [0, 0] @ be16 (of_nat (3 + 2 * unat n)) @ [uid] \<and>
    mb_pdu_check_response (read_req fc addr n) (ptr frame 7) (2 + 2 * unat n) = Some 0 \<and>
    mb_pdu_get_registers (ptr frame 7) n out = Some vals"
proof -
  let ?r = "RegsReply fc vals"
  let ?frame = "tcp_adu t uid (reply_pdu ?r) @ drop (9 + 2 * unat n) resp"
  have build: "mb_tcp_build_read_registers_response t fc uid (Some vals) n (Some resp) 260 =
      Some (9 + 2 * int (unat n), Some ?frame)"
    using tcp_build_read_response_adu[of n vals 260 resp t fc uid] assms by (simp add: blit_0)
  have hd: "take 7 ?frame = be16 t @ [0, 0] @ be16 (of_nat (3 + 2 * unat n)) @ [uid]"
    using assms by (simp add: tcp_adu_def be16_def)
  have ptr: "ptr ?frame 7 = reply_pdu ?r @ drop (9 + 2 * unat n) resp"
    by (simp add: ptr_def tcp_adu_def be16_def)
  have "known_fc fc" using assms(1) by (auto simp: known_fc_def)
  from check_response_reply[OF this, of addr n ?r "[]" "drop (9 + 2 * unat n) resp"]
  have check: "mb_pdu_check_response (read_req fc addr n) (ptr ?frame 7) (2 + 2 * unat n) = Some 0"
    using assms unfolding ptr by (simp add: add_2_eq_Suc)
  have "mb_pdu_get_registers (ptr ?frame 7) n out = Some vals"
    using get_registers_reply[of vals n out fc] assms unfolding ptr by simp
  with build hd check show ?thesis by blast
qed

theorem tcp_read_response_accepted_witness:
  "\<exists>frame. mb_tcp_build_read_registers_response 9 3 1 (Some [7, 8]) 2 (Some (replicate 260 0)) 260 =
      Some (13, Some frame) \<and>
    take 7 frame = be16 9 @ [0, 0] @ be16 7 @ [1] \<and>
    mb_pdu_check_response (read_req 3 0x20 2) (ptr frame 7) 6 = Some 0 \<and>
    mb_pdu_get_registers (ptr frame 7) 2 [0, 0] = Some [7, 8]"
  using tcp_read_response_accepted[of 3 2 "[7, 8]" "[0, 0]" "replicate 260 0" 9 1 "0x20"] by simp

lemma mod_add_inj:
  fixes n :: nat
  assumes "(a + i) mod n = (a + j) mod n" and "i < n" and "j < n"
  shows "i = j"
proof -
  have *: "j \<le> i" if "(a + i) mod n = (a + j) mod n" "i \<le> j" "j < n" for i j
  proof -
    have "n dvd j - i" using that mod_eq_dvd_iff_nat[of "a + i" "a + j" n] by simp
    then show ?thesis using that by (cases "j - i = 0") (auto dest: dvd_imp_le)
  qed
  show ?thesis
  proof (cases "i \<le> j")
    case True
    from *[OF assms(1) True assms(3)] True show ?thesis by simp
  next
    case False
    then have "j \<le> i" by simp
    from *[OF assms(1)[symmetric] this assms(2)] False show ?thesis by simp
  qed
qed

text \<open>
  Transaction identifiers are never 0 and do not repeat within 65535 consecutive requests,
  whatever value the counter starts from.
\<close>

theorem tids_distinct:
  "0 \<notin> set (map (\<lambda>k. (advance_tid ^^ Suc k) t) [0..<65535]) \<and>
   distinct (map (\<lambda>k. (advance_tid ^^ Suc k) t) [0..<65535])"
proof
  show "0 \<notin> set (map (\<lambda>k. (advance_tid ^^ Suc k) t) [0..<65535])" by auto
  have "inj_on (\<lambda>k. (unat t + k) mod 65535) {0..<65535}"
    by (rule inj_onI) (rule mod_add_inj, auto)
  then have "inj_on (\<lambda>k. (advance_tid ^^ Suc k) t) {0..<65535}"
    by (intro inj_onI) (metis (mono_tags, lifting) advance_tid_funpow add_right_cancel inj_onD)
  then show "distinct (map (\<lambda>k. (advance_tid ^^ Suc k) t) [0..<65535])"
    by (simp add: distinct_map)
qed

end
