(* ===== verification/Sock_Io.thy ===== *)
theory Sock_Io
  imports Modbus_Prelude
begin

text \<open>
  Connected stream sockets as the TCP code sees them, and the loops that receive and send exactly
  a number of bytes: \<open>recv_exact\<close> of \<^verbatim>\<open>src/src/modbus_tcp_server.c\<close> and
  \<^verbatim>\<open>src/src/modbus_tcp_client.c\<close>, and \<open>mb_tcp_send_all\<close> of \<^verbatim>\<open>src/src/modbus_tcp.c\<close>.

  The kernel and the peer are a script: what arrives (segments of at least one byte, the end of
  the stream, or an error of the call), how much each \<open>send\<close> accepts, how each \<open>poll\<close> ends, and
  what the clock shows. Theorems quantify over the script. \<open>recv\<close> hands out at most the bytes
  asked for and keeps the rest of a segment. When nothing arrives any more, \<open>recv\<close> fails with
  \<open>EAGAIN\<close> if the socket has a receive timeout and otherwise never returns, and \<open>poll\<close> ends with
  its timeout unless that is negative, when it never returns. A \<open>send\<close> beyond the script accepts
  everything. The clock shows the seconds and nanoseconds \<open>clk k\<close> at its \<open>k\<close>-th reading, and
  \<open>open_fds\<close> are the descriptors the process holds.
\<close>

section \<open>The socket\<close>

datatype errno = EINTR | EAGAIN | EWOULDBLOCK | ETIMEDOUT | EOTHER

datatype rx_event = Seg u8 "u8 list" | Eof | RxErr errno
datatype tx_event = Accept nat | TxErr errno
datatype poll_event = PollReady | PollQuiet | PollErr errno

record sock =
  rx :: "rx_event list"
  rcvtimeo :: bool
  polls :: "poll_event list"
  tx :: "tx_event list"
  wire :: "u8 list"
  clk :: "nat \<Rightarrow> u64 \<times> u64"
  ticks :: nat
  open_fds :: "c_int list"

text \<open>\<open>FD_SET\<close> is defined for descriptors below \<open>FD_SETSIZE\<close> only.\<close>

definition fd_ok :: "c_int \<Rightarrow> bool" where
  "fd_ok fd \<longleftrightarrow> 0 \<le> fd \<and> fd < 1024"

definition sys_recv :: "nat \<Rightarrow> sock \<Rightarrow> ((errno + u8 list) \<times> sock) option" where
  "sys_recv n w =
     (case rx w of
        [] \<Rightarrow> if rcvtimeo w then Some (Inl EAGAIN, w) else None
      | Seg b bs # r \<Rightarrow>
          (case drop n (b # bs) of
             [] \<Rightarrow> Some (Inr (b # bs), w\<lparr>rx := r\<rparr>)
           | b' # bs' \<Rightarrow> Some (Inr (take n (b # bs)), w\<lparr>rx := Seg b' bs' # r\<rparr>))
      | Eof # r \<Rightarrow> Some (Inr [], w)
      | RxErr e # r \<Rightarrow> Some (Inl e, w\<lparr>rx := r\<rparr>))"

definition sys_send :: "u8 list \<Rightarrow> sock \<Rightarrow> (errno + nat) \<times> sock" where
  "sys_send bytes w =
     (case tx w of
        [] \<Rightarrow> (Inr (length bytes), w\<lparr>wire := wire w @ bytes\<rparr>)
      | Accept k # r \<Rightarrow> (Inr (min k (length bytes)), w\<lparr>tx := r, wire := wire w @ take k bytes\<rparr>)
      | TxErr e # r \<Rightarrow> (Inl e, w\<lparr>tx := r\<rparr>))"

definition sys_poll :: "c_int \<Rightarrow> sock \<Rightarrow> ((errno + c_int) \<times> sock) option" where
  "sys_poll timeout w =
     (case polls w of
        [] \<Rightarrow> if timeout < 0 then None else Some (Inr 0, w)
      | PollQuiet # r \<Rightarrow> if timeout < 0 then None else Some (Inr 0, w\<lparr>polls := r\<rparr>)
      | PollReady # r \<Rightarrow> Some (Inr 1, w\<lparr>polls := r\<rparr>)
      | PollErr e # r \<Rightarrow> Some (Inl e, w\<lparr>polls := r\<rparr>))"

section \<open>Receiving and sending exactly\<close>

text \<open>
  The loop of \<open>recv_exact\<close>. The copies in the server and in the client are the same but for the
  value they return when \<open>recv\<close> fails, which is the argument \<open>code\<close>. \<open>off\<close> and \<open>len\<close> are the
  place and the number of the bytes still to come.
\<close>

function recv_loop ::
    "(errno \<Rightarrow> c_int) \<Rightarrow> u8 list \<Rightarrow> nat \<Rightarrow> nat \<Rightarrow> sock \<Rightarrow> (c_int \<times> u8 list \<times> sock) option" where
  "recv_loop code buf off len w =
     (if len = 0 then Some (0, buf, w)
      else case sys_recv len w of
             None \<Rightarrow> None
           | Some (Inl e, w') \<Rightarrow>
               if e = EINTR then recv_loop code buf off len w' else Some (code e, buf, w')
           | Some (Inr bs, w') \<Rightarrow>
               if bs = [] then Some (- 1, buf, w')
               else (case memcpy_to buf off bs (length bs) of
                       None \<Rightarrow> None
                     | Some buf' \<Rightarrow> recv_loop code buf' (off + length bs) (len - length bs) w'))"
  by pat_completeness auto

lemma sys_recv_rx:
  "sys_recv len w = Some (Inl EINTR, w') \<Longrightarrow> length (rx w') < length (rx w)"
  "sys_recv len w = Some (Inr bs, w') \<Longrightarrow> length (rx w') \<le> length (rx w)"
  by (auto simp: sys_recv_def split: list.splits rx_event.splits if_splits)

termination recv_loop
proof (relation "measure (\<lambda>(code, buf, off, len, w). len + length (rx w))", goal_cases)
  case (2 code buf off len w)
  then show ?case by (auto dest: sys_recv_rx)
next
  case (3 code buf off len w)
  then show ?case by (auto dest!: sys_recv_rx(2) simp: neq_Nil_conv)
qed simp

declare recv_loop.simps [simp del]

function send_loop :: "u8 list \<Rightarrow> sock \<Rightarrow> c_int \<times> sock" where
  "send_loop bytes w =
     (if bytes = [] then (0, w)
      else case sys_send bytes w of
             (Inl e, w') \<Rightarrow> if e = EINTR then send_loop bytes w' else (- 1, w')
           | (Inr n, w') \<Rightarrow> if n = 0 then (- 1, w') else send_loop (drop n bytes) w')"
  by pat_completeness auto

termination send_loop
  by (relation "measure (\<lambda>(bytes, w). length bytes + length (tx w))")
     (auto simp: sys_send_def split: list.splits tx_event.splits)

declare send_loop.simps [simp del]

definition mb_tcp_send_all :: "u8 list \<Rightarrow> nat \<Rightarrow> sock \<Rightarrow> (c_int \<times> sock) option" where
  "mb_tcp_send_all buf len w = (if len \<le> length buf then Some (send_loop (take len buf) w) else None)"

section \<open>What the loops do\<close>

text \<open>
  The stream a socket delivers, however it is cut into segments and interrupted: its bytes, what
  ends it, and the script that is left when some bytes were taken.
\<close>

fun rx_bytes :: "rx_event list \<Rightarrow> u8 list" where
  "rx_bytes (Seg b bs # r) = b # bs @ rx_bytes r"
| "rx_bytes (RxErr EINTR # r) = rx_bytes r"
| "rx_bytes r = []"

fun rx_stop :: "rx_event list \<Rightarrow> rx_event option" where
  "rx_stop (Seg b bs # r) = rx_stop r"
| "rx_stop (RxErr EINTR # r) = rx_stop r"
| "rx_stop (e # r) = Some e"
| "rx_stop [] = None"

fun rx_drop :: "nat \<Rightarrow> rx_event list \<Rightarrow> rx_event list" where
  "rx_drop 0 r = r"
| "rx_drop (Suc n) (Seg b bs # r) =
     (case drop n bs of [] \<Rightarrow> rx_drop (n - length bs) r | b' # bs' \<Rightarrow> Seg b' bs' # r)"
| "rx_drop (Suc n) (RxErr EINTR # r) = rx_drop (Suc n) r"
| "rx_drop (Suc n) r = r"

lemma rx_bytes_drop: "n \<le> length (rx_bytes r) \<Longrightarrow> rx_bytes (rx_drop n r) = drop n (rx_bytes r)"
proof (induction n r rule: rx_drop.induct)
  case (2 n b bs r)
  show ?case
  proof (cases "n < length bs")
    case True
    then obtain b' bs' where "drop n bs = b' # bs'" by (cases "drop n bs") auto
    then show ?thesis using True by simp
  next
    case False
    then show ?thesis using 2 by simp
  qed
qed auto

lemma rx_stop_drop: "n \<le> length (rx_bytes r) \<Longrightarrow> rx_stop (rx_drop n r) = rx_stop r"
  by (induction n r rule: rx_drop.induct) (auto split: list.split)

lemma sys_recv_bytes:
  assumes "rx_bytes (rx w) \<noteq> []" and "0 < n"
  shows "(\<exists>r. sys_recv n w = Some (Inl EINTR, w\<lparr>rx := r\<rparr>) \<and> rx w = RxErr EINTR # r) \<or>
    (\<exists>bs. bs \<noteq> [] \<and> length bs \<le> n \<and> length bs \<le> length (rx_bytes (rx w)) \<and>
       bs = take (length bs) (rx_bytes (rx w)) \<and>
       sys_recv n w = Some (Inr bs, w\<lparr>rx := rx_drop (length bs) (rx w)\<rparr>))"
proof (cases "rx w" rule: rx_bytes.cases)
  case (1 b bs r)
  show ?thesis
  proof (cases "drop n (b # bs)")
    case Nil
    with 1 show ?thesis by (intro disjI2 exI[of _ "b # bs"]) (simp add: sys_recv_def)
  next
    case (Cons b' bs')
    then have n: "n < Suc (length bs)" by (metis drop_eq_Nil2 length_Cons list.discI not_less)
    with 1 Cons assms show ?thesis
      by (intro disjI2 exI[of _ "take n (b # bs)"]) (cases n, auto simp: sys_recv_def min_absorb2)
  qed
qed (use assms in \<open>auto simp: sys_recv_def\<close>)

lemma rx_drop_add:
  "m + n \<le> length (rx_bytes r) \<Longrightarrow> rx_drop n (rx_drop m r) = rx_drop (m + n) r"
proof (induction m r rule: rx_drop.induct)
  case (2 k b bs r)
  show ?case
  proof (cases "k < length bs")
    case True
    then obtain b' bs' where d: "drop k bs = b' # bs'" by (cases "drop k bs") auto
    have e: "drop (Suc (k + i)) bs = drop i bs'" for i
      using d drop_drop[of "Suc i" k bs] by (simp add: add.commute)
    have "length bs = k + Suc (length bs')" using True arg_cong[OF d, of length] by simp
    then show ?thesis using d by (cases n) (simp_all add: e split: list.split)
  next
    case False
    then show ?thesis using 2 by simp
  qed
qed auto

lemma recv_loop_ok:
  assumes "len \<le> length (rx_bytes (rx w))" and "off + len \<le> length buf"
  shows "recv_loop code buf off len w =
    Some (0, blit buf off (take len (rx_bytes (rx w))), w\<lparr>rx := rx_drop len (rx w)\<rparr>)"
  using assms
proof (induction code buf off len w rule: recv_loop.induct)
  case (1 code buf off len w)
  show ?case
  proof (cases "len = 0")
    case True
    then show ?thesis by (simp add: recv_loop.simps)
  next
    case False
    let ?bytes = "rx_bytes (rx w)"
    have "?bytes \<noteq> []" using 1(3) False by auto
    then consider (intr) r where "sys_recv len w = Some (Inl EINTR, w\<lparr>rx := r\<rparr>)" "rx w = RxErr EINTR # r"
      | (bytes) bs where "bs \<noteq> []" "length bs \<le> len" "length bs \<le> length ?bytes" "bs = take (length bs) ?bytes"
        "sys_recv len w = Some (Inr bs, w\<lparr>rx := rx_drop (length bs) (rx w)\<rparr>)"
      using sys_recv_bytes[of w len] False by blast
    then show ?thesis
    proof cases
      case intr
      then have "recv_loop code buf off len (w\<lparr>rx := r\<rparr>) =
          Some (0, blit buf off (take len ?bytes), w\<lparr>rx := rx_drop len r\<rparr>)"
        using 1(1)[OF False intr(1)] 1(3,4) by simp
      then show ?thesis using intr False
        by (subst recv_loop.simps) (cases len, simp_all)
    next
      case bytes
      let ?k = "length bs"
      let ?w = "w\<lparr>rx := rx_drop ?k (rx w)\<rparr>"
      have put: "memcpy_to buf off bs ?k = Some (blit buf off bs)" using 1(4) bytes by (simp add: memcpy_to_blit)
      have "bs @ take (len - ?k) (drop ?k ?bytes) = take len ?bytes"
        using bytes(2,4) take_add[of ?k "len - ?k" ?bytes] by simp
      moreover have "recv_loop code (blit buf off bs) (off + ?k) (len - ?k) ?w =
          Some (0, blit (blit buf off bs) (off + ?k) (take (len - ?k) (drop ?k ?bytes)),
            ?w\<lparr>rx := rx_drop (len - ?k) (rx_drop ?k (rx w))\<rparr>)"
        using 1(2)[OF False bytes(5) refl refl] put bytes(1-3) 1(3,4) by (simp add: rx_bytes_drop)
      ultimately show ?thesis using bytes False put 1(3,4)
        by (subst recv_loop.simps) (simp add: blit_append rx_drop_add)
    qed
  qed
qed

text \<open>When the stream ends too early the loop returns, unless nothing ends a stream without a timeout.\<close>

definition stop_code :: "(errno \<Rightarrow> c_int) \<Rightarrow> sock \<Rightarrow> c_int option" where
  "stop_code code w =
     (case rx_stop (rx w) of
        None \<Rightarrow> if rcvtimeo w then Some (code EAGAIN) else None
      | Some (RxErr e) \<Rightarrow> Some (code e)
      | Some _ \<Rightarrow> Some (- 1))"

lemma recv_loop_short:
  assumes "length (rx_bytes (rx w)) < len" and "off + len \<le> length buf"
  shows "(case stop_code code w of
      None \<Rightarrow> recv_loop code buf off len w = None
    | Some rc \<Rightarrow> \<exists>r. recv_loop code buf off len w = Some (rc, blit buf off (rx_bytes (rx w)), w\<lparr>rx := r\<rparr>))"
  using assms
proof (induction code buf off len w rule: recv_loop.induct)
  case (1 code buf off len w)
  then have "len \<noteq> 0" by auto
  note len = this
  have self: "\<exists>r. w = w\<lparr>rx := r\<rparr>" by (intro exI[of _ "rx w"]) simp
  show ?case
  proof (cases "rx w" rule: rx_bytes.cases)
    case (1 b bs r)
    have sys: "sys_recv len w = Some (Inr (b # bs), w\<lparr>rx := r\<rparr>)"
      using 1 "1.prems" by (cases "drop len (b # bs)") (auto simp: sys_recv_def)
    have put: "memcpy_to buf off (b # bs) (Suc (length bs)) = Some (blit buf off (b # bs))"
      using 1 "1.prems" by (simp add: memcpy_to_blit)
    have "stop_code code (w\<lparr>rx := r\<rparr>) = stop_code code w" using 1 by (simp add: stop_code_def)
    moreover have "blit (blit buf off (b # bs)) (off + Suc (length bs)) (rx_bytes r) = blit buf off (rx_bytes (rx w))"
      using 1 "1.prems" by (simp add: blit_append)
    ultimately show ?thesis
      using "1.IH"(2)[OF len sys refl refl] put sys 1 "1.prems" len
      by (subst (1 2) recv_loop.simps) (auto split: option.splits)
  next
    case (2 r)
    then have sys: "sys_recv len w = Some (Inl EINTR, w\<lparr>rx := r\<rparr>)" by (simp add: sys_recv_def)
    have "stop_code code (w\<lparr>rx := r\<rparr>) = stop_code code w" using 2 by (simp add: stop_code_def)
    then show ?thesis
      using "1.IH"(1)[OF len sys refl refl] sys 2 "1.prems" len
      by (subst (1 2) recv_loop.simps) (auto split: option.splits)
  qed (use len self in \<open>auto simp: recv_loop.simps[of code buf off len w] sys_recv_def stop_code_def\<close>)
qed

text \<open>Sending: either everything is on the wire, in order, or a part of it and the caller knows.\<close>

lemma sys_send_Inr:
  "sys_send bytes w = (Inr n, w') \<Longrightarrow> n \<le> length bytes \<and> w' = w\<lparr>tx := tl (tx w), wire := wire w @ take n bytes\<rparr>"
  by (cases w) (auto simp: sys_send_def min_def split: list.splits tx_event.splits)

lemma send_loop_wire:
  "\<exists>k s. send_loop bytes w = (if k = length bytes then 0 else - 1, w\<lparr>tx := s, wire := wire w @ take k bytes\<rparr>) \<and>
     k \<le> length bytes"
proof (induction bytes w rule: send_loop.induct)
  case (1 bytes w)
  have self: "\<exists>s. w = w\<lparr>tx := s\<rparr>" by (intro exI[of _ "tx w"]) simp
  show ?case
  proof (cases "bytes = []")
    case True
    with self show ?thesis by (auto simp: send_loop.simps[of "[]"])
  next
    case False
    obtain res w' where sys: "sys_send bytes w = (res, w')" by fastforce
    show ?thesis
    proof (cases res)
      case (Inl e)
      with sys have w': "\<exists>s. w' = w\<lparr>tx := s\<rparr>" by (auto simp: sys_send_def split: list.splits tx_event.splits)
      show ?thesis
      proof (cases "e = EINTR")
        case True
        from w' obtain s' where w': "w' = w\<lparr>tx := s'\<rparr>" ..
        have "send_loop bytes w = send_loop bytes w'"
          using True Inl sys False by (subst send_loop.simps) simp
        moreover obtain k s where
          "send_loop bytes w' = (if k = length bytes then 0 else - 1, w'\<lparr>tx := s, wire := wire w' @ take k bytes\<rparr>)"
          "k \<le> length bytes" using 1(1)[OF False sys[symmetric] Inl True] by blast
        ultimately show ?thesis unfolding w' by (intro exI[of _ k] exI[of _ s]) simp
      next
        case ne: False
        with w' Inl sys False show ?thesis
          by (subst send_loop.simps) (auto intro!: exI[of _ 0])
      qed
    next
      case (Inr n)
      with sys have w': "\<exists>s. w' = w\<lparr>tx := s, wire := wire w @ take n bytes\<rparr>" and n: "n \<le> length bytes"
        using sys_send_Inr by blast+
      show ?thesis
      proof (cases "n = 0")
        case True
        with w' Inr sys False show ?thesis
          by (subst send_loop.simps) (auto intro!: exI[of _ 0])
      next
        case pos: False
        from 1(2)[OF False sys[symmetric] Inr pos] obtain k s where
          "send_loop (drop n bytes) w' =
             (if k = length bytes - n then 0 else - 1, w'\<lparr>tx := s, wire := wire w' @ take k (drop n bytes)\<rparr>)"
          "k \<le> length bytes - n" by auto
        with w' n Inr sys False pos show ?thesis
          by (subst send_loop.simps) (auto simp: take_add[symmetric] intro!: exI[of _ "n + k"] exI[of _ s])
      qed
    qed
  qed
qed

lemma send_loop_ok: "tx w = [] \<Longrightarrow> send_loop bytes w = (0, w\<lparr>wire := wire w @ bytes\<rparr>)"
  by (simp add: send_loop.simps[of bytes] send_loop.simps[of "[]"] sys_send_def)

text \<open>Receiving uses up the script: a measure for the loops that read one frame after the other.\<close>

fun rx_weight :: "rx_event list \<Rightarrow> nat" where
  "rx_weight [] = 0"
| "rx_weight (Seg b bs # r) = 2 + length bs + rx_weight r"
| "rx_weight (e # r) = 1 + rx_weight r"

lemma sys_recv_weight:
  assumes "sys_recv n w = Some (res, w')"
  shows "rx_weight (rx w') + (case res of Inl e \<Rightarrow> 0 | Inr bs \<Rightarrow> length bs) \<le> rx_weight (rx w)"
proof (cases "rx w")
  case (Cons e r)
  show ?thesis
  proof (cases e)
    case (Seg b bs)
    have "length (drop n (b # bs)) = Suc (length bs) - n" by simp
    then show ?thesis using assms Cons Seg
      by (cases "drop n (b # bs)") (auto simp: sys_recv_def simp del: length_drop)
  qed (use assms Cons in \<open>auto simp: sys_recv_def\<close>)
qed (use assms in \<open>auto simp: sys_recv_def split: if_splits\<close>)

lemma recv_loop_weight:
  "recv_loop code buf off len w = Some (0, buf', w') \<Longrightarrow> (\<And>e. code e \<noteq> 0) \<Longrightarrow>
   rx_weight (rx w') + len \<le> rx_weight (rx w)"
proof (induction code buf off len w rule: recv_loop.induct)
  case (1 code buf off len w)
  show ?case
  proof (cases "len = 0")
    case True
    then show ?thesis using "1.prems" by (simp add: recv_loop.simps)
  next
    case False
    then obtain res w1 where sys: "sys_recv len w = Some (res, w1)"
      using "1.prems"(1) recv_loop.simps[of code buf off len w] by (auto split: option.splits)
    note le = sys_recv_weight[OF sys]
    show ?thesis
    proof (cases res)
      case (Inl e)
      then have "e = EINTR \<and> recv_loop code buf off len w1 = Some (0, buf', w')"
        using "1.prems" False sys recv_loop.simps[of code buf off len w] by (auto split: if_splits)
      then show ?thesis using "1.IH"(1)[OF False sys refl Inl] "1.prems"(2) Inl le by simp
    next
      case (Inr bs)
      then obtain buf1 where "bs \<noteq> []" "memcpy_to buf off bs (length bs) = Some buf1"
        "recv_loop code buf1 (off + length bs) (len - length bs) w1 = Some (0, buf', w')"
        using "1.prems"(1) False sys recv_loop.simps[of code buf off len w] by (auto split: if_splits option.splits)
      then show ?thesis using "1.IH"(2)[OF False sys refl Inr] "1.prems"(2) Inr le by simp
    qed
  qed
qed

end
