(* ===== verification/Tcp_Server.thy ===== *)
theory Tcp_Server
  imports Pdu_Client Tcp_Frame Sock_Io
begin

text \<open>
  The TCP server, \<^verbatim>\<open>src/src/modbus_tcp_server.c\<close>: one call of \<open>server_on_process\<close> receives a
  request from a connected socket, dispatches it through the PDU layer and sends the response.
  Logging has no effect on the protocol and is left out. The application state (the object
  \<open>userdata\<close> points to) is threaded through explicitly.
\<close>

section \<open>Configuration\<close>

abbreviation (input) MB_TCP_SERVER_UNIT_ID_ANY :: u8 where "MB_TCP_SERVER_UNIT_ID_ANY \<equiv> 0xFF"
abbreviation (input) MB_TCP_SERVER_DEFAULT_RECV_TIMEOUT_MS :: u32 where
  "MB_TCP_SERVER_DEFAULT_RECV_TIMEOUT_MS \<equiv> 5000"

abbreviation (input) ADU_OFFSET_PROTO_HIGH :: nat where "ADU_OFFSET_PROTO_HIGH \<equiv> 2"
abbreviation (input) ADU_OFFSET_PROTO_LOW :: nat where "ADU_OFFSET_PROTO_LOW \<equiv> 3"
abbreviation (input) ADU_OFFSET_LEN_HIGH :: nat where "ADU_OFFSET_LEN_HIGH \<equiv> 4"
abbreviation (input) ADU_OFFSET_LEN_LOW :: nat where "ADU_OFFSET_LEN_LOW \<equiv> 5"
abbreviation (input) ADU_OFFSET_UNIT_ID :: nat where "ADU_OFFSET_UNIT_ID \<equiv> 6"
abbreviation (input) ADU_OFFSET_PDU :: nat where "ADU_OFFSET_PDU \<equiv> 7"

record 'u mb_tcp_server_config =
  srv_port :: u16
  srv_unit_id :: u8
  srv_max_clients :: u16
  srv_recv_timeout_ms :: u32
  srv_keepalive_idle_sec :: u32
  srv_keepalive_interval_sec :: u32
  srv_keepalive_count :: u32
  srv_idle_poll_ms :: u32
  srv_handlers :: "'u mb_pdu_handlers"

text \<open>
  The four callback fields \<open>on_read\<close>, \<open>on_write\<close>, \<open>on_read_bits\<close> and \<open>on_write_bits\<close> are kept as
  the handler table that the code builds from them for every request.
\<close>

definition mb_tcp_server_config_init :: "'u mb_tcp_server_config option \<Rightarrow> 'u mb_tcp_server_config option" where
  "mb_tcp_server_config_init c =
     (case c of
        None \<Rightarrow> None
      | Some _ \<Rightarrow> Some
          \<lparr>srv_port = 0, srv_unit_id = 0, srv_max_clients = 0,
           srv_recv_timeout_ms = MB_TCP_SERVER_DEFAULT_RECV_TIMEOUT_MS,
           srv_keepalive_idle_sec = 0, srv_keepalive_interval_sec = 0, srv_keepalive_count = 0,
           srv_idle_poll_ms = 0,
           srv_handlers = \<lparr>read_registers = None, write_registers = None, read_bits = None, write_bits = None\<rparr>\<rparr>)"

section \<open>One request\<close>

definition srv_recv_exact :: "u8 list \<Rightarrow> nat \<Rightarrow> nat \<Rightarrow> sock \<Rightarrow> (c_int \<times> u8 list \<times> sock) option" where
  "srv_recv_exact buf off len w = recv_loop (\<lambda>_. - 1) buf off len w"

definition server_on_process ::
    "stack \<Rightarrow> 'u mb_tcp_server_config \<Rightarrow> 'u \<Rightarrow> sock \<Rightarrow> (c_int \<times> 'u \<times> sock) option" where
  "server_on_process J scfg u w = do {
     let adu = local8 J MODBUS_TCP_MAX_ADU_LENGTH;
     let resp = local8 (stack_above 260 J) MODBUS_TCP_MAX_ADU_LENGTH;
     (rc, adu, w) \<leftarrow> srv_recv_exact adu 0 MODBUS_TCP_MBAP_HEADER_LEN w;
     if rc < 0 then Some (- 1, u, w)
     else do {
       l1 \<leftarrow> rd adu ADU_OFFSET_LEN_HIGH;
       l0 \<leftarrow> rd adu ADU_OFFSET_LEN_LOW;
       let mbap_remaining = (push_bit 8 (ucast l1) OR ucast l0 :: u16);
       if mbap_remaining < 2 \<or>
          unat mbap_remaining > MODBUS_TCP_MAX_ADU_LENGTH - MODBUS_TCP_MBAP_HEADER_LEN then Some (- 1, u, w)
       else do {
         (rc, adu, w) \<leftarrow> srv_recv_exact adu MODBUS_TCP_MBAP_HEADER_LEN (unat mbap_remaining) w;
         if rc < 0 then Some (- 1, u, w)
         else do {
           unit_id \<leftarrow> rd adu ADU_OFFSET_UNIT_ID;
           p1 \<leftarrow> rd adu ADU_OFFSET_PROTO_HIGH;
           p0 \<leftarrow> rd adu ADU_OFFSET_PROTO_LOW;
           if p1 \<noteq> 0 \<or> p0 \<noteq> 0 then Some (0, u, w)
           else if srv_unit_id scfg \<noteq> MB_TCP_SERVER_UNIT_ID_ANY \<and> unit_id \<noteq> srv_unit_id scfg then Some (0, u, w)
           else do {
             let pdu_len = unat mbap_remaining - 1;
             ((resp_pdu_len, u), resp) \<leftarrow> call_at ADU_OFFSET_PDU
               (mb_pdu_handle_request (stack_above 520 J) (srv_handlers scfg) u (ptr adu ADU_OFFSET_PDU) pdu_len) resp;
             let resp_mbap_len = (of_nat (1 + resp_pdu_len) :: u16);
             resp \<leftarrow> memcpy_to resp 0 adu ADU_OFFSET_LEN_HIGH;
             resp \<leftarrow> wr resp ADU_OFFSET_LEN_HIGH (ucast (drop_bit 8 resp_mbap_len));
             resp \<leftarrow> wr resp ADU_OFFSET_LEN_LOW (ucast (resp_mbap_len AND 0xFF));
             resp \<leftarrow> wr resp ADU_OFFSET_UNIT_ID unit_id;
             (rc, w) \<leftarrow> mb_tcp_send_all resp (ADU_OFFSET_PDU + resp_pdu_len) w;
             Some (if rc \<noteq> 0 then - 1 else 0, u, w) } } } } }"

text \<open>Consecutive calls on one socket, as the listener thread makes them while data is there.\<close>

primrec server_calls ::
    "nat \<Rightarrow> stack \<Rightarrow> 'u mb_tcp_server_config \<Rightarrow> 'u \<Rightarrow> sock \<Rightarrow> (c_int \<times> 'u \<times> sock) option" where
  "server_calls 0 J scfg u w = Some (0, u, w)"
| "server_calls (Suc n) J scfg u w = do {
     (rc, u, w) \<leftarrow> server_on_process J scfg u w;
     if rc < 0 then Some (rc, u, w) else server_calls n J scfg u w }"

section \<open>Receiving a frame\<close>

definition accepts_unit :: "'u mb_tcp_server_config \<Rightarrow> u8 \<Rightarrow> bool" where
  "accepts_unit scfg uid \<longleftrightarrow> srv_unit_id scfg = 0xFF \<or> uid = srv_unit_id scfg"

text \<open>The call after the frame arrived: everything from the dispatch on.\<close>

definition respond ::
    "stack \<Rightarrow> 'u mb_tcp_server_config \<Rightarrow> 'u \<Rightarrow> u8 list \<Rightarrow> u8 \<Rightarrow> u8 list \<Rightarrow> nat \<Rightarrow> sock \<Rightarrow>
     (c_int \<times> 'u \<times> sock) option" where
  "respond J scfg u tid2 uid pdu n w = do {
     ((m, u), rest) \<leftarrow> mb_pdu_handle_request (stack_above 520 J) (srv_handlers scfg) u pdu n
       (drop 7 (local8 (stack_above 260 J) 260));
     (rc, w) \<leftarrow> mb_tcp_send_all (tid2 @ [0, 0] @ be16 (of_nat (1 + m)) @ uid # rest) (7 + m) w;
     Some (if rc \<noteq> 0 then - 1 else 0, u, w) }"

lemma Suc_7: "Suc (Suc (Suc (Suc (Suc (Suc (Suc n)))))) = 7 + n"
  by simp

lemma frame_response:
  assumes "7 \<le> length resp" and "4 \<le> length adu"
  shows "do { ((k, u), resp) \<leftarrow> call_at 7 f resp;
      resp \<leftarrow> memcpy_to resp 0 adu 4; resp \<leftarrow> wr resp 4 (x k); resp \<leftarrow> wr resp 5 (y k); resp \<leftarrow> wr resp 6 uid;
      G k u resp } =
    do { ((k, u), rest) \<leftarrow> f (drop 7 resp); G k u (take 4 adu @ [x k, y k, uid] @ rest) }"
proof (cases "f (drop 7 resp)")
  case None
  then show ?thesis using assms by (simp add: call_at_def)
next
  case (Some res)
  obtain k u' rest where "res = ((k, u'), rest)" by (metis prod.exhaust)
  with Some assms show ?thesis by (simp add: call_at_def buf_simps) (simp add: blit_def)
qed

lemma server_on_process_frame:
  assumes bytes: "rx_bytes (rx w) = mbap_frame tid2 proto2 uid pdu @ tl2"
    and "length tid2 = 2" and "length proto2 = 2" and pdu: "1 \<le> length pdu" "length pdu \<le> 253"
  shows "server_on_process J scfg u w =
    (let w' = w\<lparr>rx := rx_drop (7 + length pdu) (rx w)\<rparr> in
     if proto2 \<noteq> [0, 0] \<or> \<not> accepts_unit scfg uid then Some (0, u, w')
     else respond J scfg u tid2 uid (pdu @ drop (7 + length pdu) (local8 J 260)) (length pdu) w')"
proof -
  obtain t1 t0 p1 p0 where tp: "tid2 = [t1, t0]" "proto2 = [p1, p0]" using assms(2,3) by (metis list2_cases)
  define m :: u16 where "m = of_nat (1 + length pdu)"
  have m: "unat m = 1 + length pdu" unfolding m_def using pdu by (intro unat_of_nat_u16) simp
  obtain l1 l0 where l: "be16 m = [l1, l0]" "of_be16 l1 l0 = m" by (simp add: be16_def)
  have frame: "mbap_frame tid2 proto2 uid pdu = t1 # t0 # p1 # p0 # l1 # l0 # uid # pdu"
    unfolding mbap_frame_def m_def[symmetric] using l(1) by (simp add: tp)
  let ?w1 = "w\<lparr>rx := rx_drop 6 (rx w)\<rparr>" and ?w2 = "w\<lparr>rx := rx_drop (7 + length pdu) (rx w)\<rparr>"
  let ?b1 = "blit (local8 J 260) 0 [t1, t0, p1, p0, l1, l0]"
  let ?b2 = "blit (local8 J 260) 0 (mbap_frame tid2 proto2 uid pdu)"
  have len: "7 + length pdu \<le> length (rx_bytes (rx w))" using assms by simp
  have r1: "srv_recv_exact (local8 J 260) 0 6 w = Some (0, ?b1, ?w1)"
    using recv_loop_ok[of 6 w 0 "local8 J 260"] bytes frame by (simp add: srv_recv_exact_def)
  have "rx_bytes (rx ?w1) = uid # pdu @ tl2" using len bytes frame by (simp add: rx_bytes_drop)
  moreover have "blit ?b1 6 (uid # pdu) = ?b2" using pdu by (simp add: blit_append frame)
  moreover have "rx_drop (1 + length pdu) (rx_drop 6 (rx w)) = rx_drop (7 + length pdu) (rx w)"
    using len by (simp add: rx_drop_add)
  ultimately have r2: "srv_recv_exact ?b1 6 (unat m) ?w1 = Some (0, ?b2, ?w2)"
    using recv_loop_ok[of "1 + length pdu" ?w1 6 ?b1] pdu by (simp add: srv_recv_exact_def m)
  have m_range: "\<not> m < 2" "\<not> unat m > 254" using m pdu by (auto simp: word_less_nat_alt)
  have b2: "?b2 = t1 # t0 # p1 # p0 # l1 # l0 # uid # pdu @ drop (7 + length pdu) (local8 J 260)"
    by (simp add: blit_def frame Suc_7)
  have rd: "rd ?b1 4 = Some l1" "rd ?b1 5 = Some l0" "rd ?b2 6 = Some uid" "rd ?b2 2 = Some p1" "rd ?b2 3 = Some p0"
    "ptr ?b2 7 = pdu @ drop (7 + length pdu) (local8 J 260)"
    by (simp_all add: b2) (simp_all add: blit_def)
  let ?resp = "local8 (stack_above 260 J) 260"
  have resp7: "7 \<le> length ?resp" by simp
  have take_b2: "take 4 ?b2 = [t1, t0, p1, p0]" "4 \<le> length ?b2" by (simp_all only: b2) simp_all
  have m1: "unat m - Suc 0 = length pdu" using m by simp
  have pz: "proto2 = [0, 0] \<longleftrightarrow> p1 = 0 \<and> p0 = 0" by (simp add: tp)
  note steps = server_on_process_def Let_def r1 r2 rd of_be16_def[symmetric] l(2) m_range accepts_unit_def
  show ?thesis
  proof (cases "proto2 = [0, 0] \<and> accepts_unit scfg uid")
    case False
    then show ?thesis by (auto simp: steps pz)
  next
    case True
    then have p: "p1 = 0" "p0 = 0" "\<not> (srv_unit_id scfg \<noteq> 0xFF \<and> uid \<noteq> srv_unit_id scfg)" "proto2 = [0, 0]"
      by (auto simp: pz accepts_unit_def)
    have "server_on_process J scfg u w =
        do { ((k, u), resp) \<leftarrow> call_at 7 (mb_pdu_handle_request (stack_above 520 J) (srv_handlers scfg) u
               (pdu @ drop (7 + length pdu) (local8 J 260)) (length pdu)) ?resp;
          resp \<leftarrow> memcpy_to resp 0 ?b2 4; resp \<leftarrow> wr resp 4 (ucast (drop_bit 8 (of_nat (1 + k) :: u16)));
          resp \<leftarrow> wr resp 5 (ucast ((of_nat (1 + k) :: u16) AND 0xFF)); resp \<leftarrow> wr resp 6 uid;
          (rc, w) \<leftarrow> mb_tcp_send_all resp (7 + k) ?w2;
          Some (if rc \<noteq> 0 then - 1 else 0, u, w) }"
      by (simp add: steps m1 p(3) del: of_nat_add of_nat_Suc) (simp add: p(1,2))
    also note frame_response[OF resp7 take_b2(2), unfolded take_b2(1), where uid = uid and G = "\<lambda>k u resp. do { (rc, w) \<leftarrow> mb_tcp_send_all resp (7 + k) ?w2;
          Some (if rc \<noteq> 0 then - 1 else 0, u, w) }"
        and x = "\<lambda>k. ucast (drop_bit 8 (of_nat (1 + k) :: u16))" and y = "\<lambda>k. ucast ((of_nat (1 + k) :: u16) AND 0xFF)"]
    finally show ?thesis using True by (simp add: respond_def be16_def tp p(1,2))
  qed
qed

section \<open>Answering a frame\<close>

lemma respond_serve:
  assumes "device_ok I (srv_handlers scfg) d" and "I u" and "1 \<le> n" and "n \<le> length pdu" and "length tid2 = 2"
  shows "respond J scfg u tid2 uid pdu n w =
    (case serve d u (take n pdu) of (r, u') \<Rightarrow>
       case send_loop (mbap_frame tid2 [0, 0] uid (reply_pdu r)) w of (rc, w') \<Rightarrow>
         Some (if rc \<noteq> 0 then - 1 else 0, u', w'))"
proof -
  obtain r u' where serve: "serve d u (take n pdu) = (r, u')" by fastforce
  let ?rest = "drop 7 (local8 (stack_above 260 J) 260)"
  have "mb_pdu_handle_request (stack_above 520 J) (srv_handlers scfg) u pdu n ?rest =
      Some ((length (reply_pdu r), u'), blit ?rest 0 (reply_pdu r))"
    using handle_request_serve[OF assms(1-4), of ?rest "stack_above 520 J"] serve by (simp add: yields_def)
  moreover have "tid2 @ [0, 0] @ be16 (of_nat (1 + length (reply_pdu r))) @ uid # blit ?rest 0 (reply_pdu r) =
      mbap_frame tid2 [0, 0] uid (reply_pdu r) @ drop (length (reply_pdu r)) ?rest"
    by (simp add: mbap_frame_def blit_def)
  then have "mb_tcp_send_all (tid2 @ [0, 0] @ be16 (of_nat (1 + length (reply_pdu r))) @ uid # blit ?rest 0 (reply_pdu r))
      (7 + length (reply_pdu r)) w = Some (send_loop (mbap_frame tid2 [0, 0] uid (reply_pdu r)) w)"
    using assms(5) by (simp only: mb_tcp_send_all_def) simp
  ultimately show ?thesis using serve by (simp add: respond_def split_beta)
qed

section \<open>Every script\<close>

lemma stop_code_timeout: "rcvtimeo w \<Longrightarrow> stop_code (\<lambda>_. - 1) w = Some (- 1)"
  by (auto simp: stop_code_def split: option.split rx_event.split)

lemma srv_recv_short:
  assumes "rcvtimeo w" and "length (rx_bytes (rx w)) < len" and "off + len \<le> length buf"
  shows "\<exists>r buf'. srv_recv_exact buf off len w = Some (- 1, buf', w\<lparr>rx := r\<rparr>)"
  using recv_loop_short[OF assms(2,3), of "\<lambda>_. - 1"] stop_code_timeout[OF assms(1)]
  by (auto simp: srv_recv_exact_def)

lemma server_on_process_cases:
  assumes to: "rcvtimeo w"
  shows "(\<exists>r. server_on_process J scfg u w = Some (- 1, u, w\<lparr>rx := r\<rparr>)) \<or>
    (\<exists>tid2 proto2 uid pdu tl2. length tid2 = 2 \<and> length proto2 = 2 \<and> 1 \<le> length pdu \<and> length pdu \<le> 253 \<and>
       rx_bytes (rx w) = mbap_frame tid2 proto2 uid pdu @ tl2)"
proof (cases "length (rx_bytes (rx w)) < 6")
  case True
  from srv_recv_short[OF to True, of 0 "local8 J 260"] obtain r buf' where
    "srv_recv_exact (local8 J 260) 0 6 w = Some (- 1, buf', w\<lparr>rx := r\<rparr>)" by auto
  then show ?thesis by (simp add: server_on_process_def) blast
next
  case six: False
  let ?bs = "rx_bytes (rx w)"
  let ?m = "of_be16 (?bs ! 4) (?bs ! 5)"
  let ?b1 = "blit (local8 J 260) 0 (take 6 ?bs)" and ?w1 = "w\<lparr>rx := rx_drop 6 (rx w)\<rparr>"
  have r1: "srv_recv_exact (local8 J 260) 0 6 w = Some (0, ?b1, ?w1)"
    using recv_loop_ok[of 6 w 0 "local8 J 260"] six by (simp add: srv_recv_exact_def)
  have rd1: "rd ?b1 4 = Some (?bs ! 4)" "rd ?b1 5 = Some (?bs ! 5)"
    using six by (simp_all add: rd_def nth_blit)
  show ?thesis
  proof (cases "2 \<le> unat ?m \<and> unat ?m \<le> 254")
    case False
    then have "?m < 2 \<or> unat ?m > 254" by (auto simp: word_less_nat_alt)
    then show ?thesis
      by (simp add: server_on_process_def r1 rd1 of_be16_def[symmetric] Let_def) blast
  next
    case True
    show ?thesis
    proof (cases "6 + unat ?m \<le> length ?bs")
      case enough: True
      let ?pdu = "take (unat ?m - 1) (drop 7 ?bs)"
      have "length (take 2 ?bs) = 2" "length (take 2 (drop 2 ?bs)) = 2" "1 \<le> length ?pdu" "length ?pdu \<le> 253"
        using True enough by (auto simp: min_def)
      moreover have one: "1 \<le> unat ?m" using True by simp
      ultimately show ?thesis using mbap_split[OF one enough] by blast
    next
      case False
      then have "length (rx_bytes (rx ?w1)) < unat ?m" using six by (simp add: rx_bytes_drop)
      from srv_recv_short[OF _ this, of 6 ?b1] obtain r buf' where
        r2: "srv_recv_exact ?b1 6 (unat ?m) ?w1 = Some (- 1, buf', w\<lparr>rx := r\<rparr>)"
        using to True six by auto
      have "\<not> ?m < 2" "\<not> unat ?m > 254" using True by (auto simp: word_less_nat_alt)
      then show ?thesis
        by (simp add: server_on_process_def r1 rd1 of_be16_def[symmetric] r2 Let_def) blast
    qed
  qed
qed

lemma respond_total:
  assumes "keeps_arrays (srv_handlers scfg)" and "1 \<le> n" and "n \<le> length pdu" and "length tid2 = 2"
  shows "\<exists>u' k rpdu s. respond J scfg u tid2 uid pdu n w =
      Some (if k = 7 + length rpdu then 0 else - 1, u',
        w\<lparr>tx := s, wire := wire w @ take k (mbap_frame tid2 [0, 0] uid rpdu)\<rparr>) \<and>
    k \<le> 7 + length rpdu \<and> 2 \<le> length rpdu \<and> length rpdu \<le> 252 \<and>
    (hd rpdu = pdu ! 0 \<or> hd rpdu = pdu ! 0 OR 0x80 \<and> length rpdu = 2)"
proof -
  let ?rest = "drop 7 (local8 (stack_above 260 J) 260)"
  obtain rpdu u' where h: "mb_pdu_handle_request (stack_above 520 J) (srv_handlers scfg) u pdu n ?rest =
      Some ((length rpdu, u'), blit ?rest 0 rpdu)"
    and rpdu: "length rpdu \<le> 252" "2 \<le> length rpdu" "hd rpdu = pdu ! 0 \<or> hd rpdu = pdu ! 0 OR 0x80 \<and> length rpdu = 2"
    using handle_request_stores[OF assms(1-3), of ?rest "stack_above 520 J" u] by (auto simp: stores_reply_def)
  let ?f = "mbap_frame tid2 [0, 0] uid rpdu"
  have "tid2 @ [0, 0] @ be16 (of_nat (1 + length rpdu)) @ uid # blit ?rest 0 rpdu = ?f @ drop (length rpdu) ?rest"
    by (simp add: mbap_frame_def blit_def)
  then have send: "mb_tcp_send_all (tid2 @ [0, 0] @ be16 (of_nat (1 + length rpdu)) @ uid # blit ?rest 0 rpdu)
      (7 + length rpdu) w = Some (send_loop ?f w)"
    using assms(4) by (simp only: mb_tcp_send_all_def) simp
  obtain k s where "send_loop ?f w = (if k = length ?f then 0 else - 1, w\<lparr>tx := s, wire := wire w @ take k ?f\<rparr>)"
    "k \<le> length ?f" using send_loop_wire[of ?f w] by blast
  then show ?thesis using h rpdu send assms(4)
    by (intro exI[of _ u'] exI[of _ k] exI[of _ rpdu] exI[of _ s]) (simp add: respond_def)
qed

lemma tcp_server_answers_step:
  assumes "device_ok I (srv_handlers scfg) d" and "I u"
    and "rx_bytes (rx w) = tcp_adu t uid pdu @ later" and "1 \<le> length pdu" and "length pdu \<le> 253"
    and "accepts_unit scfg uid" and "tx w = []"
  shows "\<exists>r. server_on_process J scfg u w =
      (case serve d u pdu of (reply, u') \<Rightarrow>
         Some (0, u', w\<lparr>rx := r, wire := wire w @ tcp_adu t uid (reply_pdu reply)\<rparr>)) \<and>
    rx_bytes r = later \<and> rx_stop r = rx_stop (rx w)"
proof -
  let ?r = "rx_drop (7 + length pdu) (rx w)"
  have "server_on_process J scfg u w = respond J scfg u (be16 t) uid (pdu @ drop (7 + length pdu) (local8 J 260))
      (length pdu) (w\<lparr>rx := ?r\<rparr>)"
    using server_on_process_frame[of w "be16 t" "[0, 0]" uid pdu later J scfg u] assms(3-6)
    by (simp add: tcp_adu_mbap Let_def)
  then show ?thesis
    using respond_serve[OF assms(1,2,4), of "pdu @ drop (7 + length pdu) (local8 J 260)" "be16 t" J uid "w\<lparr>rx := ?r\<rparr>"]
      assms(3,7) rx_bytes_drop[of "7 + length pdu" "rx w"] rx_stop_drop[of "7 + length pdu" "rx w"]
    by (intro exI[of _ ?r]) (simp add: send_loop_ok tcp_adu_mbap split: prod.split)
qed

text \<open>What one call comes to, whatever arrives.\<close>

lemma server_on_process_total:
  assumes "rcvtimeo w" and "keeps_arrays (srv_handlers scfg)"
  shows "\<exists>rc u' r s out. server_on_process J scfg u w = Some (rc, u', w\<lparr>rx := r, tx := s, wire := wire w @ out\<rparr>) \<and>
    (rc = - 1 \<or>
     rc = 0 \<and> (\<exists>tid2 proto2 uid pdu. length tid2 = 2 \<and> length proto2 = 2 \<and>
       rx_bytes (rx w) = mbap_frame tid2 proto2 uid pdu @ rx_bytes r \<and>
       (out = [] \<or> (\<exists>rpdu. out = mbap_frame tid2 [0, 0] uid rpdu \<and> 2 \<le> length rpdu \<and> length rpdu \<le> 252 \<and>
          (hd rpdu = hd pdu \<or> hd rpdu = hd pdu OR MODBUS_EXCEPTION_FLAG \<and> length rpdu = 2)))))"
proof -
  from server_on_process_cases[OF assms(1), of J scfg u] show ?thesis
  proof (elim disjE exE conjE)
    fix r assume "server_on_process J scfg u w = Some (- 1, u, w\<lparr>rx := r\<rparr>)"
    then have "server_on_process J scfg u w = Some (- 1, u, w\<lparr>rx := r, tx := tx w, wire := wire w @ []\<rparr>)" by simp
    then show ?thesis by blast
  next
    fix tid2 proto2 uid pdu tl2
    assume len: "length tid2 = 2" "length proto2 = 2" "1 \<le> length pdu" "length pdu \<le> 253"
      and bytes: "rx_bytes (rx w) = mbap_frame tid2 proto2 uid pdu @ tl2"
    let ?r = "rx_drop (7 + length pdu) (rx w)"
    have drop: "rx_bytes ?r = tl2" using rx_bytes_drop[of "7 + length pdu" "rx w"] bytes len by simp
    note call = server_on_process_frame[OF bytes len, of J scfg u]
    show ?thesis
    proof (cases "proto2 \<noteq> [0, 0] \<or> \<not> accepts_unit scfg uid")
      case True
      then have "server_on_process J scfg u w = Some (0, u, w\<lparr>rx := ?r, tx := tx w, wire := wire w @ []\<rparr>)"
        using call by (simp add: Let_def)
      then show ?thesis using len bytes drop by blast
    next
      case False
      let ?pdu = "pdu @ drop (7 + length pdu) (local8 J 260)"
      have hd: "?pdu ! 0 = hd pdu" using len(3) by (cases pdu) auto
      obtain u' k rpdu s where resp: "server_on_process J scfg u w =
          Some (if k = 7 + length rpdu then 0 else - 1, u',
            w\<lparr>rx := ?r, tx := s, wire := wire w @ take k (mbap_frame tid2 [0, 0] uid rpdu)\<rparr>)"
        and rpdu: "k \<le> 7 + length rpdu" "2 \<le> length rpdu" "length rpdu \<le> 252"
          "hd rpdu = hd pdu \<or> hd rpdu = hd pdu OR 0x80 \<and> length rpdu = 2"
        using respond_total[OF assms(2) len(3), of ?pdu tid2 J u uid "w\<lparr>rx := ?r\<rparr>"] False len call hd
        by (auto simp: Let_def)
      show ?thesis
      proof (cases "k = 7 + length rpdu")
        case True
        then have "take k (mbap_frame tid2 [0, 0] uid rpdu) = mbap_frame tid2 [0, 0] uid rpdu" using len by simp
        with True resp have "server_on_process J scfg u w =
            Some (0, u', w\<lparr>rx := ?r, tx := s, wire := wire w @ mbap_frame tid2 [0, 0] uid rpdu\<rparr>)" by simp
        then show ?thesis using rpdu(2-4) len bytes drop by blast
      next
        case ne: False
        with resp have "server_on_process J scfg u w =
            Some (- 1, u', w\<lparr>rx := ?r, tx := s, wire := wire w @ take k (mbap_frame tid2 [0, 0] uid rpdu)\<rparr>)" by simp
        then show ?thesis by blast
      qed
    qed
  qed
qed

end
