(* ===== verification/Tcp_Server_Properties.thy ===== *)
theory Tcp_Server_Properties
  imports Tcp_Server Register_Bank
begin

text \<open>
  The properties of the TCP server (\<^verbatim>\<open>src/src/modbus_tcp_server.c\<close>): a request is answered by the
  abstract server behind the same transaction identifier however the network cuts it up, requests
  on one connection are answered in order, foreign frames are skipped, and whatever arrives the
  call returns with the stream either at a frame boundary or to be closed.
\<close>

section \<open>Inputs of the instances\<close>

definition bank_server :: "server_app_ctx option mb_tcp_server_config" where
  "bank_server = \<lparr>srv_port = 502, srv_unit_id = 1, srv_max_clients = 0, srv_recv_timeout_ms = 5000,
     srv_keepalive_idle_sec = 0, srv_keepalive_interval_sec = 0, srv_keepalive_count = 0,
     srv_idle_poll_ms = 0, srv_handlers = bank_handlers\<rparr>"

definition bank_state :: "server_app_ctx option" where
  "bank_state = Some \<lparr>reg_bank = replicate 32 0\<rparr>"

definition socket :: "rx_event list \<Rightarrow> sock" where
  "socket evs = \<lparr>rx = evs, rcvtimeo = True, polls = [], tx = [], wire = [], clk = (\<lambda>_. (0, 0)),
     ticks = 0, open_fds = []\<rparr>"

lemma bank_state_ok: "bank_ok bank_state"
  by (simp add: bank_ok_def bank_state_def)

lemma bank_server_ok: "device_ok bank_ok (srv_handlers bank_server) bank_device"
  using bank.ok by (simp add: bank_server_def)

text \<open>A read of two registers at address 0 from unit 1, in two segments with an interrupted call between.\<close>

definition split_read :: "rx_event list" where
  "split_read = [Seg 0 [7, 0], RxErr EINTR, Seg 0 [0, 6, 1, 3, 0, 0, 0, 2]]"

lemma split_read_bytes: "rx_bytes split_read = tcp_adu 7 1 [3, 0, 0, 0, 2]"
  by (simp add: split_read_def tcp_adu_def be16_def)

lemma serve_bank_read: "serve bank_device bank_state [3, 0, 0, 0, 2] =
    (RegsReply 3 [253, 1], Some \<lparr>reg_bank = refresh (replicate 32 0)\<rparr>)"
proof -
  have "take 2 (refresh (replicate 32 0)) = [253, 1]"
    by (simp add: refresh_def numeral_2_eq_2 eval_nat_numeral)
  moreover have "of_be16 0 2 = 2" "of_be16 0 0 = 0" by (simp_all add: of_be16_def)
  ultimately show ?thesis
    by (simp add: serve_read_regs_def bank_device_def bank_read_def bank_state_def valid_qty_def in_range_def)
qed

section \<open>Answers\<close>

text \<open>
  C9. A complete request for the server's unit is answered: however its bytes are cut into
  segments and interrupted, one call takes exactly the bytes of the request off the stream, leaves
  the application in the state of the abstract server, and sends exactly the reply of the
  abstract server with the transaction and unit identifiers of the request.
\<close>

theorem tcp_server_answers:
  assumes "device_ok I (srv_handlers scfg) d" and "I u"
    and "rx_bytes (rx w) = tcp_adu t uid pdu @ later" and "1 \<le> length pdu" and "length pdu \<le> 253"
    and "accepts_unit scfg uid" and "tx w = []"
  shows "\<exists>r. server_on_process J scfg u w =
      (case serve d u pdu of (reply, u') \<Rightarrow>
         Some (0, u', w\<lparr>rx := r, wire := wire w @ tcp_adu t uid (reply_pdu reply)\<rparr>)) \<and>
    rx_bytes r = later \<and> rx_stop r = rx_stop (rx w)"
  using tcp_server_answers_step[OF assms] .

theorem tcp_server_answers_witness:
  "\<exists>r. server_on_process zero_stack bank_server bank_state (socket split_read) =
      Some (0, Some \<lparr>reg_bank = refresh (replicate 32 0)\<rparr>,
        (socket split_read)\<lparr>rx := r, wire := tcp_adu 7 1 [3, 4, 0, 253, 0, 1]\<rparr>) \<and>
    rx_bytes r = [] \<and> rx_stop r = None"
  using tcp_server_answers[OF bank_server_ok bank_state_ok, of "socket split_read" 7 1 "[3, 0, 0, 0, 2]" "[]" zero_stack]
    split_read_bytes serve_bank_read
  by (simp add: socket_def accepts_unit_def bank_server_def be16_def) (simp add: split_read_def)

text \<open>The requests waiting on a connection and the abstract server's answers to all of them.\<close>

type_synonym tcp_request = "u16 \<times> u8 \<times> u8 list"

definition requests_wire :: "tcp_request list \<Rightarrow> u8 list" where
  "requests_wire qs = concat (map (\<lambda>(t, uid, pdu). tcp_adu t uid pdu) qs)"

primrec serve_all :: "'u device \<Rightarrow> 'u \<Rightarrow> tcp_request list \<Rightarrow> u8 list \<times> 'u" where
  "serve_all d u [] = ([], u)"
| "serve_all d u (q # qs) =
     (case q of (t, uid, pdu) \<Rightarrow>
        case serve d u pdu of (r, u') \<Rightarrow>
          case serve_all d u' qs of (out, u'') \<Rightarrow> (tcp_adu t uid (reply_pdu r) @ out, u''))"

text \<open>
  Pipelined requests: when the stream of a connection holds any number of complete requests
  for the server's unit, cut into segments in any way, as many calls answer all of them in order,
  each with its own transaction identifier, every request seeing the effects of the ones before.
\<close>

theorem tcp_server_pipeline:
  assumes "device_ok I (srv_handlers scfg) d" and "I u"
    and "rx_bytes (rx w) = requests_wire qs @ later" and "tx w = []"
    and "\<forall>(t, uid, pdu) \<in> set qs. 1 \<le> length pdu \<and> length pdu \<le> 253 \<and> accepts_unit scfg uid"
  shows "\<exists>r. server_calls (length qs) J scfg u w =
      (case serve_all d u qs of (out, u') \<Rightarrow> Some (0, u', w\<lparr>rx := r, wire := wire w @ out\<rparr>)) \<and>
    rx_bytes r = later"
  using assms(2-5)
proof (induction qs arbitrary: u w)
  case Nil
  then show ?case by (intro exI[of _ "rx w"]) (simp add: requests_wire_def)
next
  case (Cons q qs)
  obtain t uid pdu where q: "q = (t, uid, pdu)" by (cases q)
  obtain reply u' where serve: "serve d u pdu = (reply, u')" by fastforce
  let ?w = "\<lambda>r. w\<lparr>rx := r, wire := wire w @ tcp_adu t uid (reply_pdu reply)\<rparr>"
  have ok: "1 \<le> length pdu" "length pdu \<le> 253" "accepts_unit scfg uid" using Cons.prems(4) q by auto
  have "rx_bytes (rx w) = tcp_adu t uid pdu @ requests_wire qs @ later"
    using Cons.prems(2) q by (simp add: requests_wire_def)
  from tcp_server_answers_step[OF assms(1) Cons.prems(1) this ok Cons.prems(3), of J]
  obtain r where r: "server_on_process J scfg u w = Some (0, u', ?w r)" "rx_bytes r = requests_wire qs @ later"
    using serve by auto
  have "I u'" using serve_keeps[OF assms(1) Cons.prems(1), of pdu] serve ok(1) by (cases pdu) auto
  with Cons.IH[of u' "?w r"] Cons.prems(3,4) r(2) obtain r' where
    "server_calls (length qs) J scfg u' (?w r) =
      (case serve_all d u' qs of (out, u'') \<Rightarrow> Some (0, u'', (?w r)\<lparr>rx := r', wire := wire (?w r) @ out\<rparr>))"
    "rx_bytes r' = later" by auto
  then show ?case using r q serve
    by (intro exI[of _ r']) (simp split: prod.split)
qed

theorem tcp_server_pipeline_witness:
  "\<exists>r. server_calls 2 zero_stack bank_server bank_state (socket (split_read @ split_read)) =
      (case serve_all bank_device bank_state [(7, 1, [3, 0, 0, 0, 2]), (7, 1, [3, 0, 0, 0, 2])] of
        (out, u') \<Rightarrow> Some (0, u', (socket (split_read @ split_read))\<lparr>rx := r, wire := out\<rparr>)) \<and>
    rx_bytes r = []"
proof -
  have "rx_bytes (split_read @ split_read) = tcp_adu 7 1 [3, 0, 0, 0, 2] @ tcp_adu 7 1 [3, 0, 0, 0, 2]"
    by (simp add: split_read_def tcp_adu_def be16_def)
  then show ?thesis
    using tcp_server_pipeline[OF bank_server_ok bank_state_ok, of "socket (split_read @ split_read)"
        "[(7, 1, [3, 0, 0, 0, 2]), (7, 1, [3, 0, 0, 0, 2])]" "[]" zero_stack]
    by (simp add: socket_def requests_wire_def accepts_unit_def bank_server_def numeral_2_eq_2)
qed

text \<open>
  Foreign frames are skipped: a frame with a protocol identifier other than 0, or for a unit
  the server does not serve, is taken off the stream whole, is not answered and does not reach
  the application, and the connection stays open.
\<close>

theorem tcp_server_skips_foreign:
  assumes "rx_bytes (rx w) = mbap_frame tid2 proto2 uid pdu @ later" and "length tid2 = 2" and "length proto2 = 2"
    and "1 \<le> length pdu" and "length pdu \<le> 253" and "proto2 \<noteq> [0, 0] \<or> \<not> accepts_unit scfg uid"
  shows "\<exists>r. server_on_process J scfg u w = Some (0, u, w\<lparr>rx := r\<rparr>) \<and> rx_bytes r = later"
  using server_on_process_frame[OF assms(1-5), of J scfg u] rx_bytes_drop[of "7 + length pdu" "rx w"] assms
  by (intro exI[of _ "rx_drop (7 + length pdu) (rx w)"]) (simp add: Let_def)

theorem tcp_server_skips_foreign_witness:
  "\<exists>r. server_on_process zero_stack bank_server bank_state (socket [Seg 0 [7, 0, 0, 0, 2, 9, 3]]) =
      Some (0, bank_state, (socket [Seg 0 [7, 0, 0, 0, 2, 9, 3]])\<lparr>rx := r\<rparr>) \<and> rx_bytes r = []"
proof -
  have "mbap_frame [0, 7] [0, 0] 9 [3] = [0, 7, 0, 0, 0, 2, 9, 3]" by (simp add: mbap_frame_def be16_def)
  then show ?thesis
    by (intro tcp_server_skips_foreign[of _ "[0, 7]" "[0, 0]" 9 "[3]" "[]"])
       (simp_all add: socket_def accepts_unit_def bank_server_def)
qed


lemma keeps_arrays_none: "keeps_arrays \<lparr>read_registers = None, write_registers = None, read_bits = None, write_bits = None\<rparr>"
  by (simp add: keeps_arrays_def)


end
