(* ===== verification/Tcp_Connect.thy ===== *)
theory Tcp_Connect
  imports Sock_Io
begin

text \<open>
  Opening and closing a client connection: \<open>mb_tcp_connect\<close> and \<open>mb_tcp_close\<close> of
  \<^verbatim>\<open>src/src/modbus_tcp.c\<close>. How the calls of the operating system end is a script again: the
  descriptor \<open>socket\<close> returns, which options are granted, whether the address is an IPv4
  address, and how \<open>connect\<close>, \<open>select\<close> and the pending socket error come out. \<open>FD_SET\<close> on a
  descriptor from \<open>FD_SETSIZE\<close> on writes outside the set, which has no defined outcome (\<open>None\<close>).
\<close>

section \<open>The operating system\<close>

abbreviation (input) FD_SETSIZE :: c_int where "FD_SETSIZE \<equiv> 1024"

datatype sockopt = SO_SNDTIMEO | SO_RCVTIMEO | SO_BINDTODEVICE | SO_REUSEADDR
datatype connect_event = ConnDone | ConnInProgress | ConnFailed

record dial =
  d_mutex :: c_int
  d_socket :: c_int
  d_sockopt :: "sockopt \<Rightarrow> bool"
  d_pton :: "string \<Rightarrow> bool"
  d_connect :: "string \<Rightarrow> u16 \<Rightarrow> connect_event"
  d_select :: c_int
  d_so_error :: c_int
  d_response_tmo :: bool

section \<open>Connecting and closing\<close>

definition sys_close :: "c_int \<Rightarrow> sock \<Rightarrow> sock" where
  "sys_close fd w = w\<lparr>open_fds := remove1 fd (open_fds w)\<rparr>"

definition mb_tcp_connect ::
    "dial \<Rightarrow> c_int option \<Rightarrow> string option \<Rightarrow> string option \<Rightarrow> u16 \<Rightarrow> u32 \<Rightarrow> sock \<Rightarrow>
     (c_int \<times> c_int option \<times> sock) option" where
  "mb_tcp_connect D sock_out bind_iface remote_host port timeout_sec w =
     (if sock_out = None \<or> remote_host = None \<or> remote_host = Some [] \<or> port = 0 then Some (- 22, sock_out, w)
      else
        let timeout_sec = (if timeout_sec = 0 then 5 else timeout_sec);
            fd = d_socket D;
            opened = w\<lparr>open_fds := fd # open_fds w\<rparr>;
            timed = opened\<lparr>rcvtimeo := (timeout_sec \<noteq> 0)\<rparr>
        in
          if fd < 0 then Some (- 1, Some fd, w)
          else if \<not> d_sockopt D SO_SNDTIMEO then Some (- 1, Some (- 1), sys_close fd opened)
          else if \<not> d_sockopt D SO_RCVTIMEO then Some (- 1, Some (- 1), sys_close fd opened)
          else if bind_iface \<noteq> None \<and> bind_iface \<noteq> Some [] \<and> \<not> d_sockopt D SO_BINDTODEVICE then
            Some (- 1, Some (- 1), sys_close fd timed)
          else if \<not> d_sockopt D SO_REUSEADDR then Some (- 1, Some (- 1), sys_close fd timed)
          else if \<not> d_pton D (the remote_host) then Some (- 1, Some (- 1), sys_close fd timed)
          else case d_connect D (the remote_host) port of
                 ConnDone \<Rightarrow> Some (0, Some fd, timed)
               | ConnFailed \<Rightarrow> Some (- 1, Some (- 1), sys_close fd timed)
               | ConnInProgress \<Rightarrow>
                   if fd \<ge> FD_SETSIZE then None
                   else if d_select D > 0 \<and> d_so_error D = 0 then Some (0, Some fd, timed)
                   else Some (- 1, Some (- 1), sys_close fd timed))"

definition mb_tcp_close :: "c_int option \<Rightarrow> sock \<Rightarrow> c_int option \<times> sock" where
  "mb_tcp_close fd w =
     (case fd of
        None \<Rightarrow> (fd, w)
      | Some n \<Rightarrow> if n \<ge> 0 then (Some (- 1), sys_close n w) else (fd, w))"

section \<open>Descriptors are kept on success and closed on failure\<close>

lemma sys_close_simps [simp]:
  "open_fds (sys_close fd w) = remove1 fd (open_fds w)" "rx (sys_close fd w) = rx w"
  "wire (sys_close fd w) = wire w" "rcvtimeo (sys_close fd w) = rcvtimeo w" "tx (sys_close fd w) = tx w"
  "clk (sys_close fd w) = clk w" "polls (sys_close fd w) = polls w" "ticks (sys_close fd w) = ticks w"
  by (simp_all add: sys_close_def)

lemma mb_tcp_connect_fds:
  assumes "mb_tcp_connect D so bi h p t w = Some (rc, so', w')"
  shows "(rc = 0 \<and> so' = Some (d_socket D) \<and> 0 \<le> d_socket D \<and> open_fds w' = d_socket D # open_fds w \<and> rcvtimeo w') \<or>
         (rc < 0 \<and> open_fds w' = open_fds w \<and> (so \<noteq> None \<longrightarrow> rc = - 1 \<longrightarrow> (\<exists>n<0. so' = Some n)))"
  using assms by (auto simp: mb_tcp_connect_def Let_def split: if_splits connect_event.splits)

lemma mb_tcp_connect_defined: "d_socket D < FD_SETSIZE \<Longrightarrow> \<exists>res. mb_tcp_connect D so bi h p t w = Some res"
  by (auto simp: mb_tcp_connect_def Let_def split: connect_event.split)

end
