(* ===== verification/Tcp_Transport.thy ===== *)
theory Tcp_Transport
  imports Tcp_Frame Tcp_Connect "HOL-Library.Multiset"
begin

text \<open>
  The TCP transport of \<^verbatim>\<open>src/src/modbus_tcp.c\<close>: starting and stopping it, the thread that accepts
  and serves clients, and the thread that keeps an outgoing connection. How the calls of the operating
  system end is a script: one entry for each round of a thread. The state is the context, and what the
  process has done: the descriptors it holds, the options it set on sockets, the sockets it shut down, the
  calls of the hooks, and the seconds it slept. A null \<open>client_fds\<close> is the empty list.

  The threads run on the values that successive tests of \<open>keep_running\<close> see. \<open>mb_tcp_stop\<close> is the step
  after the thread ended: what it shuts down to wake the thread, and what it closes when the thread is joined.
\<close>

section \<open>What the process does\<close>

abbreviation (input) MB_TCP_MODE_LISTEN_SERVER :: c_int where "MB_TCP_MODE_LISTEN_SERVER \<equiv> 0"
abbreviation (input) MB_TCP_MODE_CONNECT_CLIENT :: c_int where "MB_TCP_MODE_CONNECT_CLIENT \<equiv> 1"
abbreviation (input) MB_TCP_KEEPALIVE_DISABLED :: u32 where "MB_TCP_KEEPALIVE_DISABLED \<equiv> 0xFFFFFFFF"
abbreviation (input) MB_TCP_DEFAULT_MAX_CLIENTS :: u32 where "MB_TCP_DEFAULT_MAX_CLIENTS \<equiv> 10"
abbreviation (input) MB_TCP_DEFAULT_IDLE_POLL_MS :: u32 where "MB_TCP_DEFAULT_IDLE_POLL_MS \<equiv> 5000"

text \<open>The time of \<open>SO_RCVTIMEO\<close> is in seconds and microseconds.\<close>

datatype tcp_option = KeepAlive c_int | KeepIdle c_int | KeepIntvl c_int | KeepCnt c_int | RcvTimeo u32 u32

record net =
  n_open :: "c_int list"
  n_socks :: "c_int \<Rightarrow> sock"
  n_opts :: "(c_int \<times> tcp_option) list"
  n_shut :: "c_int list"
  n_links :: "(c_int \<times> c_int) list"
  n_errors :: "c_int list"
  n_inits :: nat
  n_naps :: nat

text \<open>Which of the optional hooks \<open>on_link\<close>, \<open>on_error\<close> and \<open>on_init\<close> are set.\<close>

record hooks =
  h_link :: bool
  h_error :: bool
  h_init :: bool

definition mb_tcp_link_call :: "hooks \<Rightarrow> c_int \<Rightarrow> c_int \<Rightarrow> net \<Rightarrow> net" where
  "mb_tcp_link_call K fd connected N = (if h_link K then N\<lparr>n_links := n_links N @ [(fd, connected)]\<rparr> else N)"

definition error_call :: "hooks \<Rightarrow> c_int \<Rightarrow> net \<Rightarrow> net" where
  "error_call K connected N = (if h_error K then N\<lparr>n_errors := n_errors N @ [connected]\<rparr> else N)"

definition net_close :: "c_int \<Rightarrow> net \<Rightarrow> net" where
  "net_close fd N = N\<lparr>n_open := remove1 fd (n_open N)\<rparr>"

definition value_or_default :: "u32 \<Rightarrow> u32 \<Rightarrow> u32" where
  "value_or_default v d = (if v \<noteq> 0 then v else d)"

text \<open>
  The results of \<open>setsockopt\<close> are ignored; \<open>granted\<close> says whether the receive timeout took effect. A zero
  time would switch it off.
\<close>

definition configure_client_socket :: "mb_tcp_config \<Rightarrow> bool \<Rightarrow> c_int \<Rightarrow> net \<Rightarrow> net" where
  "configure_client_socket c granted fd N =
     (let N = (if keepalive_idle_sec c \<noteq> MB_TCP_KEEPALIVE_DISABLED then
          N\<lparr>n_opts := n_opts N @
            [(fd, KeepAlive 1), (fd, KeepIdle (sint (value_or_default (keepalive_idle_sec c) 5))),
             (fd, KeepIntvl (sint (value_or_default (keepalive_interval_sec c) 5))),
             (fd, KeepCnt (sint (value_or_default (keepalive_count c) 1)))]\<rparr>
        else N) in
      if recv_timeout_ms c > 0 then
        let sec = recv_timeout_ms c div 1000; usec = recv_timeout_ms c mod 1000 * 1000 in
          N\<lparr>n_opts := n_opts N @ [(fd, RcvTimeo sec usec)],
            n_socks := (n_socks N)(fd := (n_socks N fd)\<lparr>rcvtimeo := granted \<and> (sec \<noteq> 0 \<or> usec \<noteq> 0)\<rparr>)\<rparr>
      else N)"

section \<open>Starting and stopping\<close>

record listen_env =
  l_socket :: c_int
  l_reuse :: c_int
  l_bind :: "u16 \<Rightarrow> c_int"
  l_listen :: "c_int \<Rightarrow> c_int"

definition mb_tcp_listen_init :: "listen_env \<Rightarrow> mb_tcp_ctx \<Rightarrow> net \<Rightarrow> c_int \<times> mb_tcp_ctx \<times> net" where
  "mb_tcp_listen_init L ctx N =
     (let fd = l_socket L; ctx = ctx\<lparr>listen_sock := fd\<rparr> in
      if fd < 0 then (- 1, ctx, N)
      else
        let N = N\<lparr>n_open := fd # n_open N\<rparr> in
        if l_reuse L < 0 then (- 1, ctx\<lparr>listen_sock := - 1\<rparr>, net_close fd N)
        else if l_bind L (port (cfg ctx)) < 0 then (- 1, ctx\<lparr>listen_sock := - 1\<rparr>, net_close fd N)
        else if l_listen L (int (unat (client_cap ctx))) < 0 then (- 1, ctx\<lparr>listen_sock := - 1\<rparr>, net_close fd N)
        else (0, ctx, N))"

record start_env =
  s_malloc :: bool
  s_mutex :: c_int
  s_listen :: listen_env
  s_thread :: c_int

text \<open>The defaults of the times of a connection.\<close>

definition with_defaults :: "mb_tcp_config \<Rightarrow> mb_tcp_config" where
  "with_defaults g =
     (let g = (if connect_timeout_sec g = 0 then g\<lparr>connect_timeout_sec := 5\<rparr> else g) in
      if connect_retry_sec g = 0 then g\<lparr>connect_retry_sec := 3\<rparr> else g)"

definition mb_tcp_start ::
    "start_env \<Rightarrow> hooks \<Rightarrow> mb_tcp_ctx option \<Rightarrow> mb_tcp_config option \<Rightarrow> net \<Rightarrow> c_int \<times> mb_tcp_ctx option \<times> net" where
  "mb_tcp_start S K ctx conf N =
     (case (ctx, conf) of
        (Some c, Some g) \<Rightarrow>
          if mode g = MB_TCP_MODE_CONNECT_CLIENT \<and> (remote_host g = None \<or> remote_host g = Some []) then (- 1, ctx, N)
          else if initialized c \<noteq> 0 then (- 1, ctx, N)
          else
            let g = with_defaults g;
                serving = (mode g = MB_TCP_MODE_LISTEN_SERVER);
                cap = (if serving then ucast (value_or_default (ucast (max_clients g)) MB_TCP_DEFAULT_MAX_CLIENTS) else 0);
                c = \<lparr>keep_running = 1, tid = 0, cfg = g, listen_sock = - 1, stream_sock = - 1, client_fds = [],
                     client_cap = cap, initialized = 0\<rparr>
            in
              if serving \<and> \<not> s_malloc S then (- 1, Some c, N)
              else
                let slots = (if serving then replicate (unat cap) (- 1) else []) in
                if s_mutex S \<noteq> 0 then (- 1, Some c, N)
                else
                  let N = (if h_init K then N\<lparr>n_inits := Suc (n_inits N)\<rparr> else N) in
                  if serving then
                    (case mb_tcp_listen_init (s_listen S) (c\<lparr>client_fds := slots\<rparr>) N of (rc, c, N) \<Rightarrow>
                       if rc < 0 \<or> s_thread S \<noteq> 0 then
                         (if listen_sock c \<ge> 0 then (- 1, Some (c\<lparr>listen_sock := - 1, client_fds := []\<rparr>), net_close (listen_sock c) N)
                          else (- 1, Some (c\<lparr>client_fds := []\<rparr>), N))
                       else (0, Some (c\<lparr>initialized := 1\<rparr>), N))
                  else if s_thread S \<noteq> 0 then (- 1, Some c, N)
                  else (0, Some (c\<lparr>initialized := 1\<rparr>), N)
      | _ \<Rightarrow> (- 1, ctx, N))"

definition mb_tcp_stop :: "mb_tcp_ctx option \<Rightarrow> net \<Rightarrow> (mb_tcp_ctx option \<times> net) option" where
  "mb_tcp_stop ctx N =
     (case ctx of
        None \<Rightarrow> Some (ctx, N)
      | Some c \<Rightarrow>
          if initialized c = 0 then Some (ctx, N)
          else if length (client_fds c) < unat (client_cap c) then None
          else
            let clients = filter (\<lambda>fd. fd \<ge> 0) (take (unat (client_cap c)) (client_fds c));
                held = (if listen_sock c \<ge> 0 then [listen_sock c] else []) @ clients @ (if stream_sock c \<ge> 0 then [stream_sock c] else [])
            in Some (Some (c\<lparr>keep_running := 0, listen_sock := - 1, stream_sock := - 1, client_fds := [], client_cap := 0, initialized := 0\<rparr>),
                 fold net_close held (N\<lparr>n_shut := n_shut N @ held\<rparr>)))"

section \<open>The thread that serves\<close>

datatype activity = SelErr errno | SelQuiet | SelReady "c_int \<Rightarrow> bool"

text \<open>
  One round: how \<open>select\<close> ends, what a peek at a client delivers, the descriptor \<open>accept\<close> returns
  when the process holds a given list of descriptors, the connection behind it, and whether its
  receive timeout is granted.
\<close>

record tcp_round =
  r_select :: activity
  r_peek :: "c_int \<Rightarrow> c_int"
  r_accept :: "c_int list \<Rightarrow> c_int"
  r_peer :: sock
  r_granted :: bool

text \<open>The callback \<open>on_process\<close>: what it does with a descriptor, its application and the connection.\<close>

type_synonym 'u service = "c_int \<Rightarrow> 'u \<Rightarrow> sock \<Rightarrow> (c_int \<times> 'u \<times> sock) option"

text \<open>A client that is gone: its socket is closed and the hooks are told.\<close>

definition drop_client :: "hooks \<Rightarrow> c_int \<Rightarrow> net \<Rightarrow> net" where
  "drop_client K sd N = error_call K 0 (mb_tcp_link_call K sd 0 (net_close sd N))"

text \<open>The loop over the clients when nothing is ready: those that closed are dropped.\<close>

fun drop_dead :: "hooks \<Rightarrow> (c_int \<Rightarrow> c_int) \<Rightarrow> c_int list \<Rightarrow> net \<Rightarrow> c_int list \<times> net" where
  "drop_dead K peek [] N = ([], N)"
| "drop_dead K peek (sd # r) N =
     (if sd \<ge> 0 \<and> peek sd = 0 then (case drop_dead K peek r (drop_client K sd N) of (r, N) \<Rightarrow> (- 1 # r, N))
      else (case drop_dead K peek r N of (r, N) \<Rightarrow> (sd # r, N)))"

text \<open>The first free slot takes the new client.\<close>

fun place_client :: "c_int \<Rightarrow> c_int list \<Rightarrow> c_int list option" where
  "place_client fd [] = None"
| "place_client fd (sd # r) = (if sd < 0 then Some (fd # r) else map_option ((#) sd) (place_client fd r))"

text \<open>Accepting a client: whether the round goes on to serve clients.\<close>

definition accept_client :: "hooks \<Rightarrow> tcp_round \<Rightarrow> mb_tcp_ctx \<Rightarrow> net \<Rightarrow> bool \<times> mb_tcp_ctx \<times> net" where
  "accept_client K ev ctx N =
     (let fd = r_accept ev (n_open N) in
      if fd < 0 then (False, ctx, N)
      else
        let N = N\<lparr>n_open := fd # n_open N, n_socks := (n_socks N)(fd := r_peer ev)\<rparr> in
        if fd \<ge> FD_SETSIZE then (False, ctx, net_close fd N)
        else
          let N = configure_client_socket (cfg ctx) (r_granted ev) fd N in
          (case place_client fd (client_fds ctx) of
             None \<Rightarrow> (False, ctx, net_close fd N)
           | Some slots \<Rightarrow> (True, ctx\<lparr>client_fds := slots\<rparr>, error_call K 1 (mb_tcp_link_call K fd 1 N))))"

text \<open>The loop over the clients that are ready: a client whose call fails is dropped.\<close>

fun serve_clients ::
    "hooks \<Rightarrow> 'u service option \<Rightarrow> (c_int \<Rightarrow> bool) \<Rightarrow> c_int list \<Rightarrow> net \<Rightarrow> 'u \<Rightarrow> (c_int list \<times> net \<times> 'u) option" where
  "serve_clients K on_process isset [] N u = Some ([], N, u)"
| "serve_clients K on_process isset (sd # r) N u =
     (if sd \<ge> 0 \<and> isset sd \<and> on_process \<noteq> None then do {
        (rc, u, s) \<leftarrow> the on_process sd u (n_socks N sd);
        let N = N\<lparr>n_socks := (n_socks N)(sd := s)\<rparr>;
        (r, N, u) \<leftarrow> serve_clients K on_process isset r (if rc < 0 then drop_client K sd N else N) u;
        Some ((if rc < 0 then - 1 else sd) # r, N, u) }
      else do {
        (r, N, u) \<leftarrow> serve_clients K on_process isset r N u;
        Some (sd # r, N, u) })"

text \<open>
  One round. The set \<open>select\<close> leaves behind has the watched descriptors that are ready; when
  \<open>select\<close> is interrupted the code goes on with the set as it was, which has all of them.
\<close>

definition watched :: "mb_tcp_ctx \<Rightarrow> c_int list" where
  "watched ctx = listen_sock ctx # filter (\<lambda>fd. fd \<ge> 0) (client_fds ctx)"

definition ready_round ::
    "hooks \<Rightarrow> 'u service option \<Rightarrow> tcp_round \<Rightarrow> (c_int \<Rightarrow> bool) \<Rightarrow> mb_tcp_ctx \<Rightarrow> net \<Rightarrow> 'u \<Rightarrow>
     (mb_tcp_ctx \<times> net \<times> 'u) option" where
  "ready_round K on_process ev isset ctx N u =
     (case (if isset (listen_sock ctx) then accept_client K ev ctx N else (True, ctx, N)) of (go_on, ctx, N) \<Rightarrow>
        if \<not> go_on then Some (ctx, N, u)
        else do {
          (slots, N, u) \<leftarrow> serve_clients K on_process isset (client_fds ctx) N u;
          Some (ctx\<lparr>client_fds := slots\<rparr>, N, u) })"

definition server_round ::
    "hooks \<Rightarrow> 'u service option \<Rightarrow> tcp_round \<Rightarrow> mb_tcp_ctx \<Rightarrow> net \<Rightarrow> 'u \<Rightarrow> (mb_tcp_ctx \<times> net \<times> 'u) option" where
  "server_round K on_process ev ctx N u =
     (if \<not> list_all fd_ok (watched ctx) then None
      else (case r_select ev of
              SelErr e \<Rightarrow>
                if e \<noteq> EINTR then Some (ctx, N, u)
                else ready_round K on_process ev (\<lambda>fd. fd \<in> set (watched ctx)) ctx N u
            | SelQuiet \<Rightarrow>
                (case drop_dead K (r_peek ev) (client_fds ctx) N of (slots, N) \<Rightarrow> Some (ctx\<lparr>client_fds := slots\<rparr>, N, u))
            | SelReady R \<Rightarrow>
                ready_round K on_process ev (\<lambda>fd. fd \<in> set (watched ctx) \<and> R fd) ctx N u))"

fun mb_tcp_server_thread ::
    "hooks \<Rightarrow> 'u service option \<Rightarrow> (c_int \<times> tcp_round) list \<Rightarrow> mb_tcp_ctx \<Rightarrow> net \<Rightarrow> 'u \<Rightarrow> (mb_tcp_ctx \<times> net \<times> 'u) option" where
  "mb_tcp_server_thread K on_process [] ctx N u = Some (ctx, N, u)"
| "mb_tcp_server_thread K on_process ((keep, ev) # r) ctx N u =
     (if keep = 0 then Some (ctx, N, u)
      else do {
        (ctx, N, u) \<leftarrow> server_round K on_process ev ctx N u;
        mb_tcp_server_thread K on_process r ctx N u })"

section \<open>The thread that connects\<close>

text \<open>
  One round: how connecting ends, the connection it brings, and the values of \<open>keep_running\<close> the
  wait for a retry sees.
\<close>

record dial_round =
  c_dial :: dial
  c_peer :: sock
  c_waits :: "c_int list"

text \<open>The seconds the wait for a retry sleeps; beyond the script \<open>keep_running\<close> stays set.\<close>

fun retry_wait :: "nat \<Rightarrow> c_int list \<Rightarrow> nat" where
  "retry_wait 0 ks = 0"
| "retry_wait (Suc n) [] = Suc n"
| "retry_wait (Suc n) (k # ks) = (if k = 0 then 0 else Suc (retry_wait n ks))"

definition nap :: "nat \<Rightarrow> net \<Rightarrow> net" where
  "nap n N = N\<lparr>n_naps := n_naps N + n\<rparr>"

text \<open>The local variables of the thread, with the context, the process and the application.\<close>

record 'u dialler =
  dl_sock :: c_int
  dl_connected :: c_int
  dl_ctx :: mb_tcp_ctx
  dl_net :: net
  dl_app :: 'u

text \<open>Connecting, when there is no connection.\<close>

definition dial_out :: "hooks \<Rightarrow> dial_round \<Rightarrow> 'u dialler \<Rightarrow> 'u dialler option" where
  "dial_out K ev t =
     (let c = cfg (dl_ctx t); N = dl_net t in
      case mb_tcp_connect (c_dial ev) (Some (dl_sock t)) (bind_iface c) (remote_host c) (port c) (connect_timeout_sec c)
             ((c_peer ev)\<lparr>open_fds := n_open N\<rparr>) of
        None \<Rightarrow> None
      | Some (rc, so, s) \<Rightarrow>
          let fd = the so; N = N\<lparr>n_open := open_fds s\<rparr> in
          if rc = 0 then
            Some (t\<lparr>dl_sock := fd, dl_ctx := (dl_ctx t)\<lparr>stream_sock := fd\<rparr>, dl_connected := 1,
              dl_net := error_call K 1 (mb_tcp_link_call K fd 1 (N\<lparr>n_socks := (n_socks N)(fd := s)\<rparr>))\<rparr>)
          else
            Some (t\<lparr>dl_sock := fd,
              dl_net := nap (retry_wait (unat (connect_retry_sec c)) (c_waits ev)) (error_call K 0 N)\<rparr>))"

definition client_round :: "hooks \<Rightarrow> 'u service option \<Rightarrow> dial_round \<Rightarrow> 'u dialler \<Rightarrow> 'u dialler option" where
  "client_round K on_process ev t = do {
     t \<leftarrow> (if dl_connected t = 0 then dial_out K ev t else Some t);
     if dl_connected t = 0 then Some t
     else (case on_process of
             None \<Rightarrow> Some (t\<lparr>dl_net := nap 1 (dl_net t)\<rparr>)
           | Some f \<Rightarrow> do {
               let fd = dl_sock t;
               (rc, u, s) \<leftarrow> f fd (dl_app t) (n_socks (dl_net t) fd);
               let N = (dl_net t)\<lparr>n_socks := (n_socks (dl_net t))(fd := s)\<rparr>;
               let t = t\<lparr>dl_app := u\<rparr>;
               if rc < 0 then
                 Some (t\<lparr>dl_sock := - 1, dl_connected := 0, dl_ctx := (dl_ctx t)\<lparr>stream_sock := - 1\<rparr>,
                   dl_net := error_call K 0 (net_close fd (mb_tcp_link_call K fd 0 N))\<rparr>)
               else Some (t\<lparr>dl_net := nap 1 N\<rparr>) }) }"

fun client_rounds ::
    "hooks \<Rightarrow> 'u service option \<Rightarrow> (c_int \<times> dial_round) list \<Rightarrow> 'u dialler \<Rightarrow> 'u dialler option" where
  "client_rounds K on_process [] t = Some t"
| "client_rounds K on_process ((keep, ev) # r) t =
     (if keep = 0 then Some t else do { t \<leftarrow> client_round K on_process ev t; client_rounds K on_process r t })"

definition mb_tcp_client_thread ::
    "hooks \<Rightarrow> 'u service option \<Rightarrow> (c_int \<times> dial_round) list \<Rightarrow> mb_tcp_ctx \<Rightarrow> net \<Rightarrow> 'u \<Rightarrow> 'u dialler option" where
  "mb_tcp_client_thread K on_process rs ctx N u = do {
     t \<leftarrow> client_rounds K on_process rs \<lparr>dl_sock = - 1, dl_connected = 0, dl_ctx = ctx, dl_net = N, dl_app = u\<rparr>;
     Some (if dl_sock t \<ge> 0 then t\<lparr>dl_net := mb_tcp_link_call K (dl_sock t) 0 (dl_net t)\<rparr> else t) }"

end
