(* ===== verification/Tcp_Transport_Facts.thy ===== *)
theory Tcp_Transport_Facts
  imports Tcp_Transport
begin

text \<open>
  Lemmas about the TCP transport: what its threads keep of the descriptors of the process and of
  the reports to \<open>on_link\<close>, for every script of the operating system and every callback that keeps
  its contract.
\<close>

section \<open>Reports and descriptors\<close>

text \<open>
  Reading a trace of \<open>on_link\<close> calls: the descriptors that are up at its end. A trace that
  reports a link as up twice, or as lost when it is not up, has no reading.
\<close>

definition link_step :: "c_int set option \<Rightarrow> c_int \<times> c_int \<Rightarrow> c_int set option" where
  "link_step S l = (case S of
       None \<Rightarrow> None
     | Some S \<Rightarrow> if (snd l = 0) = (fst l \<in> S) then Some (if snd l = 0 then S - {fst l} else insert (fst l) S) else None)"

definition links_up :: "(c_int \<times> c_int) list \<Rightarrow> c_int set option" where
  "links_up ls = foldl link_step (Some {}) ls"

lemma links_up_simps [simp]: "links_up [] = Some {}" "links_up (ls @ [l]) = link_step (links_up ls) l"
  by (simp_all add: links_up_def)

text \<open>The clients in the slots.\<close>

definition clients :: "c_int list \<Rightarrow> c_int list" where
  "clients slots = filter (\<lambda>fd. fd \<ge> 0) slots"

lemma clients_simps [simp]: "clients [] = []" "clients (fd # r) = (if fd \<ge> 0 then fd # clients r else clients r)"
  "clients (as @ bs) = clients as @ clients bs"
  by (simp_all add: clients_def)

lemma clients_nonneg: "fd \<in> set (clients slots) \<Longrightarrow> 0 \<le> fd"
  by (simp add: clients_def)

lemma length_clients: "length (clients slots) \<le> length slots"
  by (simp add: clients_def)

text \<open>
  The slots and the process agree: the process holds the descriptors it had, and the clients, once
  each; the clients are in the range of \<open>FD_SET\<close> and have a receive timeout; and the reports since the
  first \<open>L\<close> say exactly that the clients are connected.
\<close>

definition slots_ok :: "hooks \<Rightarrow> c_int multiset \<Rightarrow> nat \<Rightarrow> c_int list \<Rightarrow> net \<Rightarrow> bool" where
  "slots_ok K base L slots N \<longleftrightarrow>
     mset (n_open N) = base + mset (clients slots) \<and> distinct (clients slots) \<and>
     (\<forall>fd \<in> set (clients slots). fd < FD_SETSIZE \<and> rcvtimeo (n_socks N fd)) \<and>
     L \<le> length (n_links N) \<and> (h_link K \<longrightarrow> links_up (drop L (n_links N)) = Some (set (clients slots)))"

lemma hook_calls [simp]: "n_open (error_call K c N) = n_open N" "n_links (error_call K c N) = n_links N"
  "n_socks (error_call K c N) = n_socks N" "n_open (mb_tcp_link_call K fd c N) = n_open N"
  "n_socks (mb_tcp_link_call K fd c N) = n_socks N"
  "n_links (mb_tcp_link_call K fd c N) = (if h_link K then n_links N @ [(fd, c)] else n_links N)"
  "n_open (net_close fd N) = remove1 fd (n_open N)" "n_links (net_close fd N) = n_links N"
  "n_socks (net_close fd N) = n_socks N" "n_open (nap n N) = n_open N" "n_links (nap n N) = n_links N"
  "n_socks (nap n N) = n_socks N"
  by (simp_all add: error_call_def mb_tcp_link_call_def net_close_def nap_def)

lemma configure_keeps [simp]: "n_open (configure_client_socket g b fd N) = n_open N"
  "n_links (configure_client_socket g b fd N) = n_links N"
  by (simp_all add: configure_client_socket_def Let_def)

text \<open>A positive timeout of less than a second still gives a time other than 0.\<close>

lemma configure_timeout:
  assumes "recv_timeout_ms g > 0"
  shows "n_socks (configure_client_socket g True fd N) = (n_socks N)(fd := (n_socks N fd)\<lparr>rcvtimeo := True\<rparr>)"
  using assms timeval_nonzero[of "recv_timeout_ms g"] by (simp add: configure_client_socket_def Let_def)

section \<open>Dropping and placing clients\<close>

lemma drop_client_simps [simp]: "n_open (drop_client K sd N) = remove1 sd (n_open N)" "n_socks (drop_client K sd N) = n_socks N"
  "n_links (drop_client K sd N) = (if h_link K then n_links N @ [(sd, 0)] else n_links N)"
  by (simp_all add: drop_client_def)

lemma slots_ok_drop:
  assumes "slots_ok K base L (as @ sd # bs) N" and "0 \<le> sd"
  shows "slots_ok K base L (as @ - 1 # bs) (drop_client K sd N)"
  using assms by (auto simp: slots_ok_def link_step_def)

lemma slots_ok_sock:
  assumes "slots_ok K base L slots N" and "rcvtimeo s"
  shows "slots_ok K base L slots (N\<lparr>n_socks := (n_socks N)(sd := s)\<rparr>)"
  using assms by (simp add: slots_ok_def)

lemma drop_dead_ok:
  assumes "slots_ok K base L (as @ slots) N" and "drop_dead K peek slots N = (slots', N')"
  shows "slots_ok K base L (as @ slots') N' \<and> length slots' = length slots \<and>
    slots' = map (\<lambda>sd. if 0 \<le> sd \<and> peek sd = 0 then - 1 else sd) slots"
  using assms
proof (induction slots arbitrary: as N slots' N')
  case (Cons sd r)
  show ?case
  proof (cases "0 \<le> sd \<and> peek sd = 0")
    case True
    obtain r' N1 where d: "drop_dead K peek r (drop_client K sd N) = (r', N1)" by fastforce
    have "slots_ok K base L ((as @ [- 1]) @ r) (drop_client K sd N)" using slots_ok_drop[OF Cons.prems(1)] True by simp
    from Cons.IH[OF this d] Cons.prems(2) True d show ?thesis by auto
  next
    case False
    obtain r' N1 where d: "drop_dead K peek r N = (r', N1)" by fastforce
    have "slots_ok K base L ((as @ [sd]) @ r) N" using Cons.prems(1) by simp
    from Cons.IH[OF this d] Cons.prems(2) False d show ?thesis by auto
  qed
qed simp

lemma place_client_full: "place_client fd slots = None \<longleftrightarrow> (\<forall>sd \<in> set slots. 0 \<le> sd)"
  by (induction slots) auto

lemma place_client_free:
  "place_client fd slots = Some slots' \<Longrightarrow>
   \<exists>as sd bs. slots = as @ sd # bs \<and> clients as = as \<and> sd < 0 \<and> slots' = as @ fd # bs"
proof (induction slots arbitrary: slots')
  case (Cons sd r)
  show ?case
  proof (cases "sd < 0")
    case True
    then show ?thesis using Cons.prems by (intro exI[of _ "[]"] exI[of _ sd] exI[of _ r]) simp
  next
    case False
    then obtain r' where r: "place_client fd r = Some r'" "slots' = sd # r'" using Cons.prems by auto
    from Cons.IH[OF r(1)] obtain as x bs where "r = as @ x # bs" "clients as = as" "x < 0" "r' = as @ fd # bs" by blast
    then show ?thesis using False r(2) by (intro exI[of _ "sd # as"] exI[of _ x] exI[of _ bs]) simp
  qed
qed simp

text \<open>A new client gets the first free slot, or is closed again when there is none.\<close>

lemma accept_client_ok:
  assumes ok: "slots_ok K base L (client_fds ctx) N" and "0 \<le> r_accept ev (n_open N) \<longrightarrow> r_accept ev (n_open N) \<notin> set (n_open N)"
    and "recv_timeout_ms (cfg ctx) > 0" and "r_granted ev"
  shows "\<exists>go slots N'. accept_client K ev ctx N = (go, ctx\<lparr>client_fds := slots\<rparr>, N') \<and> slots_ok K base L slots N' \<and>
    length slots = length (client_fds ctx)"
proof -
  let ?fd = "r_accept ev (n_open N)" and ?slots = "client_fds ctx"
  let ?N = "configure_client_socket (cfg ctx) True ?fd (N\<lparr>n_open := ?fd # n_open N, n_socks := (n_socks N)(?fd := r_peer ev)\<rparr>)"
  have keep: "ctx = ctx\<lparr>client_fds := ?slots\<rparr>" by simp
  have socks: "n_socks ?N = (n_socks N)(?fd := (r_peer ev)\<lparr>rcvtimeo := True\<rparr>)"
    using configure_timeout[OF assms(3)] by simp
  have other: "fd \<noteq> ?fd" if "fd \<in> set (clients ?slots)" "0 \<le> ?fd" for fd
  proof -
    have "set_mset (mset (n_open N)) = set_mset (base + mset (clients ?slots))" using ok by (simp add: slots_ok_def)
    then have "fd \<in> set (n_open N)" using that(1) by auto
    then show ?thesis using assms(2) that(2) by auto
  qed
  consider "?fd < 0" | "FD_SETSIZE \<le> ?fd" | "0 \<le> ?fd" "?fd < FD_SETSIZE" "place_client ?fd ?slots = None"
    | as sd bs where "0 \<le> ?fd" "?fd < FD_SETSIZE" "?slots = as @ sd # bs" "sd < 0" "place_client ?fd ?slots = Some (as @ ?fd # bs)"
    using place_client_free by (metis not_less option.exhaust)
  then show ?thesis
  proof cases
    case 1
    then show ?thesis using ok by (intro exI[of _ False] exI[of _ ?slots] exI[of _ N]) (simp add: accept_client_def Let_def)
  next
    case 2
    let ?N2 = "net_close ?fd (N\<lparr>n_open := ?fd # n_open N, n_socks := (n_socks N)(?fd := r_peer ev)\<rparr>)"
    have "slots_ok K base L ?slots ?N2" using ok other 2 by (simp add: slots_ok_def)
    then show ?thesis using 2
      by (intro exI[of _ False] exI[of _ ?slots] exI[of _ ?N2]) (simp add: accept_client_def Let_def)
  next
    case 3
    have "slots_ok K base L ?slots (net_close ?fd ?N)" using ok other 3 by (simp add: slots_ok_def socks)
    then show ?thesis using 3 assms(4)
      by (intro exI[of _ False] exI[of _ ?slots] exI[of _ "net_close ?fd ?N"]) (simp add: accept_client_def Let_def)
  next
    case (4 as sd bs)
    let ?N2 = "error_call K 1 (mb_tcp_link_call K ?fd 1 ?N)"
    have "?fd \<notin> set (clients ?slots)" using other 4(1) by blast
    then have "slots_ok K base L (as @ ?fd # bs) ?N2" using ok other 4 by (auto simp: slots_ok_def socks link_step_def)
    then show ?thesis using 4 assms(4)
      by (intro exI[of _ True] exI[of _ "as @ ?fd # bs"] exI[of _ ?N2]) (simp add: accept_client_def Let_def)
  qed
qed

section \<open>The contract of the callback\<close>

text \<open>
  What the threads need of \<open>on_process\<close>: on a connection with a receive timeout it returns, keeps
  the invariant of its application, and leaves the timeout alone.
\<close>

locale stream_service =
  fixes serve :: "'u service" and inv :: "'u \<Rightarrow> bool"
  assumes returns: "inv u \<Longrightarrow> rcvtimeo s \<Longrightarrow> \<exists>rc u' s'. serve fd u s = Some (rc, u', s') \<and> inv u' \<and> rcvtimeo s'"

text \<open>What the kernel promises of \<open>accept\<close>: it fails or returns a descriptor that is not in use; and the receive timeout is granted.\<close>

definition kernel_ok :: "tcp_round \<Rightarrow> bool" where
  "kernel_ok ev \<longleftrightarrow> (\<forall>fds. 0 \<le> r_accept ev fds \<longrightarrow> r_accept ev fds \<notin> set fds) \<and> r_granted ev"

definition serving_ok :: "hooks \<Rightarrow> c_int multiset \<Rightarrow> nat \<Rightarrow> mb_tcp_ctx \<Rightarrow> net \<Rightarrow> bool" where
  "serving_ok K base L ctx N \<longleftrightarrow> slots_ok K base L (client_fds ctx) N \<and> fd_ok (listen_sock ctx) \<and> recv_timeout_ms (cfg ctx) > 0"

lemma serving_watched: "serving_ok K base L ctx N \<Longrightarrow> list_all fd_ok (watched ctx)"
  by (auto simp: serving_ok_def slots_ok_def watched_def list_all_iff fd_ok_def clients_def)

lemma serving_ok_slots: "serving_ok K base L (ctx\<lparr>client_fds := slots\<rparr>) N' \<longleftrightarrow>
    slots_ok K base L slots N' \<and> fd_ok (listen_sock ctx) \<and> recv_timeout_ms (cfg ctx) > 0"
  by (simp add: serving_ok_def)

context stream_service
begin

lemma serve_clients_ok:
  assumes "slots_ok K base L (as @ slots) N" and "inv u"
  shows "\<exists>slots' N' u'. serve_clients K (Some serve) isset slots N u = Some (slots', N', u') \<and> inv u' \<and>
    slots_ok K base L (as @ slots') N' \<and> length slots' = length slots"
  using assms
proof (induction slots arbitrary: as N u)
  case (Cons sd r)
  have skip: "\<exists>slots' N' u'. serve_clients K (Some serve) isset r N1 u1 = Some (slots', N', u') \<and> inv u' \<and>
      slots_ok K base L (as @ sd' # slots') N' \<and> length slots' = length r"
    if "inv u1" "slots_ok K base L (as @ sd' # r) N1" for u1 sd' N1
    using Cons.IH[of "as @ [sd']" N1 u1] that by simp
  show ?case
  proof (cases "0 \<le> sd \<and> isset sd")
    case False
    then show ?thesis using skip[OF Cons.prems(2,1)] by auto
  next
    case True
    then have "rcvtimeo (n_socks N sd)" using Cons.prems(1) by (simp add: slots_ok_def)
    from returns[OF Cons.prems(2) this] obtain rc u1 s where f: "serve sd u (n_socks N sd) = Some (rc, u1, s)" "inv u1" "rcvtimeo s"
      by blast
    let ?N = "N\<lparr>n_socks := (n_socks N)(sd := s)\<rparr>"
    have ok: "slots_ok K base L (as @ sd # r) ?N" using slots_ok_sock[OF Cons.prems(1) f(3)] .
    show ?thesis
    proof (cases "rc < 0")
      case rc: False
      then show ?thesis using skip[OF f(2) ok] f(1) True by auto
    next
      case rc: True
      have "slots_ok K base L (as @ - 1 # r) (drop_client K sd ?N)" using slots_ok_drop[OF ok] True by simp
      from skip[OF f(2) this] show ?thesis using f(1) True rc by auto
    qed
  qed
qed simp

lemma ready_round_ok:
  assumes "serving_ok K base L ctx N" and "inv u" and "kernel_ok ev"
  shows "\<exists>slots N' u'. ready_round K (Some serve) ev isset ctx N u = Some (ctx\<lparr>client_fds := slots\<rparr>, N', u') \<and> inv u' \<and>
    serving_ok K base L (ctx\<lparr>client_fds := slots\<rparr>) N' \<and> length slots = length (client_fds ctx)"
proof -
  note ok = assms(1)[unfolded serving_ok_def]
  have "\<exists>go slots N1. (if isset (listen_sock ctx) then accept_client K ev ctx N else (True, ctx, N)) =
      (go, ctx\<lparr>client_fds := slots\<rparr>, N1) \<and> slots_ok K base L slots N1 \<and> length slots = length (client_fds ctx)"
    (is "\<exists>go slots N1. ?P go slots N1")
  proof (cases "isset (listen_sock ctx)")
    case True
    then show ?thesis using accept_client_ok[of K base L ctx N ev] ok assms(3) by (simp add: kernel_ok_def)
  next
    case False
    then have "?P True (client_fds ctx) N" using ok by simp
    then show ?thesis by blast
  qed
  then obtain go slots N1 where a: "?P go slots N1" by blast
  from serve_clients_ok[of K base L "[]" slots N1 u isset] a assms(2) obtain slots2 N2 u2 where
    s: "serve_clients K (Some serve) isset slots N1 u = Some (slots2, N2, u2)" "inv u2" "slots_ok K base L slots2 N2"
      "length slots2 = length slots" by auto
  show ?thesis
  proof (cases go)
    case True
    then show ?thesis using a s ok
      by (intro exI[of _ slots2] exI[of _ N2] exI[of _ u2]) (simp add: ready_round_def serving_ok_slots)
  next
    case False
    then show ?thesis using a ok assms(2)
      by (intro exI[of _ slots] exI[of _ N1] exI[of _ u]) (simp add: ready_round_def serving_ok_slots)
  qed
qed

lemma server_round_ok:
  assumes "serving_ok K base L ctx N" and "inv u" and "kernel_ok ev"
  shows "\<exists>slots N' u'. server_round K (Some serve) ev ctx N u = Some (ctx\<lparr>client_fds := slots\<rparr>, N', u') \<and> inv u' \<and>
    serving_ok K base L (ctx\<lparr>client_fds := slots\<rparr>) N' \<and> length slots = length (client_fds ctx)"
proof -
  have w: "list_all fd_ok (watched ctx)" using serving_watched[OF assms(1)] .
  have same: "ctx = ctx\<lparr>client_fds := client_fds ctx\<rparr>" by simp
  show ?thesis
  proof (cases "r_select ev")
    case (SelErr e)
    show ?thesis
    proof (cases "e = EINTR")
      case True
      then show ?thesis using ready_round_ok[OF assms] w SelErr by (simp add: server_round_def)
    next
      case False
      then show ?thesis using w SelErr assms(1,2)
        by (intro exI[of _ "client_fds ctx"] exI[of _ N] exI[of _ u]) (simp add: server_round_def)
    qed
  next
    case SelQuiet
    obtain slots N1 where d: "drop_dead K (r_peek ev) (client_fds ctx) N = (slots, N1)" by fastforce
    have "slots_ok K base L slots N1 \<and> length slots = length (client_fds ctx)"
      using drop_dead_ok[of K base L "[]" "client_fds ctx" N "r_peek ev" slots N1] d assms(1) by (auto simp: serving_ok_def)
    then show ?thesis using w SelQuiet d assms(1,2)
      by (intro exI[of _ slots] exI[of _ N1] exI[of _ u]) (simp add: server_round_def serving_ok_def)
  next
    case (SelReady R)
    then show ?thesis using ready_round_ok[OF assms] w by (simp add: server_round_def)
  qed
qed

text \<open>The thread returns for every script, with the process and the slots in agreement.\<close>

lemma server_thread_ok:
  assumes "serving_ok K base L ctx N" and "inv u" and "list_all (\<lambda>(keep, ev). kernel_ok ev) rs"
  shows "\<exists>slots N' u'. mb_tcp_server_thread K (Some serve) rs ctx N u = Some (ctx\<lparr>client_fds := slots\<rparr>, N', u') \<and> inv u' \<and>
    serving_ok K base L (ctx\<lparr>client_fds := slots\<rparr>) N' \<and> length slots = length (client_fds ctx)"
  using assms
proof (induction rs arbitrary: ctx N u)
  case Nil
  then show ?case by (intro exI[of _ "client_fds ctx"] exI[of _ N] exI[of _ u]) simp
next
  case (Cons r rs)
  obtain keep ev where r: "r = (keep, ev)" by fastforce
  show ?case
  proof (cases "keep = 0")
    case True
    then show ?thesis using Cons.prems r by (intro exI[of _ "client_fds ctx"] exI[of _ N] exI[of _ u]) simp
  next
    case False
    from server_round_ok[OF Cons.prems(1,2), of ev] Cons.prems(3) r obtain slots N1 u1 where
      a: "server_round K (Some serve) ev ctx N u = Some (ctx\<lparr>client_fds := slots\<rparr>, N1, u1)" "inv u1"
        "serving_ok K base L (ctx\<lparr>client_fds := slots\<rparr>) N1" "length slots = length (client_fds ctx)" by auto
    from Cons.IH[OF a(3,2)] Cons.prems(3) r a(1,4) False show ?thesis by auto
  qed
qed

end

section \<open>Starting and stopping\<close>

lemma mset_fold_close: "mset (n_open (fold net_close fds N)) = mset (n_open N) - mset fds"
  by (induction fds arbitrary: N) simp_all

lemma fold_close_keeps [simp]: "n_links (fold net_close fds N) = n_links N" "n_socks (fold net_close fds N) = n_socks N"
  by (induction fds arbitrary: N) simp_all

text \<open>Listening opens one descriptor, or none.\<close>

lemma mb_tcp_listen_init_cases:
  assumes "mb_tcp_listen_init E ctx N = (rc, ctx', N')"
  shows "rc = 0 \<and> 0 \<le> l_socket E \<and> ctx' = ctx\<lparr>listen_sock := l_socket E\<rparr> \<and> N' = N\<lparr>n_open := l_socket E # n_open N\<rparr> \<or>
    rc = - 1 \<and> initialized ctx' = initialized ctx \<and> listen_sock ctx' < 0 \<and> N' = N"
  using assms by (auto simp: mb_tcp_listen_init_def Let_def net_close_def split: if_splits)

definition started_ctx :: "mb_tcp_config \<Rightarrow> mb_tcp_ctx" where
  "started_ctx g =
     \<lparr>keep_running = 1, tid = 0,
      cfg = with_defaults g, listen_sock = - 1, stream_sock = - 1, client_fds = [], client_cap = 0, initialized = 1\<rparr>"

definition slots_wanted :: "mb_tcp_config \<Rightarrow> nat" where
  "slots_wanted g = (if max_clients g = 0 then 10 else unat (max_clients g))"

lemma with_defaults_simps [simp]: "mode (with_defaults g) = mode g" "max_clients (with_defaults g) = max_clients g"
  "recv_timeout_ms (with_defaults g) = recv_timeout_ms g" "port (with_defaults g) = port g"
  "remote_host (with_defaults g) = remote_host g" "bind_iface (with_defaults g) = bind_iface g"
  by (simp_all add: with_defaults_def Let_def)

lemma started_ctx_simps [simp]: "cfg (started_ctx g) = with_defaults g" "listen_sock (started_ctx g) = - 1"
  "stream_sock (started_ctx g) = - 1" "client_fds (started_ctx g) = []" "client_cap (started_ctx g) = 0"
  "initialized (started_ctx g) = 1"
  by (simp_all add: started_ctx_def)

lemma slots_wanted_bounds: "0 < slots_wanted g" "slots_wanted g < 2 ^ 16" "unat (of_nat (slots_wanted g) :: u16) = slots_wanted g"
proof -
  show pos: "0 < slots_wanted g" by (simp add: slots_wanted_def unat_gt_0)
  show lt: "slots_wanted g < 2 ^ 16" using unat_u16_less[of "max_clients g"] by (simp add: slots_wanted_def)
  show "unat (of_nat (slots_wanted g) :: u16) = slots_wanted g" using lt by (simp add: unat_of_nat)
qed

lemma client_cap_slots:
  "ucast (value_or_default (ucast (max_clients g)) MB_TCP_DEFAULT_MAX_CLIENTS) = (of_nat (slots_wanted g) :: u16)"
proof (cases "max_clients g = 0")
  case True
  then show ?thesis by (simp add: value_or_default_def slots_wanted_def)
next
  case False
  have "unat (ucast (max_clients g) :: u32) = unat (max_clients g)"
    using unat_u16_less[of "max_clients g"] by (simp add: unsigned_ucast_eq take_bit_nat_eq_self)
  with False have "(ucast (max_clients g) :: u32) \<noteq> 0" "(ucast (ucast (max_clients g) :: u32) :: u16) = max_clients g"
    by (metis unat_0 unat_eq_0)
      (use unat_u16_less[of "max_clients g"] in \<open>simp add: word_unat_eq_iff unsigned_ucast_eq take_bit_nat_eq_self take_bit_word_eq_self\<close>)
  then show ?thesis using False by (simp add: value_or_default_def slots_wanted_def)
qed

text \<open>Starting leaves the process as it was, or opens the listening socket and has the slots free.\<close>

lemma mb_tcp_start_cases:
  assumes "mb_tcp_start S K (Some c) (Some g) N = (rc, ctx', N')"
  shows "rc = - 1 \<and> n_open N' = n_open N \<and> n_links N' = n_links N \<and> (\<exists>c'. ctx' = Some c' \<and> (initialized c = 0 \<longrightarrow> initialized c' = 0)) \<or>
    rc = 0 \<and> initialized c = 0 \<and> n_links N' = n_links N \<and>
    (if mode g = MB_TCP_MODE_LISTEN_SERVER then
       0 \<le> l_socket (s_listen S) \<and> n_open N' = l_socket (s_listen S) # n_open N \<and>
       ctx' = Some ((started_ctx g)\<lparr>listen_sock := l_socket (s_listen S), client_fds := replicate (slots_wanted g) (- 1),
         client_cap := of_nat (slots_wanted g)\<rparr>)
     else n_open N' = n_open N \<and> ctx' = Some (started_ctx g))"
proof (cases "mode g = MB_TCP_MODE_CONNECT_CLIENT \<and> (remote_host g = None \<or> remote_host g = Some []) \<or> initialized c \<noteq> 0")
  case True
  then have "mb_tcp_start S K (Some c) (Some g) N = (- 1, Some c, N)"
    by (cases "initialized c = 0") (simp_all add: mb_tcp_start_def)
  then show ?thesis using assms by simp
next
  case args: False
  let ?N = "if h_init K then N\<lparr>n_inits := Suc (n_inits N)\<rparr> else N"
  have N: "n_open ?N = n_open N" "n_links ?N = n_links N" by simp_all
  show ?thesis
  proof (cases "mode g = MB_TCP_MODE_LISTEN_SERVER")
    case True
    let ?c = "(started_ctx g)\<lparr>client_fds := replicate (slots_wanted g) (- 1), client_cap := of_nat (slots_wanted g), initialized := 0\<rparr>"
    obtain r1 c1 N1 where l: "mb_tcp_listen_init (s_listen S) ?c ?N = (r1, c1, N1)" by (metis prod_cases3)
    have "mb_tcp_start S K (Some c) (Some g) N =
       (if \<not> s_malloc S then (- 1, Some (?c\<lparr>client_fds := []\<rparr>), N)
        else if s_mutex S \<noteq> 0 then (- 1, Some (?c\<lparr>client_fds := []\<rparr>), N)
        else if r1 < 0 \<or> s_thread S \<noteq> 0 then
          (if listen_sock c1 \<ge> 0 then (- 1, Some (c1\<lparr>listen_sock := - 1, client_fds := []\<rparr>), net_close (listen_sock c1) N1)
           else (- 1, Some (c1\<lparr>client_fds := []\<rparr>), N1))
        else (0, Some (c1\<lparr>initialized := 1\<rparr>), N1))"
      using args True l
      by (simp add: mb_tcp_start_def Let_def client_cap_slots slots_wanted_bounds started_ctx_def)
    with assms mb_tcp_listen_init_cases[OF l] True args N show ?thesis
      by (elim disjE) (auto simp: net_close_def split: if_splits)
  next
    case False
    with args assms N show ?thesis
      by (auto simp: mb_tcp_start_def Let_def started_ctx_def split: if_splits)
  qed
qed

text \<open>What stopping makes of the context; \<open>cfg\<close> and the transaction counter stay.\<close>

definition stopped_ctx :: "mb_tcp_ctx \<Rightarrow> mb_tcp_ctx" where
  "stopped_ctx c =
     c\<lparr>keep_running := 0, listen_sock := - 1, stream_sock := - 1, client_fds := [], client_cap := 0, initialized := 0\<rparr>"

lemma mb_tcp_stop_server:
  assumes ok: "serving_ok K (add_mset (listen_sock ctx) base) L ctx N"
    and "initialized ctx \<noteq> 0" and "stream_sock ctx = - 1" and "length (client_fds ctx) = unat (client_cap ctx)"
  shows "\<exists>N'. mb_tcp_stop (Some ctx) N = Some (Some (stopped_ctx ctx), N') \<and> mset (n_open N') = base \<and> n_links N' = n_links N \<and>
    n_shut N' = n_shut N @ listen_sock ctx # clients (client_fds ctx)"
proof -
  let ?held = "listen_sock ctx # clients (client_fds ctx)"
  let ?N = "fold net_close ?held (N\<lparr>n_shut := n_shut N @ ?held\<rparr>)"
  have shut: "n_shut (fold net_close fds M) = n_shut M" for fds M
    by (induction fds arbitrary: M) (simp_all add: net_close_def)
  have "0 \<le> listen_sock ctx" using ok by (simp add: serving_ok_def fd_ok_def)
  then have "mb_tcp_stop (Some ctx) N = Some (Some (stopped_ctx ctx), ?N)"
    using assms(2-4) by (simp add: mb_tcp_stop_def Let_def clients_def stopped_ctx_def)
  moreover have "mset (n_open ?N) = base"
    using ok by (simp only: mset_fold_close) (simp add: serving_ok_def slots_ok_def)
  moreover have "n_shut ?N = n_shut N @ ?held" by (simp only: shut) simp
  ultimately show ?thesis by simp
qed

section \<open>The thread that connects\<close>

lemma mb_tcp_connect_failed:
  assumes "mb_tcp_connect D (Some fd) bi h p t w = Some (rc, so', w')" and "rc \<noteq> 0" and "fd < 0"
  shows "\<exists>n<0. so' = Some n"
  using assms by (auto simp: mb_tcp_connect_def Let_def split: if_splits connect_event.splits)

text \<open>
  The thread and the process agree: without a connection the process holds what it held before, with
  one its descriptor as well, which the context knows and which has a receive timeout; and the reports
  say the same.
\<close>

definition dialling_ok :: "hooks \<Rightarrow> c_int multiset \<Rightarrow> nat \<Rightarrow> mb_tcp_ctx \<Rightarrow> 'u dialler \<Rightarrow> bool" where
  "dialling_ok K base L c t \<longleftrightarrow>
     dl_ctx t = c\<lparr>stream_sock := (if dl_connected t = 0 then - 1 else dl_sock t)\<rparr> \<and>
     (if dl_connected t = 0 then dl_sock t < 0 else 0 \<le> dl_sock t \<and> rcvtimeo (n_socks (dl_net t) (dl_sock t))) \<and>
     mset (n_open (dl_net t)) = (if dl_connected t = 0 then base else add_mset (dl_sock t) base) \<and>
     L \<le> length (n_links (dl_net t)) \<and>
     (h_link K \<longrightarrow> links_up (drop L (n_links (dl_net t))) = Some (if dl_connected t = 0 then {} else {dl_sock t}))"

lemma dial_out_ok:
  assumes ok: "dialling_ok K base L c t" and "dl_connected t = 0" and "d_socket (c_dial ev) < FD_SETSIZE"
  shows "\<exists>t'. dial_out K ev t = Some t' \<and> dialling_ok K base L c t' \<and> dl_app t' = dl_app t"
proof -
  let ?g = "cfg (dl_ctx t)" and ?w = "(c_peer ev)\<lparr>open_fds := n_open (dl_net t)\<rparr>"
  obtain rc so s where c: "mb_tcp_connect (c_dial ev) (Some (dl_sock t)) (bind_iface ?g) (remote_host ?g) (port ?g)
      (connect_timeout_sec ?g) ?w = Some (rc, so, s)"
    using mb_tcp_connect_defined[OF assms(3)] by (metis prod_cases3)
  show ?thesis
  proof (cases "rc = 0")
    case True
    with mb_tcp_connect_fds[OF c] have "so = Some (d_socket (c_dial ev))" "0 \<le> d_socket (c_dial ev)"
      "open_fds s = d_socket (c_dial ev) # n_open (dl_net t)" "rcvtimeo s" by auto
    then show ?thesis using c True ok assms(2)
      by (simp add: dial_out_def Let_def dialling_ok_def link_step_def)
  next
    case False
    with mb_tcp_connect_fds[OF c] have fds: "open_fds s = n_open (dl_net t)" by auto
    have "dl_sock t < 0" using ok assms(2) by (simp add: dialling_ok_def)
    from mb_tcp_connect_failed[OF c False this] obtain n where "so = Some n" "n < 0" by blast
    then show ?thesis using c False ok assms(2) fds
      by (simp add: dial_out_def Let_def dialling_ok_def)
  qed
qed

context stream_service
begin

lemma client_round_ok:
  assumes "dialling_ok K base L c t" and "inv (dl_app t)" and "d_socket (c_dial ev) < FD_SETSIZE"
  shows "\<exists>t'. client_round K (Some serve) ev t = Some t' \<and> dialling_ok K base L c t' \<and> inv (dl_app t')"
proof -
  have "\<exists>t1. (if dl_connected t = 0 then dial_out K ev t else Some t) = Some t1 \<and> dialling_ok K base L c t1 \<and> inv (dl_app t1)"
    using dial_out_ok[OF assms(1) _ assms(3)] assms(1,2) by (cases "dl_connected t = 0") auto
  then obtain t1 where t1: "(if dl_connected t = 0 then dial_out K ev t else Some t) = Some t1"
    "dialling_ok K base L c t1" "inv (dl_app t1)" by blast
  show ?thesis
  proof (cases "dl_connected t1 = 0")
    case True
    then show ?thesis using t1 by (simp add: client_round_def)
  next
    case False
    let ?fd = "dl_sock t1"
    have "rcvtimeo (n_socks (dl_net t1) ?fd)" using t1(2) False by (simp add: dialling_ok_def)
    from returns[OF t1(3) this] obtain rc u s where f: "serve ?fd (dl_app t1) (n_socks (dl_net t1) ?fd) = Some (rc, u, s)"
      "inv u" "rcvtimeo s" by blast
    show ?thesis
    proof (cases "rc < 0")
      case True
      then show ?thesis using t1 False f by (simp add: client_round_def Let_def dialling_ok_def link_step_def)
    next
      case rc: False
      then show ?thesis using t1 False f by (simp add: client_round_def Let_def dialling_ok_def)
    qed
  qed
qed

lemma client_rounds_ok:
  assumes "dialling_ok K base L c t" and "inv (dl_app t)" and "list_all (\<lambda>(keep, ev). d_socket (c_dial ev) < FD_SETSIZE) rs"
  shows "\<exists>t'. client_rounds K (Some serve) rs t = Some t' \<and> dialling_ok K base L c t' \<and> inv (dl_app t')"
  using assms
proof (induction rs arbitrary: t)
  case (Cons r rs)
  obtain keep ev where r: "r = (keep, ev)" by fastforce
  show ?case
  proof (cases "keep = 0")
    case True
    then show ?thesis using Cons.prems r by simp
  next
    case False
    from client_round_ok[OF Cons.prems(1,2), of ev] Cons.prems(3) r obtain t1 where
      a: "client_round K (Some serve) ev t = Some t1" "dialling_ok K base L c t1" "inv (dl_app t1)" by auto
    from Cons.IH[OF a(2,3)] Cons.prems(3) r a(1) False show ?thesis by auto
  qed
qed simp

end

end
