(* ===== verification/Tcp_Service.thy ===== *)
theory Tcp_Service
  imports Tcp_Transport_Facts Tcp_Server
begin

text \<open>
  The TCP server on its transport: starting and stopping it (\<^verbatim>\<open>src/src/modbus_tcp_server.c\<close>), its
  callback as the service the threads of the transport call, and what one round of the listener does
  for the clients that sent a request.
\<close>

section \<open>Starting and stopping\<close>

record 'u mb_tcp_server_ctx =
  ts_transport :: mb_tcp_ctx
  ts_cfg :: "'u mb_tcp_server_config"

text \<open>The transport context after \<open>memset\<close>.\<close>

definition zero_transport :: mb_tcp_ctx where
  "zero_transport =
     \<lparr>keep_running = 0, tid = 0,
      cfg = \<lparr>mode = 0, remote_host = None, port = 0, bind_iface = None, connect_timeout_sec = 0, connect_retry_sec = 0,
        recv_timeout_ms = 0, max_clients = 0, keepalive_idle_sec = 0, keepalive_interval_sec = 0, keepalive_count = 0,
        idle_poll_ms = 0\<rparr>,
      listen_sock = 0, stream_sock = 0, client_fds = [], client_cap = 0, initialized = 0\<rparr>"

definition transport_cfg :: "'u mb_tcp_server_config \<Rightarrow> u32 \<Rightarrow> mb_tcp_config" where
  "transport_cfg g timeout_ms =
     \<lparr>mode = MB_TCP_MODE_LISTEN_SERVER, remote_host = None, port = srv_port g, bind_iface = None, connect_timeout_sec = 0,
      connect_retry_sec = 0, recv_timeout_ms = timeout_ms, max_clients = srv_max_clients g,
      keepalive_idle_sec = srv_keepalive_idle_sec g, keepalive_interval_sec = srv_keepalive_interval_sec g,
      keepalive_count = srv_keepalive_count g, idle_poll_ms = srv_idle_poll_ms g\<rparr>"

text \<open>Of the hooks of the transport only \<open>on_link\<close> may be set.\<close>

definition server_hooks :: "bool \<Rightarrow> hooks" where
  "server_hooks link = \<lparr>h_link = link, h_error = False, h_init = False\<rparr>"

definition mb_tcp_server_start ::
    "start_env \<Rightarrow> bool \<Rightarrow> 'u mb_tcp_server_ctx option \<Rightarrow> 'u mb_tcp_server_config option \<Rightarrow> net \<Rightarrow>
     c_int \<times> 'u mb_tcp_server_ctx option \<times> net" where
  "mb_tcp_server_start S link ctx conf N =
     (case (ctx, conf) of
        (Some c, Some g) \<Rightarrow>
          if initialized (ts_transport c) \<noteq> 0 then (- 1, ctx, N)
          else
            let scfg = (if srv_recv_timeout_ms g = 0 then g\<lparr>srv_recv_timeout_ms := MB_TCP_SERVER_DEFAULT_RECV_TIMEOUT_MS\<rparr> else g) in
            (case mb_tcp_start S (server_hooks link) (Some zero_transport) (Some (transport_cfg g (srv_recv_timeout_ms scfg))) N of
               (rc, tr, N) \<Rightarrow> (rc, Some \<lparr>ts_transport = the tr, ts_cfg = scfg\<rparr>, N))
      | _ \<Rightarrow> (- 1, ctx, N))"

definition mb_tcp_server_stop :: "'u mb_tcp_server_ctx option \<Rightarrow> net \<Rightarrow> ('u mb_tcp_server_ctx option \<times> net) option" where
  "mb_tcp_server_stop ctx N =
     (case ctx of
        None \<Rightarrow> Some (ctx, N)
      | Some c \<Rightarrow> map_option (\<lambda>(tr, N). (Some (c\<lparr>ts_transport := the tr\<rparr>), N)) (mb_tcp_stop (Some (ts_transport c)) N))"

text \<open>The listener of a started server: the thread of the transport with the server's callback.\<close>

definition tcp_server_service :: "stack \<Rightarrow> 'u mb_tcp_server_config \<Rightarrow> 'u service" where
  "tcp_server_service J scfg fd u s = server_on_process J scfg u s"

definition tcp_server_listener ::
    "stack \<Rightarrow> bool \<Rightarrow> (c_int \<times> tcp_round) list \<Rightarrow> 'u mb_tcp_server_ctx \<Rightarrow> net \<Rightarrow> 'u \<Rightarrow>
     ('u mb_tcp_server_ctx \<times> net \<times> 'u) option" where
  "tcp_server_listener J link rs c N u =
     map_option (\<lambda>(tr, N, u). (c\<lparr>ts_transport := tr\<rparr>, N, u))
       (mb_tcp_server_thread (server_hooks link) (Some (tcp_server_service J (ts_cfg c))) rs (ts_transport c) N u)"

section \<open>The server's callback as a service\<close>

lemma server_on_process_returns:
  assumes "rcvtimeo w" and "keeps_arrays (srv_handlers scfg)"
  shows "\<exists>rc u' w'. server_on_process J scfg u w = Some (rc, u', w') \<and> rcvtimeo w'"
  using server_on_process_total[OF assms, of J u] assms(1) by auto

text \<open>With callbacks that implement a device the invariant of the application is kept as well.\<close>

lemma server_on_process_device:
  assumes dev: "device_ok I (srv_handlers scfg) d" and "I u" and "rcvtimeo w"
  shows "\<exists>rc u' w'. server_on_process J scfg u w = Some (rc, u', w') \<and> I u' \<and> rcvtimeo w'"
  using server_on_process_cases[OF assms(3), of J scfg u]
proof (elim disjE exE conjE)
  fix r assume "server_on_process J scfg u w = Some (- 1, u, w\<lparr>rx := r\<rparr>)"
  then show ?thesis using assms(2,3) by simp
next
  fix tid2 proto2 uid pdu tl2
  assume len: "length tid2 = 2" "length proto2 = 2" "1 \<le> length pdu" "length pdu \<le> 253"
    and bytes: "rx_bytes (rx w) = mbap_frame tid2 proto2 uid pdu @ tl2"
  let ?w = "w\<lparr>rx := rx_drop (7 + length pdu) (rx w)\<rparr>"
  note call = server_on_process_frame[OF bytes len, of J scfg u]
  show ?thesis
  proof (cases "proto2 \<noteq> [0, 0] \<or> \<not> accepts_unit scfg uid")
    case True
    then show ?thesis using call assms(2,3) by (simp add: Let_def)
  next
    case False
    let ?pdu = "pdu @ drop (7 + length pdu) (local8 J 260)"
    obtain reply u' where serve: "serve d u pdu = (reply, u')" by fastforce
    obtain rc s' out where send: "send_loop (mbap_frame tid2 [0, 0] uid (reply_pdu reply)) ?w = (rc, ?w\<lparr>tx := s', wire := out\<rparr>)"
      using send_loop_wire[of "mbap_frame tid2 [0, 0] uid (reply_pdu reply)" ?w] by blast
    have "I u'" using serve_keeps[OF dev assms(2), of pdu] serve len(3) by (cases pdu) auto
    then show ?thesis
      using call False respond_serve[OF dev assms(2) len(3), of ?pdu tid2 J uid ?w] len(1) serve send assms(3)
      by (simp add: Let_def)
  qed
qed

lemma server_service:
  "keeps_arrays (srv_handlers scfg) \<Longrightarrow> stream_service (tcp_server_service J scfg) (\<lambda>_. True)"
  "device_ok I (srv_handlers scfg) d \<Longrightarrow> stream_service (tcp_server_service J scfg) I"
  by (unfold_locales, use server_on_process_returns server_on_process_device in \<open>fastforce simp: tcp_server_service_def\<close>)+

section \<open>Requests served in turn\<close>

text \<open>\<open>q fd\<close> is the next request of the client \<open>fd\<close>: its transaction and unit identifiers and its PDU.\<close>

definition request_waits :: "'u mb_tcp_server_config \<Rightarrow> (c_int \<Rightarrow> u16 \<times> u8 \<times> u8 list) \<Rightarrow> c_int \<Rightarrow> sock \<Rightarrow> bool" where
  "request_waits scfg q fd s = (case q fd of (t, uid, pdu) \<Rightarrow>
     tcp_adu t uid pdu = take (7 + length pdu) (rx_bytes (rx s)) \<and> 1 \<le> length pdu \<and> length pdu \<le> 253 \<and>
     accepts_unit scfg uid \<and> tx s = [])"

text \<open>The abstract device serving the clients one after the other: what each gets, and the state after.\<close>

primrec serve_turns ::
    "'u device \<Rightarrow> (c_int \<Rightarrow> u16 \<times> u8 \<times> u8 list) \<Rightarrow> c_int list \<Rightarrow> 'u \<Rightarrow> (c_int \<Rightarrow> u8 list) \<times> 'u" where
  "serve_turns d q [] u = (\<lambda>_. [], u)"
| "serve_turns d q (fd # r) u =
     (case q fd of (t, uid, pdu) \<Rightarrow>
        case serve d u pdu of (reply, u) \<Rightarrow>
          case serve_turns d q r u of (out, u) \<Rightarrow> (out(fd := tcp_adu t uid (reply_pdu reply)), u))"

lemma serve_turns_other: "fd \<notin> set fds \<Longrightarrow> fst (serve_turns d q fds u) fd = []"
  by (induction fds arbitrary: u) (auto split: prod.split, metis fst_conv)

lemma serve_clients_turns:
  assumes dev: "device_ok I (srv_handlers scfg) d" and "I u" and "distinct (clients slots)"
    and "\<forall>fd \<in> set (clients slots). isset fd \<longrightarrow> request_waits scfg q fd (n_socks N fd)"
  shows "\<exists>socks. serve_clients K (Some (tcp_server_service J scfg)) isset slots N u =
      Some (slots, N\<lparr>n_socks := socks\<rparr>, snd (serve_turns d q (filter isset (clients slots)) u)) \<and>
    (\<forall>fd. wire (socks fd) = wire (n_socks N fd) @ fst (serve_turns d q (filter isset (clients slots)) u) fd \<and>
      (fd \<notin> set (filter isset (clients slots)) \<longrightarrow> socks fd = n_socks N fd))"
  using assms(2-4)
proof (induction slots arbitrary: N u)
  case Nil
  have "N = N\<lparr>n_socks := n_socks N\<rparr>" by simp
  then show ?case by (intro exI[of _ "n_socks N"]) simp
next
  case (Cons sd r)
  show ?case
  proof (cases "0 \<le> sd \<and> isset sd")
    case False
    then show ?thesis using Cons.IH[of u N] Cons.prems by (auto split: if_splits)
  next
    case True
    obtain t uid pdu where q: "q sd = (t, uid, pdu)" by (metis prod_cases3)
    have w: "request_waits scfg q sd (n_socks N sd)" using Cons.prems(3) True by simp
    obtain reply u1 where serve: "serve d u pdu = (reply, u1)" by fastforce
    let ?s = "n_socks N sd" and ?ans = "tcp_adu t uid (reply_pdu reply)"
    have "rx_bytes (rx ?s) = tcp_adu t uid pdu @ drop (7 + length pdu) (rx_bytes (rx ?s))"
      using w q by (simp add: request_waits_def)
    from tcp_server_answers_step[OF dev Cons.prems(1) this, of J] w q serve obtain x where
      call: "server_on_process J scfg u ?s = Some (0, u1, ?s\<lparr>rx := x, wire := wire ?s @ ?ans\<rparr>)"
      by (auto simp: request_waits_def)
    then have call: "tcp_server_service J scfg sd u ?s = Some (0, u1, ?s\<lparr>rx := x, wire := wire ?s @ ?ans\<rparr>)"
      by (simp add: tcp_server_service_def)
    have pdu: "pdu \<noteq> []" using w q by (auto simp: request_waits_def)
    have inv: "I u1" using serve_keeps[OF dev Cons.prems(1), of pdu] serve pdu by simp
    let ?N = "N\<lparr>n_socks := (n_socks N)(sd := ?s\<lparr>rx := x, wire := wire ?s @ ?ans\<rparr>)\<rparr>"
    have sd: "sd \<notin> set (clients r)" "distinct (clients r)" using Cons.prems(2) True by auto
    have "\<forall>fd \<in> set (clients r). isset fd \<longrightarrow> request_waits scfg q fd (n_socks ?N fd)"
      using Cons.prems(3) sd(1) True by auto
    from Cons.IH[OF inv sd(2) this] obtain socks where ih:
      "serve_clients K (Some (tcp_server_service J scfg)) isset r ?N u1 =
        Some (r, N\<lparr>n_socks := socks\<rparr>, snd (serve_turns d q (filter isset (clients r)) u1))"
      "\<forall>fd. wire (socks fd) = wire (n_socks ?N fd) @ fst (serve_turns d q (filter isset (clients r)) u1) fd \<and>
        (fd \<notin> set (filter isset (clients r)) \<longrightarrow> socks fd = n_socks ?N fd)" by auto
    obtain out u2 where t: "serve_turns d q (filter isset (clients r)) u1 = (out, u2)" by fastforce
    have "out sd = []" using serve_turns_other[of sd "filter isset (clients r)" d q u1] sd(1) t by simp
    then show ?thesis using ih True call q serve t
      by (intro exI[of _ socks]) auto
  qed
qed

section \<open>A server from start to stop\<close>

lemma clients_free [simp]: "clients (replicate n (- 1)) = []"
  by (induction n) simp_all

definition server_slots :: "'u mb_tcp_server_config \<Rightarrow> nat" where
  "server_slots g = slots_wanted (transport_cfg g 0)"

lemma mb_tcp_server_start_failed:
  assumes "mb_tcp_server_start S link (Some c) (Some g) N = (rc, c1, N1)" and "rc \<noteq> 0"
  shows "rc = - 1 \<and> n_open N1 = n_open N \<and> n_links N1 = n_links N"
proof (cases "initialized (ts_transport c) = 0")
  case False
  then show ?thesis using assms by (simp add: mb_tcp_server_start_def)
next
  case True
  let ?t = "if srv_recv_timeout_ms g = 0 then MB_TCP_SERVER_DEFAULT_RECV_TIMEOUT_MS else srv_recv_timeout_ms g"
  obtain r tr N2 where t: "mb_tcp_start S (server_hooks link) (Some zero_transport) (Some (transport_cfg g ?t)) N = (r, tr, N2)"
    by (metis prod_cases3)
  then show ?thesis using mb_tcp_start_cases[OF t] assms True
    by (auto simp: mb_tcp_server_start_def Let_def split: if_splits)
qed

lemma mb_tcp_server_started:
  assumes start: "mb_tcp_server_start S link (Some c) (Some g) N = (0, c1, N1)" and fd: "l_socket (s_listen S) < FD_SETSIZE"
  shows "\<exists>tr. c1 = Some \<lparr>ts_transport = tr, ts_cfg = g\<lparr>srv_recv_timeout_ms := recv_timeout_ms (cfg tr)\<rparr>\<rparr> \<and>
    serving_ok (server_hooks link) (add_mset (listen_sock tr) (mset (n_open N))) (length (n_links N)) tr N1 \<and>
    initialized tr \<noteq> 0 \<and> stream_sock tr = - 1 \<and> length (client_fds tr) = unat (client_cap tr) \<and>
    unat (client_cap tr) = server_slots g \<and> keep_running tr = 1 \<and> n_open N1 = l_socket (s_listen S) # n_open N"
proof -
  let ?t = "if srv_recv_timeout_ms g = 0 then MB_TCP_SERVER_DEFAULT_RECV_TIMEOUT_MS else srv_recv_timeout_ms g"
  let ?g = "transport_cfg g ?t"
  have init: "initialized (ts_transport c) = 0"
    using start by (simp add: mb_tcp_server_start_def split: if_splits)
  obtain r tr N2 where t: "mb_tcp_start S (server_hooks link) (Some zero_transport) (Some ?g) N = (r, tr, N2)"
    by (metis prod_cases3)
  have c1: "r = 0" "c1 = Some \<lparr>ts_transport = the tr, ts_cfg = g\<lparr>srv_recv_timeout_ms := ?t\<rparr>\<rparr>" "N2 = N1"
    using start t init by (cases "srv_recv_timeout_ms g = 0"; auto simp: mb_tcp_server_start_def Let_def)+
  have n: "slots_wanted ?g = server_slots g" by (simp add: slots_wanted_def server_slots_def transport_cfg_def)
  let ?tr = "(started_ctx ?g)\<lparr>listen_sock := l_socket (s_listen S), client_fds := replicate (server_slots g) (- 1),
      client_cap := of_nat (server_slots g)\<rparr>"
  have N1: "tr = Some ?tr" "0 \<le> l_socket (s_listen S)" "n_open N1 = l_socket (s_listen S) # n_open N" "n_links N1 = n_links N"
    using mb_tcp_start_cases[OF t] c1 n by (auto simp: transport_cfg_def)
  have "recv_timeout_ms (cfg ?tr) = ?t" "0 < ?t" by (simp_all add: transport_cfg_def word_neq_0_conv[symmetric])
  moreover have "unat (of_nat (server_slots g) :: u16) = server_slots g"
    using slots_wanted_bounds(3)[of ?g] n by simp
  ultimately show ?thesis using c1(2) N1 fd
    by (intro exI[of _ ?tr]) (simp add: serving_ok_def slots_ok_def fd_ok_def started_ctx_def)
qed

text \<open>The whole life of a server, for every script of the operating system.\<close>

lemma tcp_server_lifecycle:
  assumes "mb_tcp_server_start S link (Some c) (Some g) N = (0, c1, N1)" and "l_socket (s_listen S) < FD_SETSIZE"
    and dev: "device_ok I (srv_handlers g) d" and "I u" and "list_all (\<lambda>(keep, ev). kernel_ok ev) rs"
  shows "\<exists>c2 N2 u2 c3 N3. tcp_server_listener J link rs (the c1) N1 u = Some (c2, N2, u2) \<and>
    slots_ok (server_hooks link) (add_mset (listen_sock (ts_transport c2)) (mset (n_open N))) (length (n_links N))
      (client_fds (ts_transport c2)) N2 \<and>
    length (client_fds (ts_transport c2)) = server_slots g \<and>
    mb_tcp_server_stop (Some c2) N2 = Some (Some c3, N3) \<and> mset (n_open N3) = mset (n_open N) \<and>
    initialized (ts_transport c3) = 0 \<and> n_links N3 = n_links N2"
proof -
  obtain tr where tr: "c1 = Some \<lparr>ts_transport = tr, ts_cfg = g\<lparr>srv_recv_timeout_ms := recv_timeout_ms (cfg tr)\<rparr>\<rparr>"
    "serving_ok (server_hooks link) (add_mset (listen_sock tr) (mset (n_open N))) (length (n_links N)) tr N1"
    "initialized tr \<noteq> 0" "stream_sock tr = - 1" "length (client_fds tr) = unat (client_cap tr)"
    "unat (client_cap tr) = server_slots g"
    using mb_tcp_server_started[OF assms(1,2)] by blast
  let ?g = "g\<lparr>srv_recv_timeout_ms := recv_timeout_ms (cfg tr)\<rparr>"
  from stream_service.server_thread_ok[OF server_service(2)[of I ?g d J] tr(2) assms(4,5)] dev obtain slots N2 u2 where
    run: "mb_tcp_server_thread (server_hooks link) (Some (tcp_server_service J ?g)) rs tr N1 u =
        Some (tr\<lparr>client_fds := slots\<rparr>, N2, u2)"
      "serving_ok (server_hooks link) (add_mset (listen_sock tr) (mset (n_open N))) (length (n_links N)) (tr\<lparr>client_fds := slots\<rparr>) N2"
      "length slots = length (client_fds tr)" by auto
  from mb_tcp_stop_server[of "server_hooks link" "tr\<lparr>client_fds := slots\<rparr>" "mset (n_open N)" "length (n_links N)" N2] run tr
  obtain N3 where stop: "mb_tcp_stop (Some (tr\<lparr>client_fds := slots\<rparr>)) N2 =
      Some (Some (stopped_ctx (tr\<lparr>client_fds := slots\<rparr>)), N3)" "mset (n_open N3) = mset (n_open N)" "n_links N3 = n_links N2"
    by auto
  show ?thesis using run stop tr
    by (intro exI[of _ "\<lparr>ts_transport = tr\<lparr>client_fds := slots\<rparr>, ts_cfg = ?g\<rparr>"] exI[of _ N2] exI[of _ u2]
        exI[of _ "\<lparr>ts_transport = stopped_ctx (tr\<lparr>client_fds := slots\<rparr>), ts_cfg = ?g\<rparr>"] exI[of _ N3])
       (simp add: tcp_server_listener_def mb_tcp_server_stop_def serving_ok_def stopped_ctx_def)
qed

end
