(* ===== verification/Tcp_Server_Example.thy ===== *)
theory Tcp_Server_Example
  imports Tcp_Service Register_Bank
begin

text \<open>
  The application of \<^verbatim>\<open>src/examples/tcp_server_example.c\<close>: a bank of 32 registers of which six are
  refreshed before every read, the counter of connected masters behind \<open>on_link\<close>, and the program
  around the server. The values of \<open>time\<close> are a script, one for each call. What the program prints and
  the lock of the bank have no counterpart.
\<close>

section \<open>The callbacks\<close>

abbreviation (input) REG_HUMIDITY :: nat where "REG_HUMIDITY \<equiv> 1"
abbreviation (input) TCP_REG_STATUS :: nat where "TCP_REG_STATUS \<equiv> 2"
abbreviation (input) REG_UPTIME_LOW :: nat where "REG_UPTIME_LOW \<equiv> 3"
abbreviation (input) REG_UPTIME_HIGH :: nat where "REG_UPTIME_HIGH \<equiv> 4"
abbreviation (input) REG_DEVICE_ID :: nat where "REG_DEVICE_ID \<equiv> 0x14"

record tcp_app_ctx =
  app_bank :: "u16 list"
  app_time :: "nat \<Rightarrow> u32"
  app_reads :: nat

definition tcp_on_read ::
    "u8 \<Rightarrow> u16 \<Rightarrow> u16 \<Rightarrow> u16 list \<Rightarrow> tcp_app_ctx option \<Rightarrow> (c_int \<times> u16 list \<times> tcp_app_ctx option) option" where
  "tcp_on_read function_code addr qty out userdata =
     (case userdata of
        None \<Rightarrow> Some (uint MODBUS_EX_SERVER_DEVICE_FAILURE, out, userdata)
      | Some app \<Rightarrow>
          if (ucast addr :: u32) + ucast qty > REG_BANK_SIZE then
            Some (uint MODBUS_EX_ILLEGAL_DATA_ADDRESS, out, userdata)
          else do {
            bank \<leftarrow> wr (app_bank app) REG_TEMPERATURE 253;
            bank \<leftarrow> wr bank REG_HUMIDITY 60;
            bank \<leftarrow> wr bank TCP_REG_STATUS 0x0001;
            let uptime_sec = app_time app (app_reads app);
            bank \<leftarrow> wr bank REG_UPTIME_LOW (ucast (uptime_sec AND 0xFFFF));
            bank \<leftarrow> wr bank REG_UPTIME_HIGH (ucast (drop_bit 16 uptime_sec));
            bank \<leftarrow> wr bank REG_DEVICE_ID 0x0100;
            out \<leftarrow> for_upto (unat qty) (\<lambda>i out. do { v \<leftarrow> rd bank (unat addr + i); wr out i v }) out;
            Some (0, out, Some (app\<lparr>app_bank := bank, app_reads := Suc (app_reads app)\<rparr>)) })"

definition tcp_on_write :: "u16 \<Rightarrow> u16 \<Rightarrow> u16 list \<Rightarrow> tcp_app_ctx option \<Rightarrow> (c_int \<times> tcp_app_ctx option) option" where
  "tcp_on_write addr qty data userdata =
     (case userdata of
        None \<Rightarrow> Some (uint MODBUS_EX_SERVER_DEVICE_FAILURE, userdata)
      | Some app \<Rightarrow>
          if (ucast addr :: u32) + ucast qty > REG_BANK_SIZE then
            Some (uint MODBUS_EX_ILLEGAL_DATA_ADDRESS, userdata)
          else do {
            bank \<leftarrow> for_upto (unat qty) (\<lambda>i bank. do { v \<leftarrow> rd data i; wr bank (unat addr + i) v }) (app_bank app);
            Some (0, Some (app\<lparr>app_bank := bank\<rparr>)) })"

definition tcp_bank_handlers :: "tcp_app_ctx option mb_pdu_handlers" where
  "tcp_bank_handlers = \<lparr>read_registers = Some tcp_on_read, write_registers = Some tcp_on_write,
     read_bits = None, write_bits = None\<rparr>"

text \<open>The counter of connected masters; it does not go below 0.\<close>

definition on_link_change :: "c_int \<Rightarrow> c_int \<times> c_int \<Rightarrow> c_int" where
  "on_link_change active_connections l =
     (case l of (fd, connected) \<Rightarrow>
        if connected \<noteq> 0 then active_connections + 1
        else if active_connections > 0 then active_connections - 1 else active_connections)"

section \<open>The program\<close>

definition example_config :: "tcp_app_ctx option mb_tcp_server_config" where
  "example_config =
     (let c = \<lparr>srv_port = 0, srv_unit_id = 0, srv_max_clients = 0, srv_recv_timeout_ms = 0, srv_keepalive_idle_sec = 0,
        srv_keepalive_interval_sec = 0, srv_keepalive_count = 0, srv_idle_poll_ms = 0,
        srv_handlers = \<lparr>read_registers = None, write_registers = None, read_bits = None, write_bits = None\<rparr>\<rparr>
      in (the (mb_tcp_server_config_init (Some c)))\<lparr>srv_port := 502, srv_unit_id := 1, srv_handlers := tcp_bank_handlers\<rparr>)"

text \<open>
  \<open>main\<close>: \<open>mutex\<close> is what initialising the lock returns, \<open>rs\<close> the rounds of the listener until the
  signal that ends the program; the result is the exit status, the process and the counter.
\<close>

definition tcp_server_main ::
    "stack \<Rightarrow> c_int \<Rightarrow> start_env \<Rightarrow> (c_int \<times> tcp_round) list \<Rightarrow> (nat \<Rightarrow> u32) \<Rightarrow> net \<Rightarrow>
     (c_int \<times> net \<times> c_int) option" where
  "tcp_server_main J mutex S rs clock N =
     (let app = Some \<lparr>app_bank = replicate 32 0, app_time = clock, app_reads = 0\<rparr>;
          server = \<lparr>ts_transport = zero_transport, ts_cfg = example_config\<rparr>;
          reports = length (n_links N)
      in
        if mutex \<noteq> 0 then Some (1, N, 0)
        else
          (case mb_tcp_server_start S True (Some server) (Some example_config) N of (rc, server, N) \<Rightarrow>
             if rc \<noteq> 0 then Some (1, N, 0)
             else do {
               (server, N, app) \<leftarrow> tcp_server_listener J True rs (the server) N app;
               (server, N) \<leftarrow> mb_tcp_server_stop (Some server) N;
               Some (0, N, foldl on_link_change 0 (drop reports (n_links N))) }))"

section \<open>The device they implement\<close>

definition tcp_bank_ok :: "tcp_app_ctx option \<Rightarrow> bool" where
  "tcp_bank_ok u \<longleftrightarrow> pred_option (\<lambda>app. length (app_bank app) = 32) u"

definition tcp_refresh :: "u32 \<Rightarrow> u16 list \<Rightarrow> u16 list" where
  "tcp_refresh t bank = bank[0 := 253, 1 := 60, 2 := 1, 3 := ucast t, 4 := ucast (drop_bit 16 t), 20 := 0x100]"

definition tcp_bank_read :: "u8 \<Rightarrow> u16 \<Rightarrow> nat \<Rightarrow> tcp_app_ctx option \<Rightarrow> c_int \<times> u16 list \<times> tcp_app_ctx option" where
  "tcp_bank_read fc a n u =
     (case u of
        None \<Rightarrow> (4, [], u)
      | Some app \<Rightarrow>
          if unat a + n > 32 then (2, [], u)
          else
            let bank = tcp_refresh (app_time app (app_reads app)) (app_bank app)
            in (0, take n (drop (unat a) bank), Some (app\<lparr>app_bank := bank, app_reads := Suc (app_reads app)\<rparr>)))"

definition tcp_bank_write :: "u16 \<Rightarrow> u16 list \<Rightarrow> tcp_app_ctx option \<Rightarrow> c_int \<times> tcp_app_ctx option" where
  "tcp_bank_write a vs u =
     (case u of
        None \<Rightarrow> (4, u)
      | Some app \<Rightarrow>
          if unat a + length vs > 32 then (2, u)
          else (0, Some (app\<lparr>app_bank := blit (app_bank app) (unat a) vs\<rparr>)))"

definition tcp_bank_device :: "tcp_app_ctx option device" where
  "tcp_bank_device = \<lparr>dev_read_regs = Some tcp_bank_read, dev_write_regs = Some tcp_bank_write,
     dev_read_bits = None, dev_write_bits = None\<rparr>"

lemma length_tcp_refresh [simp]: "length (tcp_refresh t bank) = length bank"
  by (simp add: tcp_refresh_def)

lemma low_half: "(ucast (t AND 0xFFFF) :: u16) = ucast t" for t :: u32
proof -
  have m: "(0xFFFF :: u32) = mask 16" by (simp add: mask_eq_exp_minus_1)
  show ?thesis unfolding m by (rule bit_word_eqI) (simp add: bit_simps)
qed

lemma tcp_on_read_bank: "reads_regs_as tcp_bank_ok tcp_on_read tcp_bank_read"
  unfolding reads_regs_as_def
proof (intro allI impI, elim conjE)
  fix fc :: u8 and a q :: u16 and out :: "u16 list" and u
  assume u: "tcp_bank_ok u" and q: "1 \<le> unat q" "unat q \<le> length out"
  show "case tcp_bank_read fc a (unat q) u of (rc, vs, u') \<Rightarrow>
      \<exists>out'. tcp_on_read fc a q out u = Some (rc, out', u') \<and> length out' = length out \<and> tcp_bank_ok u' \<and>
        (rc = 0 \<longrightarrow> take (unat q) out' = vs)"
  proof (cases u)
    case None
    then show ?thesis by (simp add: tcp_on_read_def tcp_bank_read_def tcp_bank_ok_def)
  next
    case (Some app)
    with u have len: "length (app_bank app) = 32" by (simp add: tcp_bank_ok_def)
    let ?bank = "tcp_refresh (app_time app (app_reads app)) (app_bank app)"
    show ?thesis
    proof (cases "unat a + unat q > 32")
      case True
      then show ?thesis using Some u by (simp add: tcp_on_read_def tcp_bank_read_def bank_bound)
    next
      case False
      then have "tcp_on_read fc a q out u = Some (0, blit out 0 (take (unat q) (drop (unat a) ?bank)),
          Some (app\<lparr>app_bank := ?bank, app_reads := Suc (app_reads app)\<rparr>))"
        using Some len q
        by (simp add: tcp_on_read_def bank_bound wr_def low_half tcp_refresh_def copy_out_loop Let_def)
      then show ?thesis using False Some len q by (simp add: tcp_bank_read_def tcp_bank_ok_def Let_def)
    qed
  qed
qed

lemma tcp_on_write_bank: "writes_as tcp_bank_ok tcp_on_write tcp_bank_write"
  unfolding writes_as_def
  by (auto simp: tcp_on_write_def tcp_bank_write_def tcp_bank_ok_def bank_bound copy_in_loop not_less min_absorb2
      split: option.split)

interpretation tcp_bank: pdu_server tcp_bank_ok tcp_bank_handlers tcp_bank_device
  by unfold_locales (simp add: device_ok_def tcp_bank_handlers_def tcp_bank_device_def tcp_on_read_bank tcp_on_write_bank)

end
