(* ===== verification/Tcp_Service_Properties.thy ===== *)
theory Tcp_Service_Properties
  imports Tcp_Server_Example Tcp_Server_Properties
begin

text \<open>
  The properties of the TCP transport with the TCP server on it (\<^verbatim>\<open>src/src/modbus_tcp.c\<close>,
  \<^verbatim>\<open>src/src/modbus_tcp_server.c\<close>, \<^verbatim>\<open>src/examples/tcp_server_example.c\<close>), for every script of the
  operating system.
\<close>

section \<open>A run\<close>

text \<open>
  A client connects and stays; the listening socket is descriptor 3, the client 4. Its request for two
  registers is in the stream.
\<close>

definition demo_net :: net where
  "demo_net = \<lparr>n_open = [0, 1, 2], n_socks = \<lambda>_. (socket split_read), n_opts = [], n_shut = [], n_links = [], n_errors = [],
     n_inits = 0, n_naps = 0\<rparr>"

definition demo_start :: start_env where
  "demo_start = \<lparr>s_malloc = True, s_mutex = 0,
     s_listen = \<lparr>l_socket = 3, l_reuse = 0, l_bind = \<lambda>_. 0, l_listen = \<lambda>_. 0\<rparr>, s_thread = 0\<rparr>"

definition demo_round :: "c_int \<Rightarrow> tcp_round" where
  "demo_round ready = \<lparr>r_select = SelReady (\<lambda>fd. fd = ready), r_peek = \<lambda>_. - 1,
     r_accept = \<lambda>fds. if 4 \<in> set fds then - 1 else 4, r_peer = (socket split_read), r_granted = True\<rparr>"

lemma demo_round_ok: "kernel_ok (demo_round fd)"
  by (auto simp: kernel_ok_def demo_round_def)

section \<open>The server from start to stop\<close>



section \<open>Serving the clients that are ready\<close>

lemma server_round_turns:
  assumes "device_ok I (srv_handlers scfg) d" and "I u" and "serving_ok K base L ctx N"
    and "r_select ev = SelReady R" and "\<not> R (listen_sock ctx)"
    and "\<forall>fd \<in> set (clients (client_fds ctx)). R fd \<longrightarrow> request_waits scfg q fd (n_socks N fd)"
  shows "\<exists>socks. server_round K (Some (tcp_server_service J scfg)) ev ctx N u =
      Some (ctx, N\<lparr>n_socks := socks\<rparr>, snd (serve_turns d q (filter R (clients (client_fds ctx))) u)) \<and>
    (\<forall>fd. wire (socks fd) = wire (n_socks N fd) @ fst (serve_turns d q (filter R (clients (client_fds ctx))) u) fd \<and>
      (fd \<notin> set (filter R (clients (client_fds ctx))) \<longrightarrow> socks fd = n_socks N fd))"
proof -
  let ?isset = "\<lambda>fd. fd \<in> set (watched ctx) \<and> R fd" and ?slots = "client_fds ctx"
  have same: "filter ?isset (clients ?slots) = filter R (clients ?slots)"
    by (rule filter_cong) (auto simp: watched_def clients_def)
  have "distinct (clients ?slots)" using assms(3) by (simp add: serving_ok_def slots_ok_def)
  from serve_clients_turns[OF assms(1,2) this, of ?isset q N K J] assms(6) same
  obtain socks where "serve_clients K (Some (tcp_server_service J scfg)) ?isset ?slots N u =
      Some (?slots, N\<lparr>n_socks := socks\<rparr>, snd (serve_turns d q (filter R (clients ?slots)) u))"
    "\<forall>fd. wire (socks fd) = wire (n_socks N fd) @ fst (serve_turns d q (filter R (clients ?slots)) u) fd \<and>
      (fd \<notin> set (filter R (clients ?slots)) \<longrightarrow> socks fd = n_socks N fd)" by auto
  then show ?thesis using assms(4,5) serving_watched[OF assms(3)]
    by (intro exI[of _ socks]) (simp add: server_round_def ready_round_def)
qed


definition demo_serving :: mb_tcp_ctx where
  "demo_serving = (started_ctx (transport_cfg bank_server 5000))
     \<lparr>listen_sock := 3, client_fds := [- 1, 5, 4], client_cap := 3\<rparr>"

definition demo_serving_net :: net where
  "demo_serving_net = demo_net\<lparr>n_open := [5, 4, 3, 0, 1, 2]\<rparr>"


text \<open>
  When \<open>select\<close> is interrupted the code goes on with the set it passed in: the accept waits for a client, and
  every other client is served although nothing has arrived from it, so that the receive timeout of its
  connection drops it.
\<close>

definition interrupted_round :: tcp_round where
  "interrupted_round = (demo_round 4)\<lparr>r_select := SelErr EINTR, r_accept := \<lambda>_. 6\<rparr>"

lemma interrupted_select_drops_clients:
  "case server_round (server_hooks False) (Some (tcp_server_service zero_stack bank_server)) interrupted_round
     demo_serving (demo_serving_net\<lparr>n_socks := \<lambda>_. socket []\<rparr>) bank_state of
     Some (ctx, N, u) \<Rightarrow> client_fds demo_serving = [- 1, 5, 4] \<and> client_fds ctx = [6, - 1, - 1] | None \<Rightarrow> False"
  by code_simp

section \<open>The connecting side\<close>

text \<open>
  C13. The thread that keeps an outgoing connection, with any callback that keeps its contract: however
  connecting and the callback end, the thread holds at most the one descriptor the context knows, every
  link it reported as up it has reported as lost when it ends, and after the stop the process holds
  what it held before the start.
\<close>

theorem tcp_dialler_runs_and_stops:
  assumes "mb_tcp_start S K (Some c) (Some g) N = (0, c1, N1)" and "mode g = MB_TCP_MODE_CONNECT_CLIENT"
    and "stream_service callback P" and "P u" and "list_all (\<lambda>(keep, ev). d_socket (c_dial ev) < FD_SETSIZE) rs"
  shows "\<exists>t c3 N3. mb_tcp_client_thread K (Some callback) rs (the c1) N1 u = Some t \<and> P (dl_app t) \<and>
    mset (n_open (dl_net t)) = mset (n_open N) + (if stream_sock (dl_ctx t) < 0 then {#} else {#stream_sock (dl_ctx t)#}) \<and>
    (h_link K \<longrightarrow> links_up (drop (length (n_links N)) (n_links (dl_net t))) = Some {}) \<and>
    mb_tcp_stop (Some (dl_ctx t)) (dl_net t) = Some (Some c3, N3) \<and> mset (n_open N3) = mset (n_open N) \<and>
    initialized c3 = 0"
proof -
  have c1: "c1 = Some (started_ctx g)" "n_open N1 = n_open N" "n_links N1 = n_links N"
    using mb_tcp_start_cases[OF assms(1)] assms(2) by auto
  let ?t0 = "\<lparr>dl_sock = - 1, dl_connected = 0, dl_ctx = started_ctx g, dl_net = N1, dl_app = u\<rparr>"
  have "dialling_ok K (mset (n_open N)) (length (n_links N)) (started_ctx g) ?t0"
    using c1 by (simp add: dialling_ok_def started_ctx_def)
  from stream_service.client_rounds_ok[OF assms(3) this _ assms(5)] assms(4) obtain t where
    t: "client_rounds K (Some callback) rs ?t0 = Some t" "dialling_ok K (mset (n_open N)) (length (n_links N)) (started_ctx g) t"
      "P (dl_app t)" by auto
  show ?thesis
  proof (cases "dl_connected t = 0")
    case True
    with t(2) have "dl_sock t < 0" "dl_ctx t = started_ctx g"
      by (simp_all add: dialling_ok_def started_ctx_def)
    with t True c1 show ?thesis
      by (simp add: mb_tcp_client_thread_def mb_tcp_stop_def Let_def dialling_ok_def)
  next
    case False
    let ?fd = "dl_sock t"
    from t(2) False have "0 \<le> ?fd" "dl_ctx t = (started_ctx g)\<lparr>stream_sock := ?fd\<rparr>" by (simp_all add: dialling_ok_def)
    with t False c1 show ?thesis
      by (simp add: mb_tcp_client_thread_def mb_tcp_stop_def Let_def dialling_ok_def link_step_def)
  qed
qed

definition demo_dial_cfg :: mb_tcp_config where
  "demo_dial_cfg = (transport_cfg bank_server 0)\<lparr>mode := 1, remote_host := Some ''10.0.0.1'', port := 502\<rparr>"

definition demo_dial_round :: "connect_event \<Rightarrow> dial_round" where
  "demo_dial_round how = \<lparr>c_dial = \<lparr>d_mutex = 0, d_socket = 4, d_sockopt = \<lambda>_. True, d_pton = \<lambda>_. True, d_connect = \<lambda>_ _. how,
     d_select = 1, d_so_error = 0, d_response_tmo = True\<rparr>, c_peer = (socket split_read), c_waits = []\<rparr>"

theorem tcp_dialler_runs_and_stops_witness:
  "\<exists>c1 N1 t c3 N3.
     mb_tcp_start demo_start (server_hooks True) (Some zero_transport) (Some demo_dial_cfg) demo_net = (0, c1, N1) \<and>
     mb_tcp_client_thread (server_hooks True) (Some (tcp_server_service zero_stack bank_server))
       [(1, demo_dial_round ConnFailed), (1, demo_dial_round ConnDone)] (the c1) N1 bank_state = Some t \<and>
     mb_tcp_stop (Some (dl_ctx t)) (dl_net t) = Some (Some c3, N3) \<and> mset (n_open N3) = {#0, 1, 2#}"
proof -
  let ?rs = "[(1, demo_dial_round ConnFailed), (1, demo_dial_round ConnDone)]"
  have "fst (mb_tcp_start demo_start (server_hooks True) (Some zero_transport) (Some demo_dial_cfg) demo_net) = 0" by code_simp
  then obtain c1 N1 where start:
    "mb_tcp_start demo_start (server_hooks True) (Some zero_transport) (Some demo_dial_cfg) demo_net = (0, c1, N1)"
    by (metis prod.collapse)
  have "mode demo_dial_cfg = 1" by (simp add: demo_dial_cfg_def)
  moreover have "list_all (\<lambda>(keep, ev). d_socket (c_dial ev) < 1024) ?rs" by (simp add: demo_dial_round_def)
  moreover have "n_open demo_net = [0, 1, 2]" by (simp add: demo_net_def)
  ultimately show ?thesis
    using tcp_dialler_runs_and_stops[OF start _ server_service(2)[OF bank_server_ok, of zero_stack] bank_state_ok, of ?rs] start
    by simp blast
qed

section \<open>The example program\<close>

lemma active_connections_card:
  "links_up ls = Some up \<Longrightarrow> finite up \<and> foldl on_link_change 0 ls = int (card up)"
proof (induction ls arbitrary: up rule: rev_induct)
  case Nil
  then show ?case by simp
next
  case (snoc l ls)
  obtain fd conn where l: "l = (fd, conn)" by fastforce
  from snoc.prems obtain up1 where up1: "links_up ls = Some up1" by (auto simp: link_step_def split: option.splits)
  with snoc.IH have ih: "finite up1" "foldl on_link_change 0 ls = int (card up1)" by auto
  show ?case
  proof (cases "conn = 0")
    case True
    then have fd: "fd \<in> up1" "up = up1 - {fd}" using snoc.prems up1 l by (auto simp: link_step_def split: if_splits)
    have "card up1 = Suc (card up)" unfolding fd(2) by (rule card_Suc_Diff1[OF ih(1) fd(1), symmetric])
    then have "on_link_change (int (card up1)) l = int (card up)" using True l by (simp add: on_link_change_def)
    then show ?thesis using ih fd(2) by simp
  next
    case False
    then have "fd \<notin> up1" "up = insert fd up1" using snoc.prems up1 l by (auto simp: link_step_def split: if_splits)
    moreover have "on_link_change (int (card up1)) l = int (card up1) + 1" using False l by (simp add: on_link_change_def)
    ultimately show ?thesis using ih by simp
  qed
qed

lemma tcp_server_main_runs:
  assumes "l_socket (s_listen S) < FD_SETSIZE" and "list_all (\<lambda>(keep, ev). kernel_ok ev) rs"
  shows "(\<exists>N'. tcp_server_main J mutex S rs clock N = Some (1, N', 0) \<and> n_open N' = n_open N) \<or>
    (\<exists>N' up. tcp_server_main J mutex S rs clock N = Some (0, N', int (card up)) \<and> mset (n_open N') = mset (n_open N) \<and>
       links_up (drop (length (n_links N)) (n_links N')) = Some up)"
proof (cases "mutex = 0")
  case False
  then show ?thesis by (simp add: tcp_server_main_def)
next
  case True
  let ?c = "\<lparr>ts_transport = zero_transport, ts_cfg = example_config\<rparr>"
  let ?app = "Some \<lparr>app_bank = replicate 32 0, app_time = clock, app_reads = 0\<rparr>"
  obtain rc c1 N1 where start: "mb_tcp_server_start S True (Some ?c) (Some example_config) N = (rc, c1, N1)"
    by (metis prod_cases3)
  show ?thesis
  proof (cases "rc = 0")
    case False
    then show ?thesis using True start mb_tcp_server_start_failed[OF start] by (simp add: tcp_server_main_def Let_def)
  next
    case rc: True
    have dev: "device_ok tcp_bank_ok (srv_handlers example_config) tcp_bank_device"
      using tcp_bank.ok by (simp add: example_config_def Let_def)
    have app: "tcp_bank_ok ?app" by (simp add: tcp_bank_ok_def)
    obtain c2 N2 u2 c3 N3 where run: "tcp_server_listener J True rs (the c1) N1 ?app = Some (c2, N2, u2)"
      "slots_ok (server_hooks True) (add_mset (listen_sock (ts_transport c2)) (mset (n_open N))) (length (n_links N))
        (client_fds (ts_transport c2)) N2"
      "mb_tcp_server_stop (Some c2) N2 = Some (Some c3, N3)" "mset (n_open N3) = mset (n_open N)" "n_links N3 = n_links N2"
      using tcp_server_lifecycle[OF start[unfolded rc] assms(1) dev app assms(2), of J] by blast
    let ?up = "set (clients (client_fds (ts_transport c2)))"
    have up: "links_up (drop (length (n_links N)) (n_links N3)) = Some ?up"
      using run(2,5) by (simp add: slots_ok_def server_hooks_def)
    then have "tcp_server_main J mutex S rs clock N = Some (0, N3, int (card ?up))"
      using True start rc run(1,3) active_connections_card[OF up] by (simp add: tcp_server_main_def Let_def)
    then show ?thesis using up run(4) by blast
  qed
qed

text \<open>
  C14. The example server counts its masters: whatever happens while the program runs, it ends, with every
  descriptor closed that it opened, and the counter that \<open>on_link_change\<close> keeps is the number of links
  that were reported as up and not as lost, in every run without a second report for a link. Stopping
  closes the clients that are left and reports nothing, so these stay counted.
\<close>

theorem tcp_example_counts_masters:
  assumes "l_socket (s_listen S) < FD_SETSIZE" and "list_all (\<lambda>(keep, ev). kernel_ok ev) rs"
  shows "\<exists>rc N' count. tcp_server_main J mutex S rs clock N = Some (rc, N', count) \<and> mset (n_open N') = mset (n_open N) \<and>
    (rc = 1 \<and> count = 0 \<or>
     rc = 0 \<and> (\<exists>up. links_up (drop (length (n_links N)) (n_links N')) = Some up \<and> count = int (card up)))"
  using tcp_server_main_runs[OF assms, of J mutex clock N] by (elim disjE exE conjE) simp_all

lemma demo_main:
  "case tcp_server_main zero_stack 0 demo_start [(1, demo_round 3)] (\<lambda>_. 0) demo_net of
     Some (rc, N', n) \<Rightarrow> rc = 0 \<and> n = 1 | None \<Rightarrow> False"
  by code_simp

theorem tcp_example_counts_masters_witness:
  "\<exists>N'. tcp_server_main zero_stack 0 demo_start [(1, demo_round 3)] (\<lambda>_. 0) demo_net = Some (0, N', 1) \<and>
     mset (n_open N') = {#0, 1, 2#}"
proof -
  obtain N' where main: "tcp_server_main zero_stack 0 demo_start [(1, demo_round 3)] (\<lambda>_. 0) demo_net = Some (0, N', 1)"
    using demo_main by (auto split: option.splits)
  have "mset (n_open N') = mset (n_open demo_net)"
    using tcp_example_counts_masters[of demo_start "[(1, demo_round 3)]" zero_stack 0 "\<lambda>_. 0" demo_net] main
    by (auto simp: demo_round_ok demo_start_def)
  then show ?thesis using main by (simp add: demo_net_def)
qed

end
