(* ===== verification/Tcp_Interleaving.thy ===== *)
theory Tcp_Interleaving
  imports Tcp_Transport_Facts
begin

text \<open>
  \<open>mb_tcp_stop\<close> while the listener runs (\<^verbatim>\<open>src/src/modbus_tcp.c\<close>): both threads of the process at the grain of
  their accesses to the slots and of their calls of the operating system, in any interleaving, with other
  threads that open and close descriptors of their own. The memory is sequentially consistent.
\<close>

section \<open>The listener, step by step\<close>

text \<open>
  Where the listener is: at the test of \<open>keep_running\<close>; before \<open>select\<close>; in the loop over the clients when
  nothing is ready, and there between \<open>close\<close> and the write to the slot; before \<open>accept\<close> and before the new
  client is placed; in the loop over the clients that are ready, and there between \<open>close\<close> and the write to
  the slot; at its end. \<open>isset\<close> is what \<open>select\<close> left in the set.
\<close>

datatype listener_pc =
    AtLoop
  | AtSelect tcp_round
  | AtPeek tcp_round nat
  | AtPeekClear tcp_round nat c_int
  | AtAccept tcp_round "c_int \<Rightarrow> bool"
  | AtPlace "c_int \<Rightarrow> bool" c_int
  | AtServe "c_int \<Rightarrow> bool" nat
  | AtServeClear "c_int \<Rightarrow> bool" nat c_int
  | Ended

type_synonym 'u listener = "listener_pc \<times> mb_tcp_ctx \<times> net \<times> 'u"

text \<open>Where a round goes when \<open>select\<close> left something in the set.\<close>

definition at_ready :: "tcp_round \<Rightarrow> (c_int \<Rightarrow> bool) \<Rightarrow> mb_tcp_ctx \<Rightarrow> listener_pc" where
  "at_ready ev isset ctx = (if isset (listen_sock ctx) then AtAccept ev isset else AtServe isset 0)"

text \<open>A slot is given up: the write to it and the calls of the hooks.\<close>

definition clear_slot :: "hooks \<Rightarrow> nat \<Rightarrow> c_int \<Rightarrow> mb_tcp_ctx \<Rightarrow> net \<Rightarrow> mb_tcp_ctx \<times> net" where
  "clear_slot K i sd ctx N =
     (ctx\<lparr>client_fds := (client_fds ctx)[i := - 1]\<rparr>, error_call K 0 (mb_tcp_link_call K sd 0 N))"

text \<open>
  One step; \<open>ev\<close> is the script of the round that begins. An access outside the array, a descriptor outside
  \<open>FD_SET\<close> and a callback that does not return are \<open>None\<close>.
\<close>

fun listener_step :: "hooks \<Rightarrow> 'u service option \<Rightarrow> tcp_round \<Rightarrow> 'u listener \<Rightarrow> 'u listener option" where
  "listener_step K on_process ev (AtLoop, ctx, N, u) =
     Some (if keep_running ctx = 0 then Ended else AtSelect ev, ctx, N, u)"
| "listener_step K on_process _ (AtSelect ev, ctx, N, u) =
     (if \<not> list_all fd_ok (watched ctx) then None
      else Some (case r_select ev of
              SelErr e \<Rightarrow> if e \<noteq> EINTR then AtLoop else at_ready ev (\<lambda>fd. fd \<in> set (watched ctx)) ctx
            | SelQuiet \<Rightarrow> AtPeek ev 0
            | SelReady R \<Rightarrow> at_ready ev (\<lambda>fd. fd \<in> set (watched ctx) \<and> R fd) ctx, ctx, N, u))"
| "listener_step K on_process _ (AtPeek ev i, ctx, N, u) =
     (if unat (client_cap ctx) \<le> i then Some (AtLoop, ctx, N, u)
      else do {
        sd \<leftarrow> rd (client_fds ctx) i;
        Some (if sd \<ge> 0 \<and> r_peek ev sd = 0 then (AtPeekClear ev i sd, ctx, net_close sd N, u)
              else (AtPeek ev (Suc i), ctx, N, u)) })"
| "listener_step K on_process _ (AtPeekClear ev i sd, ctx, N, u) =
     (case clear_slot K i sd ctx N of (ctx, N) \<Rightarrow> Some (AtPeek ev (Suc i), ctx, N, u))"
| "listener_step K on_process _ (AtAccept ev isset, ctx, N, u) =
     Some (let fd = r_accept ev (n_open N) in
      if fd < 0 then (AtLoop, ctx, N, u)
      else
        let N = N\<lparr>n_open := fd # n_open N, n_socks := (n_socks N)(fd := r_peer ev)\<rparr> in
        if fd \<ge> FD_SETSIZE then (AtLoop, ctx, net_close fd N, u)
        else (AtPlace isset fd, ctx, configure_client_socket (cfg ctx) (r_granted ev) fd N, u))"
| "listener_step K on_process _ (AtPlace isset fd, ctx, N, u) =
     Some (case place_client fd (client_fds ctx) of
         None \<Rightarrow> (AtLoop, ctx, net_close fd N, u)
       | Some slots \<Rightarrow> (AtServe isset 0, ctx\<lparr>client_fds := slots\<rparr>, error_call K 1 (mb_tcp_link_call K fd 1 N), u))"
| "listener_step K on_process _ (AtServe isset i, ctx, N, u) =
     (if unat (client_cap ctx) \<le> i then Some (AtLoop, ctx, N, u)
      else do {
        sd \<leftarrow> rd (client_fds ctx) i;
        if sd \<ge> 0 \<and> isset sd \<and> on_process \<noteq> None then do {
          (rc, u, s) \<leftarrow> the on_process sd u (n_socks N sd);
          let N = N\<lparr>n_socks := (n_socks N)(sd := s)\<rparr>;
          Some (if rc < 0 then (AtServeClear isset i sd, ctx, net_close sd N, u) else (AtServe isset (Suc i), ctx, N, u)) }
        else Some (AtServe isset (Suc i), ctx, N, u) })"
| "listener_step K on_process _ (AtServeClear isset i sd, ctx, N, u) =
     (case clear_slot K i sd ctx N of (ctx, N) \<Rightarrow> Some (AtServe isset (Suc i), ctx, N, u))"
| "listener_step K on_process _ (Ended, ctx, N, u) = None"

section \<open>The stop, step by step\<close>

text \<open>
  Where the stop is: not called; before \<open>shutdown\<close> of the listening socket; at the test of a slot; before
  \<open>shutdown\<close> of the client in it, which reads the slot again; before \<open>shutdown\<close> of the stream; waiting for the
  listener to end; returned.
\<close>

datatype stop_pc = NotCalled | StopListen | StopTest nat | StopShut nat | StopStream | Joining | Stopped

definition shut :: "c_int \<Rightarrow> net \<Rightarrow> net" where
  "shut fd N = N\<lparr>n_shut := n_shut N @ [fd]\<rparr>"

text \<open>What \<open>mb_tcp_stop\<close> does after the join.\<close>

definition release :: "mb_tcp_ctx \<Rightarrow> net \<Rightarrow> mb_tcp_ctx \<times> net" where
  "release c N =
     (c\<lparr>listen_sock := - 1, stream_sock := - 1, client_fds := [], client_cap := 0, initialized := 0\<rparr>,
      fold net_close ((if listen_sock c \<ge> 0 then [listen_sock c] else []) @ clients (take (unat (client_cap c)) (client_fds c)) @
        (if stream_sock c \<ge> 0 then [stream_sock c] else [])) N)"

text \<open>\<open>joined\<close> says whether the listener has ended. The join waits for it.\<close>

fun stop_step :: "bool \<Rightarrow> stop_pc \<times> mb_tcp_ctx \<times> net \<Rightarrow> (stop_pc \<times> mb_tcp_ctx \<times> net) option" where
  "stop_step joined (NotCalled, c, N) =
     Some (if initialized c = 0 then (Stopped, c, N) else (StopListen, c\<lparr>keep_running := 0\<rparr>, N))"
| "stop_step joined (StopListen, c, N) = Some (StopTest 0, c, if listen_sock c \<ge> 0 then shut (listen_sock c) N else N)"
| "stop_step joined (StopTest i, c, N) =
     (if unat (client_cap c) \<le> i then Some (StopStream, c, N)
      else do { fd \<leftarrow> rd (client_fds c) i; Some (if fd \<ge> 0 then StopShut i else StopTest (Suc i), c, N) })"
| "stop_step joined (StopShut i, c, N) = do { fd \<leftarrow> rd (client_fds c) i; Some (StopTest (Suc i), c, shut fd N) }"
| "stop_step joined (StopStream, c, N) = Some (Joining, c, if stream_sock c \<ge> 0 then shut (stream_sock c) N else N)"
| "stop_step joined (Joining, c, N) = (if joined then Some (Stopped, release c N) else None)"
| "stop_step joined (Stopped, c, N) = None"

section \<open>Both, and the rest of the process\<close>

record 'u machine =
  m_pc :: listener_pc
  m_stop :: stop_pc
  m_ctx :: mb_tcp_ctx
  m_net :: net
  m_app :: 'u
  m_others :: "c_int multiset"

datatype actor = Listener | Stopper | Others

inductive machine_step :: "hooks \<Rightarrow> 'u service option \<Rightarrow> actor \<Rightarrow> 'u machine \<Rightarrow> 'u machine \<Rightarrow> bool" for K f where
  listens: "kernel_ok ev \<Longrightarrow> listener_step K f ev (m_pc m, m_ctx m, m_net m, m_app m) = Some (pc, ctx, N, u) \<Longrightarrow>
     machine_step K f Listener m (m\<lparr>m_pc := pc, m_ctx := ctx, m_net := N, m_app := u\<rparr>)"
| stops: "stop_step (m_pc m = Ended) (m_stop m, m_ctx m, m_net m) = Some (st, ctx, N) \<Longrightarrow>
     machine_step K f Stopper m (m\<lparr>m_stop := st, m_ctx := ctx, m_net := N\<rparr>)"
| opens: "0 \<le> fd \<Longrightarrow> fd \<notin> set (n_open (m_net m)) \<Longrightarrow>
     machine_step K f Others m (m\<lparr>m_net := (m_net m)\<lparr>n_open := fd # n_open (m_net m)\<rparr>, m_others := add_mset fd (m_others m)\<rparr>)"
| closes: "fd \<in># m_others m \<Longrightarrow>
     machine_step K f Others m (m\<lparr>m_net := net_close fd (m_net m), m_others := m_others m - {#fd#}\<rparr>)"

text \<open>A run, with the schedule it took.\<close>

inductive machine_run :: "hooks \<Rightarrow> 'u service option \<Rightarrow> actor list \<Rightarrow> 'u machine \<Rightarrow> 'u machine \<Rightarrow> bool" for K f where
  stay: "machine_run K f [] m m"
| go: "machine_step K f a m m' \<Longrightarrow> machine_run K f as m' m'' \<Longrightarrow> machine_run K f (a # as) m m''"

text \<open>A schedule that says what each step does, and the state it leads to.\<close>

datatype move = Listen tcp_round | Stop | Open c_int | Close c_int

fun mover :: "move \<Rightarrow> actor" where
  "mover (Listen ev) = Listener"
| "mover Stop = Stopper"
| "mover (Open fd) = Others"
| "mover (Close fd) = Others"

fun make_move :: "hooks \<Rightarrow> 'u service option \<Rightarrow> move \<Rightarrow> 'u machine \<Rightarrow> 'u machine option" where
  "make_move K f (Listen ev) m =
     map_option (\<lambda>(pc, ctx, N, u). m\<lparr>m_pc := pc, m_ctx := ctx, m_net := N, m_app := u\<rparr>)
       (listener_step K f ev (m_pc m, m_ctx m, m_net m, m_app m))"
| "make_move K f Stop m =
     map_option (\<lambda>(st, ctx, N). m\<lparr>m_stop := st, m_ctx := ctx, m_net := N\<rparr>)
       (stop_step (case m_pc m of Ended \<Rightarrow> True | _ \<Rightarrow> False) (m_stop m, m_ctx m, m_net m))"
| "make_move K f (Open fd) m =
     (if 0 \<le> fd \<and> fd \<notin> set (n_open (m_net m)) then
        Some (m\<lparr>m_net := (m_net m)\<lparr>n_open := fd # n_open (m_net m)\<rparr>, m_others := add_mset fd (m_others m)\<rparr>)
      else None)"
| "make_move K f (Close fd) m =
     (if fd \<in># m_others m then Some (m\<lparr>m_net := net_close fd (m_net m), m_others := m_others m - {#fd#}\<rparr>) else None)"

fun make_moves :: "hooks \<Rightarrow> 'u service option \<Rightarrow> move list \<Rightarrow> 'u machine \<Rightarrow> 'u machine option" where
  "make_moves K f [] m = Some m"
| "make_moves K f (a # as) m = do { m \<leftarrow> make_move K f a m; make_moves K f as m }"

text \<open>A listener that has just been started, in a process that holds \<open>others\<close> besides.\<close>

definition machine_start :: "mb_tcp_ctx \<Rightarrow> net \<Rightarrow> 'u \<Rightarrow> c_int multiset \<Rightarrow> 'u machine" where
  "machine_start ctx N u others = \<lparr>m_pc = AtLoop, m_stop = NotCalled, m_ctx = ctx, m_net = N, m_app = u, m_others = others\<rparr>"

inductive_cases machine_stepE: "machine_step K f a m m'"
inductive_cases machine_runE: "machine_run K f as m m'"

end
