(* ===== verification/Tcp_Interleaving_Facts.thy ===== *)
theory Tcp_Interleaving_Facts
  imports Tcp_Interleaving
begin

text \<open>
  Lemmas about stopping the listener while it runs: a round taken step by step is the round of the
  transport, and what every interleaving keeps.
\<close>

section \<open>The steps of a round\<close>

definition listener_steps :: "hooks \<Rightarrow> 'u service option \<Rightarrow> tcp_round \<Rightarrow> 'u listener \<Rightarrow> 'u listener \<Rightarrow> bool" where
  "listener_steps K f ev = (\<lambda>c c'. listener_step K f ev c = Some c')\<^sup>*\<^sup>*"

lemma listener_steps_refl [simp]: "listener_steps K f ev c c"
  by (simp add: listener_steps_def)

lemma listener_stepsI: "listener_step K f ev c = Some c1 \<Longrightarrow> listener_steps K f ev c1 c2 \<Longrightarrow> listener_steps K f ev c c2"
  unfolding listener_steps_def by (rule converse_rtranclp_into_rtranclp)

lemma rd_append [simp]: "rd (as @ x # bs) (length as) = Some x"
  by (simp add: rd_def)

lemma peek_steps:
  assumes "client_fds ctx = as @ slots" and "length (client_fds ctx) = unat (client_cap ctx)"
    and "drop_dead K (r_peek ev) slots N = (slots', N')"
  shows "listener_steps K f e (AtPeek ev (length as), ctx, N, u) (AtLoop, ctx\<lparr>client_fds := as @ slots'\<rparr>, N', u)"
  using assms
proof (induction slots arbitrary: as ctx N slots' N')
  case Nil
  then have st: "listener_step K f e (AtPeek ev (length as), ctx, N, u) = Some (AtLoop, ctx, N, u)" and as: "as = client_fds ctx" by simp_all
  show ?case using listener_stepsI[OF st listener_steps_refl] Nil.prems(3) as by (simp del: listener_step.simps)
next
  case (Cons sd r)
  have i: "\<not> unat (client_cap ctx) \<le> length as" using Cons.prems(1,2) by simp
  show ?case
  proof (cases "0 \<le> sd \<and> r_peek ev sd = 0")
    case True
    let ?ctx = "ctx\<lparr>client_fds := (as @ [- 1]) @ r\<rparr>"
    obtain r' where d: "drop_dead K (r_peek ev) r (drop_client K sd N) = (r', N')" "slots' = - 1 # r'"
      using Cons.prems(3) True by (auto split: prod.splits)
    have "listener_step K f e (AtPeek ev (length as), ctx, N, u) = Some (AtPeekClear ev (length as) sd, ctx, net_close sd N, u)"
      using True i Cons.prems(1) by simp
    moreover have "listener_step K f e (AtPeekClear ev (length as) sd, ctx, net_close sd N, u) =
        Some (AtPeek ev (length (as @ [- 1])), ?ctx, drop_client K sd N, u)"
      using Cons.prems(1) by (simp add: clear_slot_def drop_client_def)
    moreover have "length (client_fds ?ctx) = unat (client_cap ?ctx)" using Cons.prems(1,2) by simp
    note Cons.IH[OF _ this d(1), of "as @ [- 1]"]
    ultimately show ?thesis using d(2) listener_stepsI[OF _ listener_stepsI] by fastforce
  next
    case False
    obtain r' where d: "drop_dead K (r_peek ev) r N = (r', N')" "slots' = sd # r'"
      using Cons.prems(3) False by (auto split: prod.splits)
    have "listener_step K f e (AtPeek ev (length as), ctx, N, u) = Some (AtPeek ev (length (as @ [sd])), ctx, N, u)"
      using False i Cons.prems(1) by auto
    moreover have "client_fds ctx = (as @ [sd]) @ r" using Cons.prems(1) by simp
    note Cons.IH[OF this Cons.prems(2) d(1)]
    ultimately show ?thesis using listener_stepsI d(2) by fastforce
  qed
qed

lemma serve_steps:
  assumes "client_fds ctx = as @ slots" and "length (client_fds ctx) = unat (client_cap ctx)"
    and "serve_clients K f isset slots N u = Some (slots', N', u')"
  shows "listener_steps K f e (AtServe isset (length as), ctx, N, u) (AtLoop, ctx\<lparr>client_fds := as @ slots'\<rparr>, N', u')"
  using assms
proof (induction slots arbitrary: as ctx N u slots')
  case Nil
  then have st: "listener_step K f e (AtServe isset (length as), ctx, N, u) = Some (AtLoop, ctx, N, u)" and as: "as = client_fds ctx" by simp_all
  show ?case using listener_stepsI[OF st listener_steps_refl] Nil.prems(3) as by (simp del: listener_step.simps)
next
  case (Cons sd r)
  have i: "\<not> unat (client_cap ctx) \<le> length as" and at: "rd (client_fds ctx) (length as) = Some sd" using Cons.prems(1,2) by simp_all
  have skip: "listener_steps K f e (AtServe isset (length as), ctx, N, u) (AtLoop, ctx\<lparr>client_fds := as @ sd # r'\<rparr>, N', u')"
    if "serve_clients K f isset r N1 u1 = Some (r', N', u')"
      "listener_step K f e (AtServe isset (length as), ctx, N, u) = Some (AtServe isset (Suc (length as)), ctx, N1, u1)" for N1 u1 r'
    using listener_stepsI[OF that(2)] Cons.IH[of ctx "as @ [sd]" N1 u1 r'] Cons.prems(1,2) that(1) by simp
  show ?case
  proof (cases "0 \<le> sd \<and> isset sd \<and> f \<noteq> None")
    case False
    then obtain r' where d: "serve_clients K f isset r N u = Some (r', N', u')" "slots' = sd # r'"
      using Cons.prems(3) by (auto split: bind_splits if_splits)
    moreover have "listener_step K f e (AtServe isset (length as), ctx, N, u) = Some (AtServe isset (Suc (length as)), ctx, N, u)"
      using False i at by auto
    ultimately show ?thesis using skip by simp
  next
    case True
    from Cons.prems(3) True obtain rc u1 s r' where call: "the f sd u (n_socks N sd) = Some (rc, u1, s)"
      "serve_clients K f isset r (if rc < 0 then drop_client K sd (N\<lparr>n_socks := (n_socks N)(sd := s)\<rparr>)
          else N\<lparr>n_socks := (n_socks N)(sd := s)\<rparr>) u1 = Some (r', N', u')"
      "slots' = (if rc < 0 then - 1 else sd) # r'"
      by (auto simp: Let_def split: bind_splits)
    let ?N = "N\<lparr>n_socks := (n_socks N)(sd := s)\<rparr>"
    show ?thesis
    proof (cases "rc < 0")
      case False
      moreover have "listener_step K f e (AtServe isset (length as), ctx, N, u) = Some (AtServe isset (Suc (length as)), ctx, ?N, u1)"
        using False True i at call(1) by (simp add: Let_def)
      ultimately show ?thesis using skip call(2,3) by simp
    next
      case rc: True
      let ?ctx = "ctx\<lparr>client_fds := (as @ [- 1]) @ r\<rparr>"
      have "listener_step K f e (AtServe isset (length as), ctx, N, u) =
          Some (AtServeClear isset (length as) sd, ctx, net_close sd ?N, u1)"
        using rc True i at call(1) by (simp add: Let_def)
      moreover have "listener_step K f e (AtServeClear isset (length as) sd, ctx, net_close sd ?N, u1) =
          Some (AtServe isset (length (as @ [- 1])), ?ctx, drop_client K sd ?N, u1)"
        using Cons.prems(1) by (simp add: clear_slot_def drop_client_def)
      moreover have "length (client_fds ?ctx) = unat (client_cap ?ctx)" using Cons.prems(1,2) by simp
      note Cons.IH[OF _ this, of "as @ [- 1]" "drop_client K sd ?N" u1 r']
      ultimately show ?thesis using call(2,3) rc listener_stepsI[OF _ listener_stepsI] by fastforce
    qed
  qed
qed

text \<open>A round of the transport is its steps taken without a pause.\<close>

lemma ready_steps:
  assumes "ready_round K f ev isset ctx N u = Some (ctx', N', u')" and "length (client_fds ctx) = unat (client_cap ctx)"
  shows "listener_steps K f e (at_ready ev isset ctx, ctx, N, u) (AtLoop, ctx', N', u')"
proof -
  have serve: "listener_steps K f e (AtServe isset 0, c, M, u) (AtLoop, c\<lparr>client_fds := slots\<rparr>, N', u')"
    if "serve_clients K f isset (client_fds c) M u = Some (slots, N', u')" "length (client_fds c) = unat (client_cap c)" for c M slots
    using serve_steps[of c "[]" "client_fds c" K f isset M u slots N' u' e] that by simp
  show ?thesis
  proof (cases "isset (listen_sock ctx)")
    case False
    then show ?thesis using assms serve[of ctx N] by (auto simp: ready_round_def at_ready_def split: bind_splits)
  next
    case True
    let ?fd = "r_accept ev (n_open N)"
    let ?N = "N\<lparr>n_open := ?fd # n_open N, n_socks := (n_socks N)(?fd := r_peer ev)\<rparr>"
    let ?M = "configure_client_socket (cfg ctx) (r_granted ev) ?fd ?N"
    note accept = listener_stepsI[of K f e "(AtAccept ev isset, ctx, N, u)"] and place = listener_stepsI[of K f e "(AtPlace isset ?fd, ctx, ?M, u)"]
    have at: "at_ready ev isset ctx = AtAccept ev isset" using True by (simp add: at_ready_def)
    consider "?fd < 0" | "FD_SETSIZE \<le> ?fd" | "0 \<le> ?fd" "?fd < FD_SETSIZE" "place_client ?fd (client_fds ctx) = None"
      | slots where "0 \<le> ?fd" "?fd < FD_SETSIZE" "place_client ?fd (client_fds ctx) = Some slots"
      by (metis not_less option.exhaust)
    then show ?thesis
    proof cases
      case 1
      then show ?thesis using True assms(1) accept[OF _ listener_steps_refl] at by (simp add: ready_round_def accept_client_def)
    next
      case 2
      then show ?thesis using True assms(1) accept[OF _ listener_steps_refl] at
        by (simp add: ready_round_def accept_client_def Let_def)
    next
      case 3
      then show ?thesis using True assms(1) accept[OF _ place[OF _ listener_steps_refl]] at
        by (auto simp: ready_round_def accept_client_def Let_def)
    next
      case (4 slots)
      have "length slots = length (client_fds ctx)" using place_client_free[OF 4(3)] by auto
      with 4 show ?thesis using True assms accept[OF _ place] at serve[of "ctx\<lparr>client_fds := slots\<rparr>" "error_call K 1 (mb_tcp_link_call K ?fd 1 ?M)"]
        by (auto simp: ready_round_def accept_client_def Let_def split: bind_splits)
    qed
  qed
qed

lemma round_steps:
  assumes "server_round K f ev ctx N u = Some (ctx', N', u')" and "length (client_fds ctx) = unat (client_cap ctx)"
  shows "listener_steps K f e (AtSelect ev, ctx, N, u) (AtLoop, ctx', N', u')"
proof -
  have ok: "list_all fd_ok (watched ctx)" using assms(1) by (simp add: server_round_def split: if_splits)
  note select = listener_stepsI[of K f e "(AtSelect ev, ctx, N, u)"]
  show ?thesis
  proof (cases "r_select ev")
    case (SelErr x)
    then show ?thesis using assms ok select[OF _ listener_steps_refl] select[OF _ ready_steps]
      by (cases "x = EINTR") (simp_all add: server_round_def)
  next
    case SelQuiet
    then show ?thesis using assms ok select[OF _ peek_steps[of ctx "[]"]]
      by (auto simp: server_round_def split: prod.splits)
  next
    case (SelReady R)
    then show ?thesis using assms ok select[OF _ ready_steps] by (simp add: server_round_def)
  qed
qed

section \<open>The stop taken alone\<close>

definition stop_steps :: "stop_pc \<times> mb_tcp_ctx \<times> net \<Rightarrow> stop_pc \<times> mb_tcp_ctx \<times> net \<Rightarrow> bool" where
  "stop_steps = (\<lambda>c c'. stop_step True c = Some c')\<^sup>*\<^sup>*"

lemma stop_steps_refl [simp]: "stop_steps c c"
  by (simp add: stop_steps_def)

lemma stop_stepsI: "stop_step True c = Some c1 \<Longrightarrow> stop_steps c1 c2 \<Longrightarrow> stop_steps c c2"
  unfolding stop_steps_def by (rule converse_rtranclp_into_rtranclp)

lemma shut_shut: "shut a (N\<lparr>n_shut := n_shut N @ fds\<rparr>) = N\<lparr>n_shut := n_shut N @ fds @ [a]\<rparr>"
  by (simp add: shut_def)

lemma stop_test_steps:
  assumes "unat (client_cap c) \<le> length (client_fds c)" and "i \<le> unat (client_cap c)"
  shows "stop_steps (StopTest i, c, N)
    (StopStream, c, N\<lparr>n_shut := n_shut N @ clients (drop i (take (unat (client_cap c)) (client_fds c)))\<rparr>)"
  using assms(2)
proof (induction "unat (client_cap c) - i" arbitrary: i N)
  case 0
  then have "stop_step True (StopTest i, c, N) = Some (StopStream, c, N)" by simp
  from stop_stepsI[OF this stop_steps_refl] 0 show ?case by simp
next
  case (Suc n)
  let ?fd = "client_fds c ! i" and ?slots = "take (unat (client_cap c)) (client_fds c)"
  have i: "i < unat (client_cap c)" "i < length (client_fds c)" using Suc.hyps(2) assms(1) by simp_all
  have d: "drop i ?slots = ?fd # drop (Suc i) ?slots" using i by (simp add: Cons_nth_drop_Suc[symmetric])
  have rest: "stop_steps (StopTest (Suc i), c, M) (StopStream, c, M\<lparr>n_shut := n_shut M @ clients (drop (Suc i) ?slots)\<rparr>)" for M
    using Suc.hyps i(1) by simp
  show ?case
  proof (cases "?fd \<ge> 0")
    case False
    then have "stop_step True (StopTest i, c, N) = Some (StopTest (Suc i), c, N)" using i by (simp add: rd_def)
    from stop_stepsI[OF this rest] False show ?thesis by (simp add: d)
  next
    case True
    then have "stop_step True (StopTest i, c, N) = Some (StopShut i, c, N)"
      "stop_step True (StopShut i, c, N) = Some (StopTest (Suc i), c, shut ?fd N)" using i by (simp_all add: rd_def)
    from stop_stepsI[OF this(1) stop_stepsI[OF this(2) rest]] True show ?thesis by (simp add: d shut_def)
  qed
qed

text \<open>After the listener has ended the stop does what it does in the transport.\<close>

lemma stop_alone:
  assumes "mb_tcp_stop (Some c) N = Some (Some c', N')"
  shows "stop_steps (NotCalled, c, N) (Stopped, c', N')"
proof (cases "initialized c = 0")
  case True
  then have "stop_step True (NotCalled, c, N) = Some (Stopped, c, N)" by simp
  from stop_stepsI[OF this stop_steps_refl] True assms show ?thesis by (simp add: mb_tcp_stop_def)
next
  case False
  let ?c = "c\<lparr>keep_running := 0\<rparr>" and ?fds = "clients (take (unat (client_cap c)) (client_fds c))"
  let ?l = "if listen_sock c \<ge> 0 then [listen_sock c] else []" and ?s = "if stream_sock c \<ge> 0 then [stream_sock c] else []"
  let ?N = "\<lambda>fds. N\<lparr>n_shut := n_shut N @ fds\<rparr>"
  have len: "unat (client_cap ?c) \<le> length (client_fds ?c)" and eq: "c' = fst (release ?c (?N (?l @ ?fds @ ?s)))"
    "N' = snd (release ?c (?N (?l @ ?fds @ ?s)))"
    using assms False by (auto simp: mb_tcp_stop_def release_def clients_def Let_def split: if_splits)
  have "stop_step True (NotCalled, c, N) = Some (StopListen, ?c, N)"
    "stop_step True (StopListen, ?c, N) = Some (StopTest 0, ?c, ?N ?l)" using False by (simp_all add: shut_def)
  note begins = stop_stepsI[OF this(1) stop_stepsI[OF this(2)]]
  have "stop_steps (StopTest 0, ?c, ?N ?l) (StopStream, ?c, ?N (?l @ ?fds))" using stop_test_steps[OF len, of 0 "?N ?l"] by simp
  note begins = begins[OF this]
  have "stop_step True (StopStream, ?c, ?N (?l @ ?fds)) = Some (Joining, ?c, ?N (?l @ ?fds @ ?s))"
    "stop_step True (Joining, ?c, ?N (?l @ ?fds @ ?s)) = Some (Stopped, c', N')" using eq by (simp_all add: shut_def)
  from begins stop_stepsI[OF this(1) stop_stepsI[OF this(2) stop_steps_refl]] show ?thesis
    unfolding stop_steps_def by (rule rtranclp_trans)
qed

section \<open>What the listener keeps at every step\<close>

text \<open>Between \<open>close\<close> and the write to slot \<open>i\<close> the descriptor in it is no longer the listener's.\<close>

definition gap_ok :: "hooks \<Rightarrow> c_int multiset \<Rightarrow> nat \<Rightarrow> mb_tcp_ctx \<Rightarrow> net \<Rightarrow> nat \<Rightarrow> c_int \<Rightarrow> bool" where
  "gap_ok K base L ctx N i sd \<longleftrightarrow> i < length (client_fds ctx) \<and> client_fds ctx ! i = sd \<and> 0 \<le> sd \<and>
     slots_ok K base L (client_fds ctx) (N\<lparr>n_open := sd # n_open N\<rparr>)"

fun listener_ok :: "hooks \<Rightarrow> c_int multiset \<Rightarrow> nat \<Rightarrow> listener_pc \<Rightarrow> mb_tcp_ctx \<Rightarrow> net \<Rightarrow> bool" where
  "listener_ok K base L (AtPeekClear ev i sd) ctx N = gap_ok K base L ctx N i sd"
| "listener_ok K base L (AtServeClear isset i sd) ctx N = gap_ok K base L ctx N i sd"
| "listener_ok K base L (AtPlace isset fd) ctx N =
     (slots_ok K (add_mset fd base) L (client_fds ctx) N \<and> 0 \<le> fd \<and> fd < FD_SETSIZE \<and> fd \<notin> set (clients (client_fds ctx)) \<and>
      rcvtimeo (n_socks N fd))"
| "listener_ok K base L (AtSelect ev) ctx N = (slots_ok K base L (client_fds ctx) N \<and> kernel_ok ev)"
| "listener_ok K base L (AtAccept ev isset) ctx N = (slots_ok K base L (client_fds ctx) N \<and> kernel_ok ev)"
| "listener_ok K base L pc ctx N = slots_ok K base L (client_fds ctx) N"

definition listening :: "mb_tcp_ctx \<Rightarrow> bool" where
  "listening ctx \<longleftrightarrow> length (client_fds ctx) = unat (client_cap ctx) \<and> fd_ok (listen_sock ctx) \<and> recv_timeout_ms (cfg ctx) > 0"

lemma listening_slots [simp]: "listening (ctx\<lparr>client_fds := slots\<rparr>) \<longleftrightarrow>
    length slots = unat (client_cap ctx) \<and> fd_ok (listen_sock ctx) \<and> recv_timeout_ms (cfg ctx) > 0"
  by (simp add: listening_def)

lemma listener_watched: "slots_ok K base L (client_fds ctx) N \<Longrightarrow> listening ctx \<Longrightarrow> list_all fd_ok (watched ctx)"
  using serving_watched[of K base L ctx N] by (simp add: serving_ok_def listening_def)

lemma slots_ok_cong:
  "n_open N' = n_open N \<Longrightarrow> n_socks N' = n_socks N \<Longrightarrow> n_links N' = n_links N \<Longrightarrow> slots_ok K base L slots N' = slots_ok K base L slots N"
  by (simp add: slots_ok_def)

text \<open>Closing a client, then clearing its slot.\<close>

lemma gap_opens:
  assumes "slots_ok K base L (client_fds ctx) N" and "i < length (client_fds ctx)" and "client_fds ctx ! i = sd" and "0 \<le> sd"
  shows "gap_ok K base L ctx (net_close sd N) i sd"
proof -
  have "sd \<in> set (clients (client_fds ctx))" using assms(2-4) nth_mem by (fastforce simp: clients_def)
  then have "sd \<in># mset (n_open N)" using assms(1) by (simp add: slots_ok_def)
  with assms show ?thesis by (simp add: gap_ok_def slots_ok_def)
qed

lemma gap_closes:
  assumes "gap_ok K base L ctx N i sd" and "clear_slot K i sd ctx N = (ctx', N')"
  shows "slots_ok K base L (client_fds ctx') N' \<and> ctx' = ctx\<lparr>client_fds := (client_fds ctx)[i := - 1]\<rparr>"
proof -
  let ?slots = "client_fds ctx"
  have s: "?slots = take i ?slots @ sd # drop (Suc i) ?slots" "0 \<le> sd"
    using assms(1) id_take_nth_drop[of i ?slots] by (auto simp: gap_ok_def)
  have "slots_ok K base L (take i ?slots @ sd # drop (Suc i) ?slots) (N\<lparr>n_open := sd # n_open N\<rparr>)"
    using assms(1) s(1) by (simp add: gap_ok_def)
  from slots_ok_drop[OF this s(2)] have "slots_ok K base L (?slots[i := - 1]) (drop_client K sd (N\<lparr>n_open := sd # n_open N\<rparr>))"
    using assms(1) by (simp add: gap_ok_def upd_conv_take_nth_drop)
  moreover have "slots_ok K base L (?slots[i := - 1]) (drop_client K sd (N\<lparr>n_open := sd # n_open N\<rparr>)) =
      slots_ok K base L (?slots[i := - 1]) N'"
    using assms(2) by (intro slots_ok_cong) (auto simp: clear_slot_def)
  ultimately show ?thesis using assms(2) by (auto simp: clear_slot_def)
qed

section \<open>Every step of the listener\<close>

lemma slots_held: "slots_ok K base L slots N \<Longrightarrow> fd \<in> set (clients slots) \<Longrightarrow> fd \<in> set (n_open N)"
  unfolding slots_ok_def by (metis in_multiset_in_set union_iff)

lemma accept_keeps:
  assumes "slots_ok K base L (client_fds ctx) N" and "recv_timeout_ms (cfg ctx) > 0" and "kernel_ok ev"
    and fd: "fd = r_accept ev (n_open N)" "0 \<le> fd"
  shows "fd \<notin> set (clients (client_fds ctx))"
    and "slots_ok K base L (client_fds ctx) (net_close fd (N\<lparr>n_open := fd # n_open N, n_socks := (n_socks N)(fd := r_peer ev)\<rparr>))"
    and "slots_ok K (add_mset fd base) L (client_fds ctx)
      (configure_client_socket (cfg ctx) (r_granted ev) fd (N\<lparr>n_open := fd # n_open N, n_socks := (n_socks N)(fd := r_peer ev)\<rparr>))"
    and "rcvtimeo (n_socks (configure_client_socket (cfg ctx) (r_granted ev) fd
      (N\<lparr>n_open := fd # n_open N, n_socks := (n_socks N)(fd := r_peer ev)\<rparr>)) fd)"
proof -
  have "fd \<notin># mset (n_open N)" and granted: "r_granted ev" using assms(3) fd by (auto simp: kernel_ok_def)
  then show new: "fd \<notin> set (clients (client_fds ctx))" using slots_held[OF assms(1)] by auto
  then have other: "x \<noteq> fd" if "x \<in> set (clients (client_fds ctx))" for x using that by blast
  show "slots_ok K base L (client_fds ctx) (net_close fd (N\<lparr>n_open := fd # n_open N, n_socks := (n_socks N)(fd := r_peer ev)\<rparr>))"
    using assms(1) other by (simp add: slots_ok_def)
  show "slots_ok K (add_mset fd base) L (client_fds ctx)
      (configure_client_socket (cfg ctx) (r_granted ev) fd (N\<lparr>n_open := fd # n_open N, n_socks := (n_socks N)(fd := r_peer ev)\<rparr>))"
    and "rcvtimeo (n_socks (configure_client_socket (cfg ctx) (r_granted ev) fd
      (N\<lparr>n_open := fd # n_open N, n_socks := (n_socks N)(fd := r_peer ev)\<rparr>)) fd)"
    using assms(1) other granted configure_timeout[OF assms(2)] by (simp_all add: slots_ok_def)
qed

lemma place_keeps:
  assumes "slots_ok K (add_mset fd base) L slots N" and "0 \<le> fd" and "fd < FD_SETSIZE" and "fd \<notin> set (clients slots)"
    and "rcvtimeo (n_socks N fd)"
  shows "slots_ok K base L slots (net_close fd N)"
    and "place_client fd slots = Some slots' \<Longrightarrow>
      slots_ok K base L slots' (error_call K 1 (mb_tcp_link_call K fd 1 N)) \<and> length slots' = length slots"
proof -
  show "slots_ok K base L slots (net_close fd N)" using assms(1) by (simp add: slots_ok_def)
next
  assume "place_client fd slots = Some slots'"
  from place_client_free[OF this] obtain as sd bs where s: "slots = as @ sd # bs" "sd < 0" "slots' = as @ fd # bs" by blast
  with assms show "slots_ok K base L slots' (error_call K 1 (mb_tcp_link_call K fd 1 N)) \<and> length slots' = length slots"
    by (auto simp: slots_ok_def link_step_def)
qed

context stream_service
begin

lemma listener_step_ok:
  assumes "listener_ok K base L pc ctx N" and "listening ctx" and "inv u" and "kernel_ok ev" and "pc \<noteq> Ended"
  shows "\<exists>pc' slots N' u'. listener_step K (Some serve) ev (pc, ctx, N, u) = Some (pc', ctx\<lparr>client_fds := slots\<rparr>, N', u') \<and> inv u' \<and>
    listener_ok K base L pc' (ctx\<lparr>client_fds := slots\<rparr>) N' \<and> length slots = length (client_fds ctx)"
proof -
  have stay: ?thesis if "listener_step K (Some serve) ev (pc, ctx, N, u) = Some (pc', ctx, N', u')" "inv u'" "listener_ok K base L pc' ctx N'"
    for pc' N' u' using that by (intro exI[of _ pc'] exI[of _ "client_fds ctx"] exI[of _ N'] exI[of _ u']) simp
  have clear: ?thesis if "gap_ok K base L ctx N i sd" "pc' = AtPeek e (Suc i) \<or> pc' = AtServe isset (Suc i)"
      "listener_step K (Some serve) ev (pc, ctx, N, u) = (case clear_slot K i sd ctx N of (ctx, N) \<Rightarrow> Some (pc', ctx, N, u))"
    for i sd pc' e isset
  proof -
    obtain ctx' N' where c: "clear_slot K i sd ctx N = (ctx', N')" by fastforce
    from gap_closes[OF that(1) c] show ?thesis using that(2,3) c assms(3)
      by (intro exI[of _ pc'] exI[of _ "(client_fds ctx)[i := - 1]"] exI[of _ N'] exI[of _ u]) auto
  qed
  have ready: "listener_ok K base L (at_ready e isset ctx) ctx N" if "slots_ok K base L (client_fds ctx) N" "kernel_ok e" for e isset
    using that by (simp add: at_ready_def)
  show ?thesis
  proof (cases pc)
    case AtLoop
    then show ?thesis using stay assms by simp
  next
    case (AtSelect e)
    then have ok: "slots_ok K base L (client_fds ctx) N" "kernel_ok e" using assms(1) by simp_all
    then show ?thesis using AtSelect stay[OF _ assms(3)] listener_watched[OF ok(1) assms(2)] ready[OF ok]
      by (cases "r_select e") (auto split: if_splits)
  next
    case (AtPeek e i)
    then have ok: "slots_ok K base L (client_fds ctx) N" using assms(1) by simp
    then show ?thesis using AtPeek stay[OF _ assms(3)] assms(2) gap_opens[OF ok, of i]
      by (cases "i < unat (client_cap ctx)") (auto simp: rd_def listening_def split: if_splits)
  next
    case (AtPeekClear e i sd)
    then show ?thesis using clear[of i sd] assms(1) by simp
  next
    case (AtAccept e isset)
    let ?fd = "r_accept e (n_open N)"
    have ok: "slots_ok K base L (client_fds ctx) N" "kernel_ok e" "recv_timeout_ms (cfg ctx) > 0"
      using AtAccept assms(1,2) by (simp_all add: listening_def)
    consider "?fd < 0" | "FD_SETSIZE \<le> ?fd" | "0 \<le> ?fd" "?fd < FD_SETSIZE" by linarith
    then show ?thesis
      by cases (use AtAccept stay[OF _ assms(3)] ok(1) accept_keeps[OF ok(1,3,2) refl] in \<open>simp_all add: Let_def\<close>)
  next
    case (AtPlace isset fd)
    then have ok: "slots_ok K (add_mset fd base) L (client_fds ctx) N" "0 \<le> fd" "fd < FD_SETSIZE" "fd \<notin> set (clients (client_fds ctx))"
      "rcvtimeo (n_socks N fd)" using assms(1) by simp_all
    show ?thesis
    proof (cases "place_client fd (client_fds ctx)")
      case None
      then show ?thesis using AtPlace stay[OF _ assms(3)] place_keeps(1)[OF ok] by simp
    next
      case (Some slots)
      from place_keeps(2)[OF ok this] show ?thesis using Some AtPlace assms(3)
        by (intro exI[of _ "AtServe isset 0"] exI[of _ slots] exI[of _ "error_call K 1 (mb_tcp_link_call K fd 1 N)"] exI[of _ u]) simp
    qed
  next
    case (AtServe isset i)
    then have ok: "slots_ok K base L (client_fds ctx) N" using assms(1) by simp
    show ?thesis
    proof (cases "i < unat (client_cap ctx) \<and> 0 \<le> client_fds ctx ! i \<and> isset (client_fds ctx ! i)")
      case False
      then show ?thesis using AtServe stay[OF _ assms(3)] assms(2) ok
        by (cases "i < unat (client_cap ctx)") (auto simp: rd_def listening_def)
    next
      case True
      let ?sd = "client_fds ctx ! i"
      have i: "i < length (client_fds ctx)" using True assms(2) by (simp add: listening_def)
      then have "?sd \<in> set (clients (client_fds ctx))" using True nth_mem by (fastforce simp: clients_def)
      then have "rcvtimeo (n_socks N ?sd)" using ok by (simp add: slots_ok_def)
      from returns[OF assms(3) this] obtain rc u' s where f: "serve ?sd u (n_socks N ?sd) = Some (rc, u', s)" "inv u'" "rcvtimeo s" by blast
      let ?N = "N\<lparr>n_socks := (n_socks N)(?sd := s)\<rparr>"
      have ok': "slots_ok K base L (client_fds ctx) ?N" using slots_ok_sock[OF ok f(3)] .
      show ?thesis using AtServe True i f stay[OF _ f(2)] ok' gap_opens[OF ok' i refl]
        by (cases "rc < 0") (simp_all add: rd_def Let_def)
    qed
  next
    case (AtServeClear isset i sd)
    then show ?thesis using clear[of i sd] assms(1) by simp
  qed (use assms(5) in simp)
qed

end

section \<open>Every interleaving\<close>

text \<open>What other threads of the process open and close does not concern the listener.\<close>

lemma slots_ok_opens: "slots_ok K base L slots N \<Longrightarrow> slots_ok K (add_mset fd base) L slots (N\<lparr>n_open := fd # n_open N\<rparr>)"
  by (simp add: slots_ok_def)

lemma slots_ok_closes: "slots_ok K base L slots N \<Longrightarrow> fd \<in># base \<Longrightarrow> slots_ok K (base - {#fd#}) L slots (net_close fd N)"
  by (auto simp: slots_ok_def)

lemma listener_ok_opens:
  "listener_ok K base L pc ctx N \<Longrightarrow> listener_ok K (add_mset fd base) L pc ctx (N\<lparr>n_open := fd # n_open N\<rparr>)"
  by (cases pc) (auto simp: gap_ok_def slots_ok_def)

lemma gap_base: "gap_ok K base L ctx N i sd \<Longrightarrow> base \<subseteq># mset (n_open N)"
proof -
  assume gap: "gap_ok K base L ctx N i sd"
  then have "sd \<in># mset (clients (client_fds ctx))" using nth_mem by (fastforce simp: gap_ok_def clients_def)
  moreover have "add_mset sd (mset (n_open N)) = base + mset (clients (client_fds ctx))" using gap by (simp add: gap_ok_def slots_ok_def)
  ultimately have "mset (n_open N) = base + (mset (clients (client_fds ctx)) - {#sd#})"
    by (metis add_mset_remove_trivial diff_union_single_conv)
  then show ?thesis by simp
qed

lemma listener_base: "listener_ok K base L pc ctx N \<Longrightarrow> base \<subseteq># mset (n_open N)"
proof (cases pc)
  case (AtPlace isset fd)
  assume "listener_ok K base L pc ctx N"
  then have "mset (n_open N) = base + add_mset fd (mset (clients (client_fds ctx)))" using AtPlace by (simp add: slots_ok_def)
  then show ?thesis by simp
qed (auto simp: slots_ok_def dest: gap_base)

lemma listener_ok_closes:
  assumes "listener_ok K base L pc ctx N" and "fd \<in># base"
  shows "listener_ok K (base - {#fd#}) L pc ctx (net_close fd N)"
proof -
  have gap: "gap_ok K (base - {#fd#}) L ctx (net_close fd N) i sd" if "gap_ok K base L ctx N i sd" for i sd
  proof -
    have "fd \<in># mset (n_open N)" using gap_base[OF that] assms(2) by (rule mset_subset_eqD)
    then have "mset (sd # n_open (net_close fd N)) = add_mset sd (mset (n_open N)) - {#fd#}" by simp
    with that assms(2) show ?thesis by (simp add: gap_ok_def slots_ok_def)
  qed
  show ?thesis
    using assms slots_ok_closes[of K base L _ N fd] slots_ok_closes[of K "add_mset x base" L _ N fd for x] gap
    by (cases pc) auto
qed

definition machine_ok :: "hooks \<Rightarrow> ('u \<Rightarrow> bool) \<Rightarrow> nat \<Rightarrow> 'u machine \<Rightarrow> bool" where
  "machine_ok K P L m \<longleftrightarrow> P (m_app m) \<and> distinct (n_open (m_net m)) \<and>
     (if m_stop m = Stopped then
        m_pc m = Ended \<and> mset (n_open (m_net m)) = m_others m \<and> initialized (m_ctx m) = 0 \<and> client_fds (m_ctx m) = []
      else
        listener_ok K (add_mset (listen_sock (m_ctx m)) (m_others m)) L (m_pc m) (m_ctx m) (m_net m) \<and> listening (m_ctx m) \<and>
        initialized (m_ctx m) \<noteq> 0 \<and> stream_sock (m_ctx m) = - 1 \<and>
        (keep_running (m_ctx m) = 0 \<longleftrightarrow> m_stop m \<noteq> NotCalled) \<and> (m_pc m = Ended \<longrightarrow> m_stop m \<noteq> NotCalled) \<and>
        (\<forall>i. m_stop m = StopShut i \<longrightarrow> i < unat (client_cap (m_ctx m))))"

lemma listener_ok_cong:
  assumes "client_fds ctx' = client_fds ctx" and "n_open N' = n_open N" "n_socks N' = n_socks N" "n_links N' = n_links N"
  shows "listener_ok K base L pc ctx' N' = listener_ok K base L pc ctx N"
  using assms by (cases pc) (simp_all add: gap_ok_def slots_ok_def)

lemma shut_simps [simp]: "n_open (shut fd N) = n_open N" "n_socks (shut fd N) = n_socks N" "n_links (shut fd N) = n_links N"
  by (simp_all add: shut_def)

lemma configure_open [simp]: "n_open (configure_client_socket g b fd N) = n_open N"
  by simp

lemma listener_step_distinct:
  assumes "listener_step K f ev (pc, ctx, N, u) = Some (pc', ctx', N', u')" and "distinct (n_open N)" and "listener_ok K base L pc ctx N"
  shows "distinct (n_open N')"
  using assms
  by (cases pc) (auto simp: Let_def clear_slot_def kernel_ok_def split: if_splits option.splits bind_splits)

text \<open>How many steps of its own the listener has before its end, once it is to end, and the stop before it returns.\<close>

fun listener_work :: "nat \<Rightarrow> listener_pc \<Rightarrow> nat" where
  "listener_work n AtLoop = 1"
| "listener_work n (AtSelect ev) = 2 * n + 5"
| "listener_work n (AtPeek ev i) = 2 * (n - i) + 2"
| "listener_work n (AtPeekClear ev i sd) = 2 * (n - i) + 1"
| "listener_work n (AtAccept ev isset) = 2 * n + 4"
| "listener_work n (AtPlace isset fd) = 2 * n + 3"
| "listener_work n (AtServe isset i) = 2 * (n - i) + 2"
| "listener_work n (AtServeClear isset i sd) = 2 * (n - i) + 1"
| "listener_work n Ended = 0"

fun stop_work :: "nat \<Rightarrow> stop_pc \<Rightarrow> nat" where
  "stop_work n NotCalled = 2 * n + 5"
| "stop_work n StopListen = 2 * n + 4"
| "stop_work n (StopTest i) = 2 * (n - i) + 3"
| "stop_work n (StopShut i) = 2 * (n - i) + 2"
| "stop_work n StopStream = 2"
| "stop_work n Joining = 1"
| "stop_work n Stopped = 0"

definition work :: "'u machine \<Rightarrow> nat" where
  "work m = listener_work (unat (client_cap (m_ctx m))) (m_pc m) + stop_work (unat (client_cap (m_ctx m))) (m_stop m)"

lemma listener_step_work:
  assumes "listener_step K f ev (pc, ctx, N, u) = Some (pc', ctx', N', u')" and "keep_running ctx = 0"
    and "listener_ok K base L pc ctx N" and "length (client_fds ctx) = unat (client_cap ctx)"
  shows "listener_work (unat (client_cap ctx)) pc' < listener_work (unat (client_cap ctx)) pc"
  using assms
  by (cases pc) (auto simp: Let_def clear_slot_def at_ready_def gap_ok_def split: if_splits option.splits bind_splits activity.splits)

lemma stop_step_work:
  assumes "stop_step joined (st, c, N) = Some (st', c', N')" and "joined \<or> st \<noteq> Joining" and "\<forall>i. st = StopShut i \<longrightarrow> i < unat (client_cap c)"
  shows "stop_work (unat (client_cap c)) st' < stop_work (unat (client_cap c)) st"
  using assms by (cases st) (auto split: if_splits bind_splits)

lemma stop_step_listening:
  assumes "stop_step joined (st, c, N) = Some (st', c', N')" and "st' \<noteq> Stopped"
  shows "c' = (if st = NotCalled then c\<lparr>keep_running := 0\<rparr> else c) \<and> n_open N' = n_open N \<and> n_socks N' = n_socks N \<and> n_links N' = n_links N \<and>
    (\<forall>i. st' = StopShut i \<longrightarrow> i < unat (client_cap c)) \<and> st' \<noteq> NotCalled"
  using assms by (cases st) (auto split: if_splits bind_splits)

lemma distinct_fold_close: "distinct (n_open N) \<Longrightarrow> distinct (n_open (fold net_close fds N))"
  by (induction fds arbitrary: N) simp_all

lemma release_open:
  assumes "slots_ok K (add_mset (listen_sock c) base) L (client_fds c) N" and "listening c" and "stream_sock c = - 1"
  shows "mset (n_open (snd (release c N))) = base"
  using assms by (simp add: release_def mset_fold_close slots_ok_def listening_def fd_ok_def del: mset_append)

lemma stop_step_defined:
  assumes "unat (client_cap c) \<le> length (client_fds c)" and "\<forall>i. st = StopShut i \<longrightarrow> i < unat (client_cap c)"
    and "joined \<or> st \<noteq> Joining" and "st \<noteq> Stopped"
  shows "\<exists>st' c' N'. stop_step joined (st, c, N) = Some (st', c', N')"
  using assms by (cases st) (auto simp: rd_def)

lemma some_round: "\<exists>ev. kernel_ok ev"
  by (intro exI[of _ "\<lparr>r_select = SelQuiet, r_peek = \<lambda>_. 1, r_accept = \<lambda>_. - 1, r_peer = undefined, r_granted = True\<rparr>"])
     (simp add: kernel_ok_def)

lemma machine_start_ok:
  assumes "slots_ok K (add_mset (listen_sock ctx) others) L (client_fds ctx) N" and "listening ctx" and "P u"
    and "initialized ctx \<noteq> 0" "stream_sock ctx = - 1" "keep_running ctx \<noteq> 0" "distinct (n_open N)"
  shows "machine_ok K P L (machine_start ctx N u others)"
  using assms by (simp add: machine_ok_def machine_start_def)

context stream_service
begin

lemma machine_step_ok:
  assumes step: "machine_step K (Some serve) a m m'" and ok: "machine_ok K inv L m"
  shows "machine_ok K inv L m' \<and> (m_stop m \<noteq> NotCalled \<longrightarrow> m_stop m' \<noteq> NotCalled \<and>
    (if a = Others then work m' = work m else work m' < work m))"
  using step
proof cases
  case (listens ev pc ctx N u)
  then have pc: "m_pc m \<noteq> Ended" by auto
  then have run: "m_stop m \<noteq> Stopped" using ok by (auto simp: machine_ok_def)
  let ?base = "add_mset (listen_sock (m_ctx m)) (m_others m)"
  have l: "listener_ok K ?base L (m_pc m) (m_ctx m) (m_net m)" "listening (m_ctx m)" "inv (m_app m)" "distinct (n_open (m_net m))"
    using ok run by (simp_all add: machine_ok_def)
  from listener_step_ok[OF l(1-3) listens(3) pc] listens(4) obtain slots where
    s: "ctx = (m_ctx m)\<lparr>client_fds := slots\<rparr>" "inv u" "listener_ok K ?base L pc ctx N" "length slots = length (client_fds (m_ctx m))"
    by auto
  have "distinct (n_open N)" using listener_step_distinct[OF listens(4) l(4,1)] .
  moreover have "pc = Ended \<longrightarrow> m_stop m \<noteq> NotCalled"
  proof
    assume "pc = Ended"
    then have "keep_running (m_ctx m) = 0" using listens(4) pc
      by (cases "m_pc m") (auto simp: Let_def clear_slot_def at_ready_def split: if_splits option.splits bind_splits activity.splits)
    then show "m_stop m \<noteq> NotCalled" using ok run by (simp add: machine_ok_def)
  qed
  moreover have "work m' < work m" if "m_stop m \<noteq> NotCalled"
    using listener_step_work[OF listens(4) _ l(1)] that l(2) ok run s(1) listens(2) by (simp add: work_def machine_ok_def listening_def)
  ultimately show ?thesis using ok run s l(2) listens(1,2) by (simp add: machine_ok_def listening_def)
next
  case (stops st ctx N)
  then have run: "m_stop m \<noteq> Stopped" by auto
  have joined: "m_pc m = Ended \<or> m_stop m \<noteq> Joining" using stops(3) by (auto split: if_splits)
  have less: "stop_work (unat (client_cap (m_ctx m))) st < stop_work (unat (client_cap (m_ctx m))) (m_stop m)"
    using stop_step_work[OF stops(3) joined] ok run by (simp add: machine_ok_def)
  show ?thesis
  proof (cases "st = Stopped")
    case False
    note s = stop_step_listening[OF stops(3) False]
    have kept: "client_fds ctx = client_fds (m_ctx m)" "client_cap ctx = client_cap (m_ctx m)" "listen_sock ctx = listen_sock (m_ctx m)"
      "cfg ctx = cfg (m_ctx m)" "initialized ctx = initialized (m_ctx m)" "stream_sock ctx = stream_sock (m_ctx m)"
      "n_open N = n_open (m_net m)"
      using s by simp_all
    have "listener_ok K base L pc ctx N = listener_ok K base L pc (m_ctx m) (m_net m)" for base pc
      using s kept(1) by (intro listener_ok_cong) simp_all
    moreover have "keep_running ctx = 0" using s ok run by (auto simp: machine_ok_def)
    ultimately show ?thesis using ok run stops(1,2) False less s kept
      by (simp add: machine_ok_def work_def listening_def)
  next
    case True
    then have j: "m_stop m = Joining" "m_pc m = Ended" "(ctx, N) = release (m_ctx m) (m_net m)"
      using stops(3) ok run by (cases "m_stop m"; auto simp: machine_ok_def split: if_splits bind_splits)+
    then have "slots_ok K (add_mset (listen_sock (m_ctx m)) (m_others m)) L (client_fds (m_ctx m)) (m_net m)"
      using ok run by (simp add: machine_ok_def)
    from release_open[OF this] ok run j have open_: "mset (n_open N) = m_others m" by (metis machine_ok_def snd_conv)
    moreover have "distinct (n_open N)" using ok j(3) distinct_fold_close by (simp add: machine_ok_def release_def)
    ultimately show ?thesis using stops(1,2) True j ok run by (auto simp: machine_ok_def release_def work_def)
  qed
next
  case (opens fd)
  then show ?thesis using ok listener_ok_opens[of K "add_mset (listen_sock (m_ctx m)) (m_others m)" L "m_pc m" "m_ctx m" "m_net m" fd]
    by (auto simp: machine_ok_def work_def add_mset_commute)
next
  case (closes fd)
  then show ?thesis using ok listener_ok_closes[of K "add_mset (listen_sock (m_ctx m)) (m_others m)" L "m_pc m" "m_ctx m" "m_net m" fd]
    by (auto simp: machine_ok_def work_def)
qed

end

section \<open>Runs\<close>

lemma make_move_step:
  assumes "make_move K f a m = Some m'" and "\<forall>ev. a = Listen ev \<longrightarrow> kernel_ok ev"
  shows "machine_step K f (mover a) m m'"
proof (cases a)
  case (Listen ev)
  then show ?thesis using assms listens[of ev K f m] by auto
next
  case Stop
  have "(case m_pc m of Ended \<Rightarrow> True | _ \<Rightarrow> False) = (m_pc m = Ended)" by (cases "m_pc m") simp_all
  then show ?thesis using assms(1) Stop stops[of m _ _ _ K f] by auto
next
  case (Open fd)
  then show ?thesis using assms(1) opens[of fd m K f] by (auto split: if_splits)
next
  case (Close fd)
  then show ?thesis using assms(1) closes[of fd m K f] by (auto split: if_splits)
qed

lemma make_moves_run:
  "make_moves K f as m = Some m' \<Longrightarrow> \<forall>ev. Listen ev \<in> set as \<longrightarrow> kernel_ok ev \<Longrightarrow> machine_run K f (map mover as) m m'"
proof (induction as arbitrary: m)
  case Nil
  then show ?case by (simp add: stay)
next
  case (Cons a as)
  then obtain m1 where m1: "make_move K f a m = Some m1" "make_moves K f as m1 = Some m'" by (auto split: bind_splits)
  have "machine_step K f (mover a) m m1" using make_move_step[OF m1(1)] Cons.prems(2) by auto
  moreover have "machine_run K f (map mover as) m1 m'" using Cons.IH[OF m1(2)] Cons.prems(2) by auto
  ultimately show ?case by (simp add: go)
qed

lemma machine_step_cap: "machine_step K f a m m' \<Longrightarrow> unat (client_cap (m_ctx m')) \<le> unat (client_cap (m_ctx m))"
proof (induction rule: machine_step.induct)
  case (listens ev m pc ctx N u)
  then show ?case
    by (cases "m_pc m") (auto simp: Let_def clear_slot_def split: if_splits option.splits bind_splits)
next
  case (stops m st ctx N)
  then show ?case by (cases "m_stop m") (auto simp: release_def split: if_splits bind_splits)
qed simp_all

lemma machine_run_cap: "machine_run K f as m m' \<Longrightarrow> unat (client_cap (m_ctx m')) \<le> unat (client_cap (m_ctx m))"
  by (induction rule: machine_run.induct) (auto dest: machine_step_cap)

lemma listener_work_bound: "listener_work n pc \<le> 2 * n + 5"
  by (cases pc) auto

lemma stop_work_bound: "st \<noteq> NotCalled \<Longrightarrow> stop_work n st \<le> 2 * n + 4"
  by (cases st) auto

lemma work_bound:
  assumes "m_stop m \<noteq> NotCalled"
  shows "work m \<le> 4 * unat (client_cap (m_ctx m)) + 9"
  using listener_work_bound[of "unat (client_cap (m_ctx m))" "m_pc m"] stop_work_bound[OF assms, of "unat (client_cap (m_ctx m))"]
  by (simp add: work_def)

text \<open>Who shuts down a descriptor of another thread: only a stop that reads a slot in its gap.\<close>

lemma shut_others:
  assumes ok: "machine_ok K P L m" and st: "m_stop m = StopShut i" and fd: "client_fds (m_ctx m) ! i \<in># m_others m"
    and nonneg: "0 \<le> client_fds (m_ctx m) ! i"
  shows "(\<exists>ev. m_pc m = AtPeekClear ev i (client_fds (m_ctx m) ! i)) \<or> (\<exists>isset. m_pc m = AtServeClear isset i (client_fds (m_ctx m) ! i))"
proof -
  let ?slots = "client_fds (m_ctx m)" and ?N = "m_net m" and ?base = "add_mset (listen_sock (m_ctx m)) (m_others m)"
  let ?fd = "?slots ! i"
  have i: "i < length ?slots" using ok st by (simp add: machine_ok_def listening_def)
  then have held: "?fd \<in># mset (clients ?slots)" using nonneg nth_mem by (fastforce simp: clients_def)
  have ok': "listener_ok K ?base L (m_pc m) (m_ctx m) ?N" and dis: "distinct (n_open ?N)" using ok st by (simp_all add: machine_ok_def)
  have once: "count (mset (n_open ?N)) ?fd \<le> 1" using dis by (simp add: distinct_count_atmost_1)
  have twice: "count (?base + mset (clients ?slots)) ?fd \<ge> 2"
  proof -
    have "count (m_others m) ?fd \<ge> 1" "count (mset (clients ?slots)) ?fd \<ge> 1"
      using held fd unfolding count_greater_eq_one_iff by blast+
    moreover have "count (?base + mset (clients ?slots)) ?fd \<ge> count (m_others m) ?fd + count (mset (clients ?slots)) ?fd" by simp
    ultimately show ?thesis by linarith
  qed
  have no: False if "?base + mset (clients ?slots) \<subseteq># mset (n_open ?N)"
    using mset_subset_eq_count[OF that, of ?fd] once twice by simp
  have gap: "j = i \<and> sd = ?fd" if "gap_ok K ?base L (m_ctx m) ?N j sd" for j sd
  proof -
    have g: "j < length ?slots" "?slots ! j = sd" "0 \<le> sd" "add_mset sd (mset (n_open ?N)) = ?base + mset (clients ?slots)"
      "distinct (clients ?slots)" using that by (simp_all add: gap_ok_def slots_ok_def)
    have "sd = ?fd"
    proof (rule ccontr)
      assume "sd \<noteq> ?fd"
      then have "count (mset (n_open ?N)) ?fd = count (?base + mset (clients ?slots)) ?fd" using g(4) by (metis count_add_mset)
      then show False using once twice by simp
    qed
    moreover have "j = i" if "?slots ! j = ?slots ! i"
    proof (rule ccontr)
      assume "j \<noteq> i"
      have "count (mset (clients ?slots)) ?fd \<le> 1" using g(5) by (simp add: distinct_count_atmost_1)
      moreover have "card {k. k < length ?slots \<and> ?slots ! k = ?fd} \<ge> card {i, j}"
        using i g(1) that by (intro card_mono) auto
      moreover have "count (mset (clients ?slots)) ?fd = card {k. k < length ?slots \<and> ?slots ! k = ?fd}"
        using nonneg by (simp add: clients_def count_mset count_list_eq_length_filter length_filter_conv_card eq_commute[of ?fd] cong: conj_cong)
      ultimately show False using \<open>j \<noteq> i\<close> by simp
    qed
    ultimately show ?thesis using g(2) by auto
  qed
  show ?thesis
  proof (cases "m_pc m")
    case (AtPeekClear ev j sd)
    then show ?thesis using gap[of j sd] ok' by simp
  next
    case (AtServeClear isset j sd)
    then show ?thesis using gap[of j sd] ok' by simp
  next
    case (AtPlace isset x)
    then have "?base + mset (clients ?slots) \<subseteq># mset (n_open ?N)" using ok' by (simp add: slots_ok_def)
    then show ?thesis using no by blast
  qed (use ok' no in \<open>auto simp: slots_ok_def\<close>)
qed

context stream_service
begin

lemma machine_run_ok:
  assumes "machine_run K (Some serve) as m m'" and "machine_ok K inv L m"
  shows "machine_ok K inv L m'"
  using assms by (induction rule: machine_run.induct) (blast dest: machine_step_ok)+

lemma machine_run_work:
  assumes "machine_run K (Some serve) as m m'" and "machine_ok K inv L m" and "m_stop m \<noteq> NotCalled"
  shows "length (filter (\<lambda>a. a \<noteq> Others) as) + work m' \<le> work m \<and> m_stop m' \<noteq> NotCalled"
  using assms
proof (induction rule: machine_run.induct)
  case (go a m m1 as m2)
  from machine_step_ok[OF go.hyps(1) go.prems(1)] go.prems(2) have s: "machine_ok K inv L m1" "m_stop m1 \<noteq> NotCalled"
    "if a = Others then work m1 = work m else work m1 < work m" by simp_all
  from go.IH[OF s(1,2)] s(3) show ?case by (auto split: if_splits)
qed simp

lemma machine_defined:
  assumes "machine_ok K inv L m"
  shows "m_pc m \<noteq> Ended \<and> kernel_ok ev \<Longrightarrow> listener_step K (Some serve) ev (m_pc m, m_ctx m, m_net m, m_app m) \<noteq> None"
    and "m_stop m \<noteq> Stopped \<Longrightarrow> joined \<or> m_stop m \<noteq> Joining \<Longrightarrow> stop_step joined (m_stop m, m_ctx m, m_net m) \<noteq> None"
proof -
  assume pc: "m_pc m \<noteq> Ended \<and> kernel_ok ev"
  then have "m_stop m \<noteq> Stopped" using assms by (auto simp: machine_ok_def)
  then show "listener_step K (Some serve) ev (m_pc m, m_ctx m, m_net m, m_app m) \<noteq> None"
    using listener_step_ok[of K "add_mset (listen_sock (m_ctx m)) (m_others m)" L "m_pc m" "m_ctx m" "m_net m" "m_app m" ev] assms pc
    by (auto simp: machine_ok_def)
next
  assume "m_stop m \<noteq> Stopped" "joined \<or> m_stop m \<noteq> Joining"
  then show "stop_step joined (m_stop m, m_ctx m, m_net m) \<noteq> None"
    using stop_step_defined[of "m_ctx m" "m_stop m" joined "m_net m"] assms by (auto simp: machine_ok_def listening_def)
qed

lemma machine_progress:
  assumes "machine_ok K inv L m" and "m_stop m \<noteq> Stopped"
  shows "\<exists>a m'. a \<noteq> Others \<and> machine_step K (Some serve) a m m'"
proof (cases "m_pc m = Ended")
  case False
  obtain ev where ev: "kernel_ok ev" using some_round by blast
  from machine_defined(1)[OF assms(1)] False ev obtain pc ctx N u where
    "listener_step K (Some serve) ev (m_pc m, m_ctx m, m_net m, m_app m) = Some (pc, ctx, N, u)" by (auto; metis prod_cases4)
  from listens[OF ev this] show ?thesis by blast
next
  case True
  with machine_defined(2)[OF assms(1,2), of True] obtain st ctx N where
    "stop_step (m_pc m = Ended) (m_stop m, m_ctx m, m_net m) = Some (st, ctx, N)" by (auto; metis prod_cases3)
  from stops[OF this] show ?thesis by blast
qed

end

end
