(* ===== verification/Tcp_Stop_Properties.thy ===== *)
theory Tcp_Stop_Properties
  imports Tcp_Interleaving_Facts Tcp_Service_Properties
begin

text \<open>
  The properties of \<open>mb_tcp_stop\<close> (\<^verbatim>\<open>src/src/modbus_tcp.c\<close>) on a TCP server whose listener is running, for every
  interleaving of the two with other threads of the process.
\<close>

section \<open>Steps and rounds\<close>


section \<open>Stopping a server that serves\<close>

lemma tcp_server_machine:
  assumes "mb_tcp_server_start S link (Some c) (Some g) N = (0, Some c1, N1)" and "l_socket (s_listen S) < FD_SETSIZE"
    and "distinct (l_socket (s_listen S) # n_open N)" and dev: "device_ok I (srv_handlers g) d" and "I u"
  shows "stream_service (tcp_server_service J (ts_cfg c1)) I \<and> unat (client_cap (ts_transport c1)) = server_slots g \<and>
    machine_ok (server_hooks link) I (length (n_links N)) (machine_start (ts_transport c1) N1 u (mset (n_open N)))"
proof -
  from mb_tcp_server_started[OF assms(1,2)] obtain tr where
    tr: "c1 = \<lparr>ts_transport = tr, ts_cfg = g\<lparr>srv_recv_timeout_ms := recv_timeout_ms (cfg tr)\<rparr>\<rparr>"
      "serving_ok (server_hooks link) (add_mset (listen_sock tr) (mset (n_open N))) (length (n_links N)) tr N1"
      "initialized tr \<noteq> 0" "stream_sock tr = - 1" "length (client_fds tr) = unat (client_cap tr)"
      "unat (client_cap tr) = server_slots g" "keep_running tr = 1" "n_open N1 = l_socket (s_listen S) # n_open N" by auto
  have "machine_ok (server_hooks link) I (length (n_links N)) (machine_start tr N1 u (mset (n_open N)))"
    using tr assms(3,5) by (intro machine_start_ok) (simp_all add: serving_ok_def listening_def)
  then show ?thesis using tr(1,6) server_service(2)[of I "ts_cfg c1" d J] dev by simp
qed


text \<open>
  C16. A stop returns: once it has been called, the listener and the stop take at most four steps for each slot
  and nine more between them, whatever the schedule and whatever other threads do; and as long as the stop
  has not returned, one of the two can take a step.
\<close>

theorem tcp_stop_returns:
  assumes start: "mb_tcp_server_start S link (Some c) (Some g) N = (0, Some c1, N1)" and "l_socket (s_listen S) < FD_SETSIZE"
    and "distinct (l_socket (s_listen S) # n_open N)" and "device_ok I (srv_handlers g) d" and "I u"
    and called: "machine_run (server_hooks link) (Some (tcp_server_service J (ts_cfg c1))) as
      (machine_start (ts_transport c1) N1 u (mset (n_open N))) m" "m_stop m \<noteq> NotCalled"
    and on: "machine_run (server_hooks link) (Some (tcp_server_service J (ts_cfg c1))) bs m m'"
  shows "length (filter (\<lambda>a. a \<noteq> Others) bs) \<le> 4 * server_slots g + 9 \<and>
    (m_stop m' = Stopped \<or>
     (\<exists>a m''. a \<noteq> Others \<and> machine_step (server_hooks link) (Some (tcp_server_service J (ts_cfg c1))) a m' m''))"
proof -
  from tcp_server_machine[OF assms(1-5)] have svc: "stream_service (tcp_server_service J (ts_cfg c1)) I"
    and cap: "unat (client_cap (ts_transport c1)) = server_slots g"
    and "machine_ok (server_hooks link) I (length (n_links N)) (machine_start (ts_transport c1) N1 u (mset (n_open N)))" by blast+
  from stream_service.machine_run_ok[OF svc called(1) this(3)] have ok: "machine_ok (server_hooks link) I (length (n_links N)) m" .
  note rest = stream_service.machine_run_ok[OF svc on ok] and steps = stream_service.machine_run_work[OF svc on ok called(2)]
  have "unat (client_cap (m_ctx m)) \<le> server_slots g" using machine_run_cap[OF called(1)] cap by (simp add: machine_start_def)
  then have "length (filter (\<lambda>a. a \<noteq> Others) bs) \<le> 4 * server_slots g + 9"
    using steps work_bound[OF called(2)] by linarith
  then show ?thesis using stream_service.machine_progress[OF svc rest] by blast
qed

section \<open>A run that stops\<close>

text \<open>
  A client connects and goes away; while the listener is between closing its descriptor 4 and clearing the
  slot, another thread opens a file and gets the number 4. The stop reads the slot then and shuts it down.
\<close>

definition gone_round :: "c_int \<Rightarrow> tcp_round" where
  "gone_round ready = (demo_round ready)\<lparr>r_peer := socket []\<rparr>"

lemma gone_round_ok: "kernel_ok (gone_round fd)"
  using demo_round_ok[of fd] by (simp add: kernel_ok_def gone_round_def)

text \<open>The client is accepted and served once; the stop comes in the gap.\<close>

definition moves_to_gap :: "move list" where
  "moves_to_gap = replicate 15 (Listen (gone_round 3)) @ replicate 3 (Listen (gone_round 4)) @ [Open 4, Stop, Stop, Stop]"

definition moves_from_gap :: "move list" where
  "moves_from_gap = replicate 12 Stop @ replicate 12 (Listen (gone_round 4)) @ [Stop]"

definition demo_machine :: "server_app_ctx option machine" where
  "demo_machine = (case mb_tcp_server_start demo_start True (Some \<lparr>ts_transport = zero_transport, ts_cfg = bank_server\<rparr>)
       (Some bank_server) demo_net of
     (rc, c1, N1) \<Rightarrow> machine_start (ts_transport (the c1)) N1 bank_state (mset (n_open demo_net)))"
lemma stop_shuts_other_thread:
  "case make_moves (server_hooks True) (Some (tcp_server_service zero_stack bank_server)) moves_to_gap demo_machine of
     Some m \<Rightarrow> m_stop m = StopShut 0 \<and> client_fds (m_ctx m) ! 0 = 4 \<and> 4 \<in># m_others m
   | None \<Rightarrow> False"
  by code_simp

lemma demo_started:
  "\<exists>c1 N1. mb_tcp_server_start demo_start True (Some \<lparr>ts_transport = zero_transport, ts_cfg = bank_server\<rparr>) (Some bank_server) demo_net =
       (0, Some c1, N1) \<and> ts_cfg c1 = bank_server \<and> machine_start (ts_transport c1) N1 bank_state (mset (n_open demo_net)) = demo_machine"
proof -
  let ?s = "mb_tcp_server_start demo_start True (Some \<lparr>ts_transport = zero_transport, ts_cfg = bank_server\<rparr>) (Some bank_server) demo_net"
  have "case ?s of (rc, c1, N1) \<Rightarrow> rc = 0 \<and> (case c1 of Some c1 \<Rightarrow> srv_recv_timeout_ms (ts_cfg c1) = 5000 | None \<Rightarrow> False)" by code_simp
  then obtain c1 N1 where start: "?s = (0, Some c1, N1)" "srv_recv_timeout_ms (ts_cfg c1) = 5000"
    by (auto split: prod.splits option.splits)
  from mb_tcp_server_started[OF start(1)] have "\<exists>t. ts_cfg c1 = bank_server\<lparr>srv_recv_timeout_ms := t\<rparr>" by (auto simp: demo_start_def)
  with start have "ts_cfg c1 = bank_server" by (auto simp: bank_server_def)
  with start(1) show ?thesis by (simp add: demo_machine_def)
qed

lemma demo_start_side: "l_socket (s_listen demo_start) < 1024" "distinct (l_socket (s_listen demo_start) # n_open demo_net)"
  by (simp_all add: demo_start_def demo_net_def)

lemma moves_listen: "\<forall>ev. Listen ev \<in> set moves_to_gap \<longrightarrow> kernel_ok ev" "\<forall>ev. Listen ev \<in> set moves_from_gap \<longrightarrow> kernel_ok ev"
  by (auto simp: moves_to_gap_def moves_from_gap_def gone_round_ok)

lemma demo_runs:
  "\<exists>m m'. machine_run (server_hooks True) (Some (tcp_server_service zero_stack bank_server)) (map mover moves_to_gap) demo_machine m \<and>
     m_stop m \<noteq> NotCalled \<and>
     machine_run (server_hooks True) (Some (tcp_server_service zero_stack bank_server)) (map mover moves_from_gap) m m' \<and> m_stop m' = Stopped"
proof -
  let ?moves = "make_moves (server_hooks True) (Some (tcp_server_service zero_stack bank_server))"
  have "case ?moves moves_to_gap demo_machine of
      Some m \<Rightarrow> (case m_stop m of StopShut _ \<Rightarrow> (case ?moves moves_from_gap m of Some m' \<Rightarrow> m_stop m' = Stopped | None \<Rightarrow> False) | _ \<Rightarrow> False)
    | None \<Rightarrow> False" by code_simp
  then obtain m m' where "?moves moves_to_gap demo_machine = Some m" "m_stop m \<noteq> NotCalled" "?moves moves_from_gap m = Some m'"
    "m_stop m' = Stopped" by (auto split: option.splits stop_pc.splits)
  with make_moves_run moves_listen show ?thesis by blast
qed

lemma machine_run_trans: "machine_run K f as m m1 \<Longrightarrow> machine_run K f bs m1 m2 \<Longrightarrow> machine_run K f (as @ bs) m m2"
  by (induction rule: machine_run.induct) (auto intro: go)


theorem tcp_stop_returns_witness:
  "\<exists>c1 N1 as m bs m'. mb_tcp_server_start demo_start True (Some \<lparr>ts_transport = zero_transport, ts_cfg = bank_server\<rparr>)
       (Some bank_server) demo_net = (0, Some c1, N1) \<and>
     machine_run (server_hooks True) (Some (tcp_server_service zero_stack (ts_cfg c1))) as
       (machine_start (ts_transport c1) N1 bank_state (mset (n_open demo_net))) m \<and> m_stop m \<noteq> NotCalled \<and>
     machine_run (server_hooks True) (Some (tcp_server_service zero_stack (ts_cfg c1))) bs m m' \<and> m_stop m' = Stopped \<and>
     length (filter (\<lambda>a. a \<noteq> Others) bs) \<le> 49"
proof -
  obtain c1 N1 where start: "mb_tcp_server_start demo_start True (Some \<lparr>ts_transport = zero_transport, ts_cfg = bank_server\<rparr>)
      (Some bank_server) demo_net = (0, Some c1, N1)" and c1: "ts_cfg c1 = bank_server"
    "machine_start (ts_transport c1) N1 bank_state (mset (n_open demo_net)) = demo_machine" using demo_started by blast
  obtain as m bs m' where run: "machine_run (server_hooks True) (Some (tcp_server_service zero_stack (ts_cfg c1))) as
      (machine_start (ts_transport c1) N1 bank_state (mset (n_open demo_net))) m" "m_stop m \<noteq> NotCalled"
    "machine_run (server_hooks True) (Some (tcp_server_service zero_stack (ts_cfg c1))) bs m m'" "m_stop m' = Stopped"
    unfolding c1 using demo_runs by blast
  have "server_slots bank_server = 10" by (simp add: server_slots_def slots_wanted_def transport_cfg_def bank_server_def)
  with tcp_stop_returns[OF start demo_start_side bank_server_ok bank_state_ok run(1-3)]
  have "length (filter (\<lambda>a. a \<noteq> Others) bs) \<le> 49" by simp
  with start run show ?thesis by blast
qed


end
