(* ===== verification/Tcp_Client.thy ===== *)
theory Tcp_Client
  imports Pdu_Client Tcp_Frame Tcp_Connect
begin

text \<open>
  The TCP client, \<^verbatim>\<open>src/src/modbus_tcp_client.c\<close>: connecting, one request and its response, and the calls of the public
  interface. The lock that serialises requests has no counterpart, a call is one step on the
  context and the socket; logging is left out.
\<close>

section \<open>Constants, configuration and context\<close>

abbreviation (input) DEFAULT_CONNECT_TIMEOUT_SEC :: u32 where "DEFAULT_CONNECT_TIMEOUT_SEC \<equiv> 5"
abbreviation (input) DEFAULT_RESPONSE_TIMEOUT_MS :: u32 where "DEFAULT_RESPONSE_TIMEOUT_MS \<equiv> 1000"
abbreviation (input) RECV_PROTOCOL_ID_ERROR :: c_int where "RECV_PROTOCOL_ID_ERROR \<equiv> - 3"
abbreviation (input) RECV_PARTIAL_TIMEOUT :: c_int where "RECV_PARTIAL_TIMEOUT \<equiv> - 4"
abbreviation (input) MB_TCP_CLIENT_OK :: c_int where "MB_TCP_CLIENT_OK \<equiv> 0"
abbreviation (input) MB_TCP_CLIENT_ERR_ARG :: c_int where "MB_TCP_CLIENT_ERR_ARG \<equiv> - 1"
abbreviation (input) MB_TCP_CLIENT_ERR_NOT_CONNECTED :: c_int where "MB_TCP_CLIENT_ERR_NOT_CONNECTED \<equiv> - 2"
abbreviation (input) MB_TCP_CLIENT_ERR_TRANSPORT :: c_int where "MB_TCP_CLIENT_ERR_TRANSPORT \<equiv> - 3"
abbreviation (input) MB_TCP_CLIENT_ERR_TIMEOUT :: c_int where "MB_TCP_CLIENT_ERR_TIMEOUT \<equiv> - 4"
abbreviation (input) MB_TCP_CLIENT_ERR_FRAME :: c_int where "MB_TCP_CLIENT_ERR_FRAME \<equiv> - 5"
abbreviation (input) MB_TCP_CLIENT_ERR_TID :: c_int where "MB_TCP_CLIENT_ERR_TID \<equiv> - 6"
abbreviation (input) EINVAL_code :: c_int where "EINVAL_code \<equiv> 22"

record mb_tcp_client_config =
  cl_remote_host :: "string option"
  cl_port :: u16
  cl_bind_iface :: "string option"
  cl_unit_id :: u8
  cl_connect_timeout_sec :: u32
  cl_response_timeout_ms :: u32

record mb_tcp_client_ctx =
  cl_sock :: c_int
  cl_tid :: u16
  cl_initialized :: c_int
  cl_cfg :: mb_tcp_client_config

section \<open>Receiving a response\<close>

definition cli_recv_exact :: "u8 list \<Rightarrow> nat \<Rightarrow> nat \<Rightarrow> sock \<Rightarrow> (c_int \<times> u8 list \<times> sock) option" where
  "cli_recv_exact buf off len w =
     recv_loop (\<lambda>e. if e \<in> {EAGAIN, EWOULDBLOCK, ETIMEDOUT} then - 2 else - 1) buf off len w"

definition recv_err_to_client_err :: "c_int \<Rightarrow> c_int" where
  "recv_err_to_client_err recv_rc =
     (if recv_rc = - 2 \<or> recv_rc = RECV_PARTIAL_TIMEOUT then MB_TCP_CLIENT_ERR_TIMEOUT
      else if recv_rc = RECV_PROTOCOL_ID_ERROR then MB_TCP_CLIENT_ERR_FRAME
      else MB_TCP_CLIENT_ERR_TRANSPORT)"

definition next_tid :: "mb_tcp_client_ctx \<Rightarrow> u16 \<times> mb_tcp_client_ctx" where
  "next_tid ctx =
     (let ctx = (if cl_tid ctx < 0xFFFF then ctx\<lparr>cl_tid := cl_tid ctx + 1\<rparr> else ctx\<lparr>cl_tid := 1\<rparr>)
      in (cl_tid ctx, ctx))"

definition monotonic_ms :: "sock \<Rightarrow> u64 \<times> sock" where
  "monotonic_ms w =
     (case clk w (ticks w) of (sec, nsec) \<Rightarrow> (sec * 1000 + nsec div 1000000, w\<lparr>ticks := Suc (ticks w)\<rparr>))"

definition effective_response_timeout_ms :: "mb_tcp_client_ctx \<Rightarrow> u32" where
  "effective_response_timeout_ms ctx =
     (if cl_response_timeout_ms (cl_cfg ctx) \<noteq> 0 then cl_response_timeout_ms (cl_cfg ctx)
      else DEFAULT_RESPONSE_TIMEOUT_MS)"

text \<open>The conversion \<open>(int)\<close> of a 64-bit unsigned value keeps the low 32 bits as a signed number.\<close>

definition int_of_u64 :: "u64 \<Rightarrow> c_int" where
  "int_of_u64 x = sint (ucast x :: u32)"

function wait_readable :: "u64 \<Rightarrow> sock \<Rightarrow> (c_int \<times> sock) option" where
  "wait_readable deadline_ms w =
     (case monotonic_ms w of (now_ms, w1) \<Rightarrow>
        if now_ms \<ge> deadline_ms then Some (- 2, w1)
        else case sys_poll (int_of_u64 (deadline_ms - now_ms)) w1 of
               None \<Rightarrow> None
             | Some (Inr rc, w2) \<Rightarrow> Some (if rc > 0 then 0 else - 2, w2)
             | Some (Inl e, w2) \<Rightarrow> if e \<noteq> EINTR then Some (- 1, w2) else wait_readable deadline_ms w2)"
  by pat_completeness auto

lemma monotonic_ms_simps [simp]:
  "snd (monotonic_ms w) = w\<lparr>ticks := Suc (ticks w)\<rparr>"
  by (simp add: monotonic_ms_def split: prod.split)

lemma sys_poll_polls: "sys_poll t w = Some (Inl e, w') \<Longrightarrow> length (polls w') < length (polls w)"
  by (auto simp: sys_poll_def split: list.splits poll_event.splits if_splits)

termination wait_readable
proof (relation "measure (\<lambda>(d, w). length (polls w))", goal_cases)
  case (2 d w now w1 r e w2)
  then have "w1 = w\<lparr>ticks := Suc (ticks w)\<rparr>" using monotonic_ms_simps[of w] by (metis snd_conv)
  with 2 show ?case by (auto dest: sys_poll_polls)
qed simp

declare wait_readable.simps [simp del]

definition recv_response ::
    "u8 list \<Rightarrow> nat \<Rightarrow> u64 \<Rightarrow> nat \<Rightarrow> sock \<Rightarrow> (c_int \<times> u8 list \<times> nat \<times> sock) option" where
  "recv_response buf buf_cap deadline_ms total_len w = do {
     (rc, w) \<leftarrow> wait_readable deadline_ms w;
     if rc \<noteq> 0 then Some (rc, buf, total_len, w)
     else do {
       (rc, buf, w) \<leftarrow> cli_recv_exact buf 0 MODBUS_TCP_MBAP_HEADER_LEN w;
       if rc \<noteq> 0 then Some (if rc = - 2 then RECV_PARTIAL_TIMEOUT else rc, buf, total_len, w)
       else do {
         l1 \<leftarrow> rd buf 4;
         l0 \<leftarrow> rd buf 5;
         let mbap_remaining = (push_bit 8 (ucast l1) OR ucast l0 :: u16);
         if mbap_remaining = 0 \<or> unat mbap_remaining > buf_cap - MODBUS_TCP_MBAP_HEADER_LEN then
           Some (- 1, buf, total_len, w)
         else do {
           (rc, buf, w) \<leftarrow> cli_recv_exact buf MODBUS_TCP_MBAP_HEADER_LEN (unat mbap_remaining) w;
           if rc \<noteq> 0 then Some (if rc = - 2 then RECV_PARTIAL_TIMEOUT else rc, buf, total_len, w)
           else do {
             let total_len = MODBUS_TCP_MBAP_HEADER_LEN + unat mbap_remaining;
             p1 \<leftarrow> rd buf 2;
             p0 \<leftarrow> rd buf 3;
             Some (if p1 \<noteq> 0 \<or> p0 \<noteq> 0 then RECV_PROTOCOL_ID_ERROR else 0, buf, total_len, w) } } } } }"

section \<open>A transaction\<close>

text \<open>Waiting and receiving leave everything of the connection but the script and the clock alone.\<close>

definition same_conn :: "sock \<Rightarrow> sock \<Rightarrow> bool" where
  "same_conn w w' \<longleftrightarrow> wire w' = wire w \<and> tx w' = tx w \<and> rcvtimeo w' = rcvtimeo w \<and> clk w' = clk w \<and>
     open_fds w' = open_fds w \<and> ticks w \<le> ticks w'"

lemma same_conn_refl [simp]: "same_conn w w"
  by (simp add: same_conn_def)

lemma same_conn_trans: "same_conn w w1 \<Longrightarrow> same_conn w1 w2 \<Longrightarrow> same_conn w w2"
  by (simp add: same_conn_def)

lemma sys_poll_conn:
  "sys_poll t w = Some (res, w') \<Longrightarrow> rx w' = rx w \<and> same_conn w w'"
  by (auto simp: sys_poll_def same_conn_def split: list.splits poll_event.splits if_splits)

lemma wait_readable_conn:
  "wait_readable d w = Some (rc, w') \<Longrightarrow> rx w' = rx w \<and> same_conn w w' \<and> rc \<in> {0, - 1, - 2}"
proof (induction d w rule: wait_readable.induct)
  case (1 d w)
  obtain now w1 where m: "monotonic_ms w = (now, w1)" by fastforce
  then have w1: "rx w1 = rx w" "same_conn w w1" using monotonic_ms_simps[of w] by (auto simp: same_conn_def)
  show ?case
  proof (cases "now \<ge> d")
    case True
    then show ?thesis using "1.prems" m wait_readable.simps[of d w] w1 by simp
  next
    case False
    then obtain res w2 where sys: "sys_poll (int_of_u64 (d - now)) w1 = Some (res, w2)"
      using "1.prems" m wait_readable.simps[of d w] by (auto split: option.splits)
    note w2 = sys_poll_conn[OF sys]
    show ?thesis
    proof (cases "res = Inl EINTR")
      case True
      then have "wait_readable d w2 = Some (rc, w')" using "1.prems" m False sys wait_readable.simps[of d w] by simp
      then show ?thesis using "1.IH"[OF m[symmetric] False sys refl] True w2 w1
        by (auto intro: same_conn_trans)
    next
      case ne: False
      then have "w' = w2 \<and> rc \<in> {0, - 1, - 2}"
        using "1.prems" m False sys wait_readable.simps[of d w] by (auto split: sum.splits if_splits)
      then show ?thesis using w2 w1 by (auto intro: same_conn_trans)
    qed
  qed
qed

lemma recv_response_weight:
  assumes "recv_response buf cap d n w = Some (0, buf', n', w')"
  shows "rx_weight (rx w') < rx_weight (rx w)"
proof -
  let ?code = "\<lambda>e. if e \<in> {EAGAIN, EWOULDBLOCK, ETIMEDOUT} then - 2 else - 1 :: c_int"
  have c: "?code e \<noteq> 0" for e by simp
  from assms obtain w1 buf1 w2 m buf2 where
    "wait_readable d w = Some (0, w1)" "cli_recv_exact buf 0 6 w1 = Some (0, buf1, w2)"
    "cli_recv_exact buf1 6 m w2 = Some (0, buf2, w')"
    by (auto simp: recv_response_def bind_eq_Some_conv Let_def split: if_splits)
  then show ?thesis
    using wait_readable_conn[of d w 0 w1] recv_loop_weight[of ?code buf 0 6 w1 buf1 w2, OF _ c]
      recv_loop_weight[of ?code buf1 6 m w2 buf2 w', OF _ c]
    by (auto simp: cli_recv_exact_def)
qed

text \<open>The loop that skips late replies: it ends at the first frame with the identifier awaited.\<close>

function recv_matching ::
    "u16 \<Rightarrow> u64 \<Rightarrow> u8 list \<Rightarrow> nat \<Rightarrow> bool \<Rightarrow> sock \<Rightarrow> (c_int \<times> u8 list \<times> nat \<times> bool \<times> sock) option" where
  "recv_matching t deadline_ms resp total_len stale_seen w =
     (case recv_response resp MODBUS_TCP_MAX_ADU_LENGTH deadline_ms total_len w of
        None \<Rightarrow> None
      | Some (rc, resp, total_len, w) \<Rightarrow>
          if rc \<noteq> 0 then Some (rc, resp, total_len, stale_seen, w)
          else (case get_u16 resp of
                  None \<Rightarrow> None
                | Some resp_tid \<Rightarrow>
                    if resp_tid = t then Some (rc, resp, total_len, stale_seen, w)
                    else recv_matching t deadline_ms resp total_len True w))"
  by pat_completeness auto

termination recv_matching
  by (relation "measure (\<lambda>(t, d, resp, n, s, w). rx_weight (rx w))") (auto dest: recv_response_weight)

declare recv_matching.simps [simp del]

text \<open>The call \<open>mb_tcp_close(&ctx->sock)\<close>.\<close>

definition close_sock :: "mb_tcp_client_ctx \<Rightarrow> sock \<Rightarrow> mb_tcp_client_ctx \<times> sock" where
  "close_sock ctx w =
     (case mb_tcp_close (Some (cl_sock ctx)) w of (fd, w) \<Rightarrow> (ctx\<lparr>cl_sock := the fd\<rparr>, w))"

definition transact ::
    "stack \<Rightarrow> mb_tcp_client_ctx \<Rightarrow> u8 list \<Rightarrow> nat \<Rightarrow> u8 list \<Rightarrow> sock \<Rightarrow>
     (c_int \<times> mb_tcp_client_ctx \<times> u8 list \<times> sock) option" where
  "transact J ctx pdu pdu_len resp w = do {
     let req = local8 J MODBUS_TCP_MAX_ADU_LENGTH;
     fc \<leftarrow> rd pdu 0;
     if cl_initialized ctx = 0 then Some (MB_TCP_CLIENT_ERR_NOT_CONNECTED, ctx, resp, w)
     else do {
       let mbap_len = (of_nat (1 + pdu_len) :: u16);
       req \<leftarrow> wr req 2 0;
       req \<leftarrow> wr req 3 0;
       req \<leftarrow> wr req 4 (ucast (drop_bit 8 mbap_len));
       req \<leftarrow> wr req 5 (ucast (mbap_len AND 0xFF));
       req \<leftarrow> memcpy_to req 7 pdu pdu_len;
       if cl_sock ctx < 0 then Some (MB_TCP_CLIENT_ERR_NOT_CONNECTED, ctx, resp, w)
       else do {
         let (t, ctx) = next_tid ctx;
         req \<leftarrow> wr req 0 (ucast (drop_bit 8 t));
         req \<leftarrow> wr req 1 (ucast (t AND 0xFF));
         req \<leftarrow> wr req 6 (cl_unit_id (cl_cfg ctx));
         (sent_rc, w) \<leftarrow> mb_tcp_send_all req (7 + pdu_len) w;
         if sent_rc \<noteq> 0 then
           (case close_sock ctx w of (ctx, w) \<Rightarrow> Some (MB_TCP_CLIENT_ERR_TRANSPORT, ctx, resp, w))
         else do {
           let (now_ms, w) = monotonic_ms w;
           let deadline_ms = now_ms + ucast (effective_response_timeout_ms ctx);
           (rc, resp, total_len, stale_seen, w) \<leftarrow> recv_matching t deadline_ms resp 0 False w;
           let (ctx, w) = (if rc = - 1 \<or> rc = RECV_PARTIAL_TIMEOUT then close_sock ctx w else (ctx, w));
           if rc = - 2 \<and> stale_seen then Some (MB_TCP_CLIENT_ERR_TID, ctx, resp, w)
           else if rc \<noteq> 0 then Some (recv_err_to_client_err rc, ctx, resp, w)
           else if total_len \<le> 7 then Some (MB_TCP_CLIENT_ERR_FRAME, ctx, resp, w)
           else do {
             rc \<leftarrow> mb_pdu_check_response pdu (ptr resp 7) (total_len - 7);
             Some (if rc = MB_PDU_ERR_FRAME then MB_TCP_CLIENT_ERR_FRAME else rc, ctx, resp, w) } } } } }"

section \<open>The public interface\<close>

text \<open>A pointer that the code compares with a null pointer is an optional value.\<close>

definition cli_read_registers ::
    "stack \<Rightarrow> mb_tcp_client_ctx option \<Rightarrow> u8 \<Rightarrow> u16 \<Rightarrow> u16 \<Rightarrow> u16 list option \<Rightarrow> sock \<Rightarrow>
     (c_int \<times> mb_tcp_client_ctx option \<times> u16 list option \<times> sock) option" where
  "cli_read_registers J ctx fc addr qty out w =
     (case (ctx, out) of
        (Some c, Some dst) \<Rightarrow>
          if qty = 0 \<or> unat qty > MODBUS_MAX_READ_REGISTERS then Some (MB_TCP_CLIENT_ERR_ARG, ctx, out, w)
          else do {
            let pdu = local8 J MODBUS_MAX_PDU_LENGTH;
            let resp = local8 (stack_above 253 J) MODBUS_TCP_MAX_ADU_LENGTH;
            (pdu_len, pdu) \<leftarrow> mb_pdu_build_read pdu fc addr qty;
            (rc, c, resp, w) \<leftarrow> transact (stack_above 513 J) c pdu pdu_len resp w;
            if rc = MB_TCP_CLIENT_OK then do {
              dst \<leftarrow> mb_pdu_get_registers (ptr resp 7) qty dst;
              Some (rc, Some c, Some dst, w) }
            else Some (rc, Some c, out, w) }
      | _ \<Rightarrow> Some (MB_TCP_CLIENT_ERR_ARG, ctx, out, w))"

definition cli_read_bits ::
    "stack \<Rightarrow> mb_tcp_client_ctx option \<Rightarrow> u8 \<Rightarrow> u16 \<Rightarrow> u16 \<Rightarrow> u8 list option \<Rightarrow> sock \<Rightarrow>
     (c_int \<times> mb_tcp_client_ctx option \<times> u8 list option \<times> sock) option" where
  "cli_read_bits J ctx fc addr qty out w =
     (case (ctx, out) of
        (Some c, Some dst) \<Rightarrow>
          if qty = 0 \<or> unat qty > MODBUS_MAX_READ_BITS then Some (MB_TCP_CLIENT_ERR_ARG, ctx, out, w)
          else do {
            let pdu = local8 J MODBUS_MAX_PDU_LENGTH;
            let resp = local8 (stack_above 253 J) MODBUS_TCP_MAX_ADU_LENGTH;
            (pdu_len, pdu) \<leftarrow> mb_pdu_build_read pdu fc addr qty;
            (rc, c, resp, w) \<leftarrow> transact (stack_above 513 J) c pdu pdu_len resp w;
            if rc = MB_TCP_CLIENT_OK then do {
              dst \<leftarrow> mb_pdu_get_bits (ptr resp 7) qty dst;
              Some (rc, Some c, Some dst, w) }
            else Some (rc, Some c, out, w) }
      | _ \<Rightarrow> Some (MB_TCP_CLIENT_ERR_ARG, ctx, out, w))"

definition mb_tcp_client_connect ::
    "dial \<Rightarrow> mb_tcp_client_ctx option \<Rightarrow> mb_tcp_client_config option \<Rightarrow> sock \<Rightarrow>
     (c_int \<times> mb_tcp_client_ctx option \<times> sock) option" where
  "mb_tcp_client_connect D ctx conf w =
     (case (ctx, conf) of
        (Some c, Some g) \<Rightarrow>
          if cl_remote_host g = None \<or> cl_remote_host g = Some [] \<or> cl_port g = 0 then Some (- 1, ctx, w)
          else if cl_initialized c \<noteq> 0 then Some (- 1, ctx, w)
          else do {
            let c = \<lparr>cl_sock = - 1, cl_tid = 0, cl_initialized = 0, cl_cfg = g\<rparr>;
            if d_mutex D \<noteq> 0 then Some (- 1, Some c, w)
            else do {
              let connect_sec = (if cl_connect_timeout_sec g \<noteq> 0 then cl_connect_timeout_sec g
                                 else DEFAULT_CONNECT_TIMEOUT_SEC);
              (rc, fd, w) \<leftarrow> mb_tcp_connect D (Some (cl_sock c)) (cl_bind_iface g) (cl_remote_host g)
                               (cl_port g) connect_sec w;
              let c = c\<lparr>cl_sock := the fd\<rparr>;
              if rc \<noteq> 0 then Some (- 1, Some (c\<lparr>cl_sock := - 1\<rparr>), w)
              else do {
                let resp_ms = (if cl_response_timeout_ms g \<noteq> 0 then cl_response_timeout_ms g
                               else DEFAULT_RESPONSE_TIMEOUT_MS);
                let response_tv = (resp_ms div 1000, (resp_ms mod 1000) * 1000);
                let w = (if d_response_tmo D then w\<lparr>rcvtimeo := (response_tv \<noteq> (0, 0))\<rparr> else w);
                Some (0, Some (c\<lparr>cl_initialized := 1\<rparr>), w) } } }
      | _ \<Rightarrow> Some (- 1, ctx, w))"

definition mb_tcp_client_disconnect ::
    "mb_tcp_client_ctx option \<Rightarrow> sock \<Rightarrow> mb_tcp_client_ctx option \<times> sock" where
  "mb_tcp_client_disconnect ctx w =
     (case ctx of
        None \<Rightarrow> (ctx, w)
      | Some c \<Rightarrow>
          if cl_initialized c = 0 then (ctx, w)
          else case close_sock c w of (c, w) \<Rightarrow> (Some (c\<lparr>cl_initialized := 0\<rparr>), w))"

definition mb_tcp_client_set_unit_id ::
    "mb_tcp_client_ctx option \<Rightarrow> u8 \<Rightarrow> c_int \<times> mb_tcp_client_ctx option" where
  "mb_tcp_client_set_unit_id ctx unit_id =
     (case ctx of
        None \<Rightarrow> (MB_TCP_CLIENT_ERR_ARG, ctx)
      | Some c \<Rightarrow>
          if cl_initialized c = 0 then (MB_TCP_CLIENT_ERR_NOT_CONNECTED, ctx)
          else (MB_TCP_CLIENT_OK, Some (c\<lparr>cl_cfg := (cl_cfg c)\<lparr>cl_unit_id := unit_id\<rparr>\<rparr>)))"

definition mb_tcp_client_read_holding_registers ::
    "stack \<Rightarrow> mb_tcp_client_ctx option \<Rightarrow> u16 \<Rightarrow> u16 \<Rightarrow> u16 list option \<Rightarrow> sock \<Rightarrow>
     (c_int \<times> mb_tcp_client_ctx option \<times> u16 list option \<times> sock) option" where
  "mb_tcp_client_read_holding_registers J ctx = cli_read_registers J ctx MODBUS_FUNC_READ_HOLDING_REGISTERS"

definition mb_tcp_client_read_input_registers ::
    "stack \<Rightarrow> mb_tcp_client_ctx option \<Rightarrow> u16 \<Rightarrow> u16 \<Rightarrow> u16 list option \<Rightarrow> sock \<Rightarrow>
     (c_int \<times> mb_tcp_client_ctx option \<times> u16 list option \<times> sock) option" where
  "mb_tcp_client_read_input_registers J ctx = cli_read_registers J ctx MODBUS_FUNC_READ_INPUT_REGISTERS"

definition mb_tcp_client_read_coils ::
    "stack \<Rightarrow> mb_tcp_client_ctx option \<Rightarrow> u16 \<Rightarrow> u16 \<Rightarrow> u8 list option \<Rightarrow> sock \<Rightarrow>
     (c_int \<times> mb_tcp_client_ctx option \<times> u8 list option \<times> sock) option" where
  "mb_tcp_client_read_coils J ctx = cli_read_bits J ctx MODBUS_FUNC_READ_COILS"

definition mb_tcp_client_read_discrete_inputs ::
    "stack \<Rightarrow> mb_tcp_client_ctx option \<Rightarrow> u16 \<Rightarrow> u16 \<Rightarrow> u8 list option \<Rightarrow> sock \<Rightarrow>
     (c_int \<times> mb_tcp_client_ctx option \<times> u8 list option \<times> sock) option" where
  "mb_tcp_client_read_discrete_inputs J ctx = cli_read_bits J ctx MODBUS_FUNC_READ_DISCRETE_INPUTS"

text \<open>The four write functions build their PDU in a local array and run one transaction on it.\<close>

definition write_transact ::
    "stack \<Rightarrow> mb_tcp_client_ctx \<Rightarrow> (u8 list \<Rightarrow> (nat \<times> u8 list) option) \<Rightarrow> sock \<Rightarrow>
     (c_int \<times> mb_tcp_client_ctx option \<times> sock) option" where
  "write_transact J c build w = do {
     (pdu_len, pdu) \<leftarrow> build (local8 J MODBUS_MAX_PDU_LENGTH);
     (rc, c, resp, w) \<leftarrow> transact (stack_above 513 J) c pdu pdu_len
       (local8 (stack_above 253 J) MODBUS_TCP_MAX_ADU_LENGTH) w;
     Some (rc, Some c, w) }"

definition mb_tcp_client_write_single_register ::
    "stack \<Rightarrow> mb_tcp_client_ctx option \<Rightarrow> u16 \<Rightarrow> u16 \<Rightarrow> sock \<Rightarrow> (c_int \<times> mb_tcp_client_ctx option \<times> sock) option" where
  "mb_tcp_client_write_single_register J ctx addr value w =
     (case ctx of
        None \<Rightarrow> Some (MB_TCP_CLIENT_ERR_ARG, ctx, w)
      | Some c \<Rightarrow> write_transact J c
          (\<lambda>pdu. mb_pdu_build_write_single pdu MODBUS_FUNC_WRITE_SINGLE_REGISTER addr value) w)"

definition mb_tcp_client_write_single_coil ::
    "stack \<Rightarrow> mb_tcp_client_ctx option \<Rightarrow> u16 \<Rightarrow> u8 \<Rightarrow> sock \<Rightarrow> (c_int \<times> mb_tcp_client_ctx option \<times> sock) option" where
  "mb_tcp_client_write_single_coil J ctx addr value w =
     (case ctx of
        None \<Rightarrow> Some (MB_TCP_CLIENT_ERR_ARG, ctx, w)
      | Some c \<Rightarrow> write_transact J c
          (\<lambda>pdu. mb_pdu_build_write_single pdu MODBUS_FUNC_WRITE_SINGLE_COIL addr
             (if value \<noteq> 0 then MODBUS_COIL_ON else MODBUS_COIL_OFF)) w)"

definition mb_tcp_client_write_multiple_registers ::
    "stack \<Rightarrow> mb_tcp_client_ctx option \<Rightarrow> u16 \<Rightarrow> u16 \<Rightarrow> u16 list option \<Rightarrow> sock \<Rightarrow>
     (c_int \<times> mb_tcp_client_ctx option \<times> sock) option" where
  "mb_tcp_client_write_multiple_registers J ctx addr qty data w =
     (case (ctx, data) of
        (Some c, Some vs) \<Rightarrow>
          if qty = 0 \<or> unat qty > MODBUS_MAX_WRITE_REGISTERS then Some (MB_TCP_CLIENT_ERR_ARG, ctx, w)
          else write_transact J c (\<lambda>pdu. mb_pdu_build_write_registers pdu addr qty vs) w
      | _ \<Rightarrow> Some (MB_TCP_CLIENT_ERR_ARG, ctx, w))"

definition mb_tcp_client_write_multiple_coils ::
    "stack \<Rightarrow> mb_tcp_client_ctx option \<Rightarrow> u16 \<Rightarrow> u16 \<Rightarrow> u8 list option \<Rightarrow> sock \<Rightarrow>
     (c_int \<times> mb_tcp_client_ctx option \<times> sock) option" where
  "mb_tcp_client_write_multiple_coils J ctx addr qty values w =
     (case (ctx, values) of
        (Some c, Some vs) \<Rightarrow>
          if qty = 0 \<or> unat qty > MODBUS_MAX_WRITE_BITS then Some (MB_TCP_CLIENT_ERR_ARG, ctx, w)
          else write_transact J c (\<lambda>pdu. mb_pdu_build_write_coils pdu addr qty vs) w
      | _ \<Rightarrow> Some (MB_TCP_CLIENT_ERR_ARG, ctx, w))"

end
