(* ===== verification/Tcp_Client_Facts.thy ===== *)
theory Tcp_Client_Facts
  imports Tcp_Client
begin

text \<open>
  What the TCP client does with the stream it reads: every reception takes a whole frame or
  reports that it could not, for every script of the socket. The lemmas here are about the
  functions below the public interface; \<open>Tcp_Client_Properties\<close> states the results.
\<close>

section \<open>Waiting\<close>

definition clock_ms :: "sock \<Rightarrow> nat \<Rightarrow> u64" where
  "clock_ms w k = fst (clk w k) * 1000 + snd (clk w k) div 1000000"

lemma monotonic_ms_eq: "monotonic_ms w = (clock_ms w (ticks w), w\<lparr>ticks := Suc (ticks w)\<rparr>)"
  by (simp add: monotonic_ms_def clock_ms_def split_beta)

lemma clock_ms_conn: "same_conn w w' \<Longrightarrow> clock_ms w' k = clock_ms w k"
  by (simp add: clock_ms_def same_conn_def)

lemma wait_readable_ready:
  assumes "polls w = PollReady # ps" and "clock_ms w (ticks w) < d"
  shows "wait_readable d w = Some (0, w\<lparr>ticks := Suc (ticks w), polls := ps\<rparr>)"
  using assms wait_readable.simps[of d w]
  by (simp add: monotonic_ms_eq sys_poll_def del: wait_readable.simps)

lemma sys_poll_total: "0 \<le> t \<Longrightarrow> \<exists>res w'. sys_poll t w = Some (res, w')"
  by (auto simp: sys_poll_def split: list.split poll_event.split)

text \<open>Every wait ends when the time it may take is not negative as an \<open>int\<close>.\<close>

lemma wait_readable_total:
  assumes "\<And>k. ticks w \<le> k \<Longrightarrow> clock_ms w k < d \<Longrightarrow> 0 \<le> int_of_u64 (d - clock_ms w k)"
  shows "\<exists>res. wait_readable d w = Some res"
  using assms
proof (induction d w rule: wait_readable.induct)
  case (1 d w)
  let ?now = "clock_ms w (ticks w)" and ?w1 = "w\<lparr>ticks := Suc (ticks w)\<rparr>"
  note unf = wait_readable.simps[of d w] monotonic_ms_eq
  show ?case
  proof (cases "?now \<ge> d")
    case True
    then show ?thesis by (simp add: unf)
  next
    case False
    then have "0 \<le> int_of_u64 (d - ?now)" using "1.prems"[of "ticks w"] by simp
    then obtain res w2 where sys: "sys_poll (int_of_u64 (d - ?now)) ?w1 = Some (res, w2)"
      using sys_poll_total by blast
    have conn: "same_conn ?w1 w2" using sys_poll_conn[OF sys] by simp
    then have "\<exists>res. wait_readable d w2 = Some res" if "res = Inl EINTR"
      using "1.IH"[OF monotonic_ms_eq[symmetric] False sys refl that] "1.prems" that
      by (simp add: clock_ms_conn[OF conn] same_conn_def clock_ms_def)
    then show ?thesis using False sys by (cases res) (auto simp: unf)
  qed
qed

section \<open>Receiving\<close>

lemma cli_recv_ok:
  "len \<le> length (rx_bytes (rx w)) \<Longrightarrow> off + len \<le> length buf \<Longrightarrow>
   cli_recv_exact buf off len w =
     Some (0, blit buf off (take len (rx_bytes (rx w))), w\<lparr>rx := rx_drop len (rx w)\<rparr>)"
  by (simp add: cli_recv_exact_def recv_loop_ok)

lemma cli_recv_short:
  assumes "length (rx_bytes (rx w)) < len" and "off + len \<le> length buf"
  shows "(\<exists>rc b r. cli_recv_exact buf off len w = Some (rc, b, w\<lparr>rx := r\<rparr>) \<and> rc \<in> {- 1, - 2} \<and> length b = length buf) \<or>
    cli_recv_exact buf off len w = None \<and> \<not> rcvtimeo w"
proof -
  let ?code = "\<lambda>e. if e \<in> {EAGAIN, EWOULDBLOCK, ETIMEDOUT} then - 2 else - 1 :: c_int"
  have len: "length (blit buf off (rx_bytes (rx w))) = length buf" using assms by simp
  have code: "rc \<in> {- 1, - 2}" if "stop_code ?code w = Some rc" for rc
    using that by (auto simp: stop_code_def split: option.splits if_splits rx_event.splits)
  have none: "\<not> rcvtimeo w" if "stop_code ?code w = None"
    using that by (auto simp: stop_code_def split: option.splits if_splits rx_event.splits)
  show ?thesis
    using recv_loop_short[OF assms, of ?code] len code none
    by (auto simp: cli_recv_exact_def split: option.splits)
qed

lemma cli_recv_cases:
  assumes "cli_recv_exact buf off len w = Some (rc, b, w')" and "off + len \<le> length buf"
  shows "length b = length buf \<and> same_conn w w' \<and> polls w' = polls w \<and>
    (rc = 0 \<and> len \<le> length (rx_bytes (rx w)) \<and> b = blit buf off (take len (rx_bytes (rx w))) \<and>
       rx w' = rx_drop len (rx w) \<or> rc \<in> {- 1, - 2})"
proof (cases "len \<le> length (rx_bytes (rx w))")
  case True
  then show ?thesis using cli_recv_ok[OF True assms(2)] assms by (auto simp: same_conn_def)
next
  case False
  then show ?thesis using cli_recv_short[of w len off buf] assms by (auto simp: same_conn_def)
qed

text \<open>A frame in the stream is received whole; the code tells its protocol identifier.\<close>

lemma recv_response_frame:
  assumes wait: "wait_readable d w = Some (0, w1)"
    and bytes: "rx_bytes (rx w) = mbap_frame tid2 proto2 uid pdu @ tl2"
    and "length tid2 = 2" "length proto2 = 2" "length pdu \<le> 253" "length buf = 260"
  shows "recv_response buf 260 d n w =
    Some (if proto2 = [0, 0] then 0 else - 3, blit buf 0 (mbap_frame tid2 proto2 uid pdu), 7 + length pdu,
      w1\<lparr>rx := rx_drop (7 + length pdu) (rx w)\<rparr>)"
proof -
  obtain t1 t0 p1 p0 where tp: "tid2 = [t1, t0]" "proto2 = [p1, p0]" using assms(3,4) by (metis list2_cases)
  define m :: u16 where "m = of_nat (1 + length pdu)"
  have m: "unat m = 1 + length pdu" unfolding m_def using assms(5) by (intro unat_of_nat_u16) simp
  obtain l1 l0 where l: "be16 m = [l1, l0]" "of_be16 l1 l0 = m" by (simp add: be16_def)
  have frame: "mbap_frame tid2 proto2 uid pdu = t1 # t0 # p1 # p0 # l1 # l0 # uid # pdu"
    unfolding mbap_frame_def m_def[symmetric] using l(1) by (simp add: tp)
  have rx1: "rx w1 = rx w" using wait_readable_conn[OF wait] by simp
  let ?w2 = "w1\<lparr>rx := rx_drop 6 (rx w)\<rparr>"
  let ?b1 = "blit buf 0 [t1, t0, p1, p0, l1, l0]" and ?b2 = "blit buf 0 (mbap_frame tid2 proto2 uid pdu)"
  have len: "7 + length pdu \<le> length (rx_bytes (rx w))" using assms by simp
  have r1: "cli_recv_exact buf 0 6 w1 = Some (0, ?b1, ?w2)"
    using cli_recv_ok[of 6 w1 0 buf] bytes frame rx1 assms(6) by simp
  have "rx_bytes (rx ?w2) = uid # pdu @ tl2" using len bytes frame by (simp add: rx_bytes_drop)
  moreover have "blit ?b1 6 (uid # pdu) = ?b2" using assms(5,6) by (simp add: blit_append frame)
  moreover have "rx_drop (1 + length pdu) (rx_drop 6 (rx w)) = rx_drop (7 + length pdu) (rx w)"
    using len by (simp add: rx_drop_add)
  ultimately have r2: "cli_recv_exact ?b1 6 (unat m) ?w2 = Some (0, ?b2, w1\<lparr>rx := rx_drop (7 + length pdu) (rx w)\<rparr>)"
    using cli_recv_ok[of "1 + length pdu" ?w2 6 ?b1] assms(5,6) by (simp add: m)
  have range: "m \<noteq> 0" "\<not> unat m > 254" using m assms(5) by (auto simp: unat_eq_zero[symmetric])
  have rd: "rd ?b1 4 = Some l1" "rd ?b1 5 = Some l0" "rd ?b2 2 = Some p1" "rd ?b2 3 = Some p0"
    by (simp_all add: frame) (simp_all add: blit_def)
  show ?thesis
    by (simp add: recv_response_def wait r1 rd of_be16_def[symmetric] l(2) range r2 Let_def) (simp add: m tp)
qed

text \<open>
  Every outcome: nothing came and nothing was read, the stream broke or gave an impossible length,
  or exactly one frame was read.
\<close>

lemma recv_response_cases:
  assumes "recv_response buf 260 d n w = Some (rc, buf', n', w')" and "length buf = 260"
  shows "length buf' = 260 \<and> same_conn w w' \<and>
    (rc = - 2 \<and> rx w' = rx w \<or> rc \<in> {- 1, - 4} \<or>
     (\<exists>tid2 proto2 uid pdu. length tid2 = 2 \<and> length proto2 = 2 \<and> length pdu \<le> 253 \<and>
        rx_bytes (rx w) = mbap_frame tid2 proto2 uid pdu @ rx_bytes (rx w') \<and>
        rc = (if proto2 = [0, 0] then 0 else - 3) \<and>
        buf' = blit buf 0 (mbap_frame tid2 proto2 uid pdu) \<and> n' = 7 + length pdu))"
proof -
  from assms(1) obtain rcw w1 where wait: "wait_readable d w = Some (rcw, w1)"
    by (auto simp: recv_response_def bind_eq_Some_conv)
  note c1 = wait_readable_conn[OF wait]
  show ?thesis
  proof (cases "rcw = 0")
    case False
    then show ?thesis using assms wait c1 by (auto simp: recv_response_def)
  next
    case True
    note wait = wait[unfolded True]
    obtain rc1 b1 w2 where r1: "cli_recv_exact buf 0 6 w1 = Some (rc1, b1, w2)"
      using assms(1) wait by (auto simp: recv_response_def bind_eq_Some_conv)
    note c2 = cli_recv_cases[OF r1, simplified, OF order_trans[OF _ assms(2)[symmetric, THEN eq_imp_le]], simplified]
    show ?thesis
    proof (cases "rc1 = 0")
      case False
      then have "w' = w2 \<and> rc \<in> {- 1, - 4} \<and> buf' = b1"
        using assms(1) wait r1 c2 by (auto simp: recv_response_def split: if_splits)
      then show ?thesis using c1 c2 assms(2) by (auto intro: same_conn_trans)
    next
      case zero: True
      let ?bs = "rx_bytes (rx w)"
      let ?m = "of_be16 (?bs ! 4) (?bs ! 5)"
      have six: "6 \<le> length ?bs" "b1 = blit buf 0 (take 6 ?bs)" "rx w2 = rx_drop 6 (rx w)" "same_conn w w2"
        "length b1 = 260"
        using c1 c2 zero assms(2) by (auto intro: same_conn_trans)
      have rd1: "rd b1 4 = Some (?bs ! 4)" "rd b1 5 = Some (?bs ! 5)"
        using six assms(2) by (simp_all add: rd_def nth_blit)
      show ?thesis
      proof (cases "?m = 0 \<or> 254 < unat ?m")
        case True
        then have "w' = w2 \<and> rc = - 1 \<and> buf' = b1"
          using assms(1) by (auto simp: recv_response_def wait r1 zero rd1 of_be16_def[symmetric] Let_def)
        then show ?thesis using six by simp
      next
        case ok: False
        obtain rc2 b2 w3 where r2: "cli_recv_exact b1 6 (unat ?m) w2 = Some (rc2, b2, w3)"
          using assms(1) ok by (auto simp: recv_response_def wait r1 zero rd1 of_be16_def[symmetric] Let_def bind_eq_Some_conv)
        have "6 + unat ?m \<le> length b1" using ok six by simp
        note c3 = cli_recv_cases[OF r2 this]
        show ?thesis
        proof (cases "rc2 = 0")
          case False
          then have "w' = w3 \<and> rc \<in> {- 1, - 4} \<and> buf' = b2"
            using assms(1) ok r2 c3 by (auto simp: recv_response_def wait r1 zero rd1 of_be16_def[symmetric] Let_def split: if_splits)
          then show ?thesis using c3 six by (auto intro: same_conn_trans)
        next
          case zero2: True
          have "unat ?m \<noteq> 0" using ok by (simp add: unat_eq_zero)
          then have m: "1 \<le> unat ?m" "unat ?m \<le> 254" "6 + unat ?m \<le> length ?bs"
            using c3 zero2 ok six by (auto simp: rx_bytes_drop)
          let ?pdu = "take (unat ?m - 1) (drop 7 ?bs)"
          let ?f = "mbap_frame (take 2 ?bs) (take 2 (drop 2 ?bs)) (?bs ! 6) ?pdu"
          have lens: "length (take 2 ?bs) = 2" "length (take 2 (drop 2 ?bs)) = 2" "length ?pdu \<le> 253"
            "7 + length ?pdu = 6 + unat ?m"
            using m by (auto simp: min_def)
          note split = mbap_split[OF m(1,3)]
          note fr = recv_response_frame[OF wait split lens(1-3) assms(2), of n, unfolded assms(1)]
          then have e: "rc = (if take 2 (drop 2 ?bs) = [0, 0] then 0 else - 3)" "buf' = blit buf 0 ?f"
            "n' = 7 + length ?pdu" "w' = w1\<lparr>rx := rx_drop (7 + length ?pdu) (rx w)\<rparr>" by simp_all
          have "rx_bytes (rx w') = drop (6 + unat ?m) ?bs" using m lens(4) by (simp add: rx_bytes_drop e(4))
          then have dec: "?bs = ?f @ rx_bytes (rx w')" using split by (simp only:)
          have conn: "same_conn w w'" using e(4) c1 by (simp add: same_conn_def)
          have "length buf' = 260" using e(2) lens assms(2) by simp
          then show ?thesis using conn dec lens(1-3) e(1-3) by blast
        qed
      qed
    qed
  qed
qed

section \<open>Waiting for the matching reply\<close>

text \<open>Complete frames with protocol identifier 0, one after the other.\<close>

definition frames :: "(u16 \<times> u8 \<times> u8 list) list \<Rightarrow> u8 list" where
  "frames fs = concat (map (\<lambda>(t, uid, pdu). tcp_adu t uid pdu) fs)"

definition others :: "u16 \<Rightarrow> (u16 \<times> u8 \<times> u8 list) list \<Rightarrow> bool" where
  "others t fs \<longleftrightarrow> list_all (\<lambda>(t', uid, pdu). t' \<noteq> t \<and> length pdu \<le> 253) fs"

lemma frames_simps [simp]: "frames [] = []" "frames ((t, uid, pdu) # fs) = tcp_adu t uid pdu @ frames fs"
  by (simp_all add: frames_def)

lemma others_simps [simp]:
  "others t []" "others t ((t', uid, pdu) # fs) \<longleftrightarrow> t' \<noteq> t \<and> length pdu \<le> 253 \<and> others t fs"
  by (simp_all add: others_def)

lemma get_u16_frame:
  assumes "length tid2 = 2"
  obtains t where "tid2 = be16 t" "\<And>b. get_u16 (blit b 0 (mbap_frame tid2 proto2 uid pdu)) = Some t"
proof -
  obtain a b where "tid2 = [a, b]" using assms by (rule list2_cases)
  then show ?thesis using that[of "of_be16 a b"] by (simp add: mbap_frame_def blit_def get_u16_def of_be16_def[symmetric])
qed

lemma get_u16_tcp_adu: "get_u16 (blit b 0 (tcp_adu t uid pdu)) = Some t"
  by (rule get_u16_frame[of "be16 t" "[0, 0]" uid pdu]) (simp_all add: tcp_adu_mbap)

text \<open>How the loop can have ended when it took the complete frames \<open>fs\<close> before its last reception.\<close>

definition matching_outcome ::
    "u16 \<Rightarrow> sock \<Rightarrow> (u16 \<times> u8 \<times> u8 list) list \<Rightarrow> c_int \<Rightarrow> u8 list \<Rightarrow> nat \<Rightarrow> sock \<Rightarrow> bool" where
  "matching_outcome t w fs rc resp' n' w' \<longleftrightarrow>
     rc \<in> {- 1, - 4} \<or>
     rc = - 2 \<and> rx_bytes (rx w) = frames fs @ rx_bytes (rx w') \<or>
     rc = - 3 \<and> (\<exists>tid2 proto2 uid pdu. length tid2 = 2 \<and> length proto2 = 2 \<and> length pdu \<le> 253 \<and>
        proto2 \<noteq> [0, 0] \<and> rx_bytes (rx w) = frames fs @ mbap_frame tid2 proto2 uid pdu @ rx_bytes (rx w')) \<or>
     rc = 0 \<and> (\<exists>uid pdu b. length pdu \<le> 253 \<and> length b = 260 \<and>
        rx_bytes (rx w) = frames fs @ tcp_adu t uid pdu @ rx_bytes (rx w') \<and>
        resp' = blit b 0 (tcp_adu t uid pdu) \<and> n' = 7 + length pdu)"

lemma matching_outcome_skip:
  "matching_outcome t w1 fs rc resp' n' w' \<Longrightarrow> rx_bytes (rx w) = tcp_adu t' uid pdu @ rx_bytes (rx w1) \<Longrightarrow>
   matching_outcome t w ((t', uid, pdu) # fs) rc resp' n' w'"
  by (auto simp: matching_outcome_def)

lemma matching_outcome_now:
  assumes "recv_response resp 260 d n w = Some (rc, b, n', w')" and "length resp = 260"
    and "rc = 0 \<Longrightarrow> get_u16 b = Some t"
  shows "matching_outcome t w [] rc b n' w'"
proof (cases "rc = 0")
  case True
  then obtain tid2 uid pdu where f: "length tid2 = 2" "length pdu \<le> 253"
    "rx_bytes (rx w) = mbap_frame tid2 [0, 0] uid pdu @ rx_bytes (rx w')"
    "b = blit resp 0 (mbap_frame tid2 [0, 0] uid pdu)" "n' = 7 + length pdu"
    using recv_response_cases[OF assms(1,2)] by (auto split: if_splits)
  then have "tid2 = be16 t" using get_u16_frame[OF f(1)] assms(3)[OF True] by (metis option.inject)
  then show ?thesis using f True assms(2) by (auto simp: matching_outcome_def tcp_adu_mbap)
next
  case False
  have "rc = - 2 \<and> rx w' = rx w \<or> rc \<in> {- 1, - 4} \<or> rc = - 3 \<and>
      (\<exists>tid2 proto2 uid pdu. length tid2 = 2 \<and> length proto2 = 2 \<and> length pdu \<le> 253 \<and>
       proto2 \<noteq> [0, 0] \<and> rx_bytes (rx w) = mbap_frame tid2 proto2 uid pdu @ rx_bytes (rx w'))"
    using recv_response_cases[OF assms(1,2)] False by metis
  then show ?thesis by (auto simp: matching_outcome_def)
qed

lemma recv_matching_cases:
  "recv_matching t d resp n s w = Some (rc, resp', n', s', w') \<Longrightarrow> length resp = 260 \<Longrightarrow>
   \<exists>fs. others t fs \<and> length resp' = 260 \<and> same_conn w w' \<and> s' = (s \<or> fs \<noteq> []) \<and>
     matching_outcome t w fs rc resp' n' w'"
proof (induction t d resp n s w rule: recv_matching.induct)
  case (1 t d resp n s w)
  from "1.prems" recv_matching.simps[of t d resp n s w] obtain rc1 b1 n1 w1 where
    r1: "recv_response resp 260 d n w = Some (rc1, b1, n1, w1)" by (auto split: option.splits)
  note c1 = recv_response_cases[OF r1 "1.prems"(2)]
  show ?case
  proof (cases "rc1 = 0 \<and> get_u16 b1 \<noteq> Some t")
    case False
    then have e: "rc = rc1" "resp' = b1" "s' = s" "w' = w1" "n' = n1"
      using "1.prems"(1) r1 recv_matching.simps[of t d resp n s w] by (auto split: option.splits if_splits)
    then show ?thesis using c1 False matching_outcome_now[OF r1 "1.prems"(2)] by (intro exI[of _ "[]"]) simp
  next
    case True
    then obtain tid2 uid pdu where f: "length tid2 = 2" "length pdu \<le> 253"
      "rx_bytes (rx w) = mbap_frame tid2 [0, 0] uid pdu @ rx_bytes (rx w1)"
      "b1 = blit resp 0 (mbap_frame tid2 [0, 0] uid pdu)" "n1 = 7 + length pdu"
      using c1 by (auto split: if_splits)
    obtain t' where t': "tid2 = be16 t'" "get_u16 b1 = Some t'" using get_u16_frame[OF f(1)] f(4) by metis
    then have ne: "t' \<noteq> t" using True by auto
    have m: "recv_matching t d b1 n1 True w1 = Some (rc, resp', n', s', w')"
      using "1.prems"(1) r1 True t' ne recv_matching.simps[of t d resp n s w] by simp
    obtain fs where fs: "others t fs" "length resp' = 260" "same_conn w1 w'" "s'" "matching_outcome t w1 fs rc resp' n' w'"
      using "1.IH"[OF r1 refl refl refl _ t'(2) ne] m c1 True by blast
    have "same_conn w w'" using c1 fs(3) by (blast intro: same_conn_trans)
    then show ?thesis using fs ne f(2,3) matching_outcome_skip[OF fs(5), of w t' uid pdu]
      by (intro exI[of _ "(t', uid, pdu) # fs"]) (simp add: t'(1) tcp_adu_mbap)
  qed
qed

text \<open>The loop returns for every script when the socket has a receive timeout and every wait ends.\<close>

definition waits_end :: "u64 \<Rightarrow> sock \<Rightarrow> bool" where
  "waits_end d w \<longleftrightarrow> rcvtimeo w \<and> (\<forall>k \<ge> ticks w. clock_ms w k < d \<longrightarrow> 0 \<le> int_of_u64 (d - clock_ms w k))"

lemma waits_end_conn: "same_conn w w' \<Longrightarrow> waits_end d w \<Longrightarrow> waits_end d w'"
  by (auto simp: waits_end_def clock_ms_def same_conn_def)

lemma cli_recv_total: "rcvtimeo w \<Longrightarrow> off + len \<le> length buf \<Longrightarrow> \<exists>res. cli_recv_exact buf off len w = Some res"
  using cli_recv_ok[of len w off buf] cli_recv_short[of w len off buf] by (cases "len \<le> length (rx_bytes (rx w))") auto

lemma recv_response_total:
  assumes "waits_end d w" and "length buf = 260"
  shows "\<exists>res. recv_response buf 260 d n w = Some res"
proof -
  obtain rc w1 where wait: "wait_readable d w = Some (rc, w1)"
    using wait_readable_total[of w d] assms(1) by (auto simp: waits_end_def)
  have c1: "same_conn w w1" "rcvtimeo w1" using wait_readable_conn[OF wait] assms(1) by (auto simp: waits_end_def same_conn_def)
  obtain rc1 b1 w2 where r1: "cli_recv_exact buf 0 6 w1 = Some (rc1, b1, w2)"
    using cli_recv_total[OF c1(2), of 0 6 buf] assms(2) by auto
  have c2: "length b1 = 260" "rcvtimeo w2" using cli_recv_cases[OF r1] assms(2) c1(2) by (auto simp: same_conn_def)
  have rd1: "\<exists>x. rd b1 i = Some x" if "i < 260" for i using that c2 by (simp add: rd_def)
  obtain l1 l0 where l: "rd b1 4 = Some l1" "rd b1 5 = Some l0" using rd1[of 4] rd1[of 5] by auto
  show ?thesis
  proof (cases "rc = 0 \<and> rc1 = 0 \<and> unat (of_be16 l1 l0) \<le> 254")
    case False
    then show ?thesis by (auto simp: recv_response_def wait r1 l of_be16_def[symmetric] Let_def)
  next
    case True
    obtain rc2 b2 w3 where r2: "cli_recv_exact b1 6 (unat (of_be16 l1 l0)) w2 = Some (rc2, b2, w3)"
      using cli_recv_total[OF c2(2), of 6 "unat (of_be16 l1 l0)" b1] c2(1) True by auto
    have "length b2 = 260" using cli_recv_cases[OF r2] c2(1) True by simp
    then have "\<exists>x. rd b2 2 = Some x" "\<exists>x. rd b2 3 = Some x" by (simp_all add: rd_def)
    then show ?thesis using True by (auto simp: recv_response_def wait r1 l of_be16_def[symmetric] r2 Let_def)
  qed
qed

lemma recv_matching_total:
  "waits_end d w \<Longrightarrow> length resp = 260 \<Longrightarrow> \<exists>res. recv_matching t d resp n s w = Some res"
proof (induction t d resp n s w rule: recv_matching.induct)
  case (1 t d resp n s w)
  obtain rc1 b1 n1 w1 where r1: "recv_response resp 260 d n w = Some (rc1, b1, n1, w1)"
    using recv_response_total[OF "1.prems", of n] by auto
  have c1: "same_conn w w1" "length b1 = 260" using recv_response_cases[OF r1 "1.prems"(2)] by auto
  then obtain t' where t': "get_u16 b1 = Some t'" by (auto simp: get_u16_def rd_def)
  have "\<exists>res. recv_matching t d b1 n1 True w1 = Some res" if "rc1 = 0" "t' \<noteq> t"
    using "1.IH"[OF r1 refl refl refl _ t' that(2)] that(1) waits_end_conn[OF c1(1) "1.prems"(1)] c1(2) by blast
  then show ?case using r1 t' by (subst recv_matching.simps) auto
qed

text \<open>Replies that arrive in time: the late ones are skipped and the awaited one is returned.\<close>

definition prompt :: "nat \<Rightarrow> u64 \<Rightarrow> sock \<Rightarrow> bool" where
  "prompt m d w \<longleftrightarrow> take m (polls w) = replicate m PollReady \<and> (\<forall>k<m. clock_ms w (ticks w + k) < d)"

lemma recv_matching_finds:
  "prompt (Suc (length fs)) d w \<Longrightarrow> others t fs \<Longrightarrow> length resp = 260 \<Longrightarrow> length pdu \<le> 253 \<Longrightarrow>
   rx_bytes (rx w) = frames fs @ tcp_adu t uid pdu @ later \<Longrightarrow>
   \<exists>b w'. length b = 260 \<and> same_conn w w' \<and> rx_bytes (rx w') = later \<and>
     recv_matching t d resp n s w = Some (0, blit b 0 (tcp_adu t uid pdu), 7 + length pdu, s \<or> fs \<noteq> [], w')"
proof (induction fs arbitrary: resp n s w)
  case Nil
  then obtain ps where p: "polls w = PollReady # ps" "clock_ms w (ticks w) < d"
    by (cases "polls w") (auto simp: prompt_def)
  note r = recv_response_frame[OF wait_readable_ready[OF p], of "be16 t" "[0, 0]" uid pdu later resp n]
  then show ?case using Nil get_u16_tcp_adu[of resp t uid pdu]
    by (intro exI[of _ resp] exI[of _ "w\<lparr>ticks := Suc (ticks w), polls := ps, rx := rx_drop (7 + length pdu) (rx w)\<rparr>"])
       (subst recv_matching.simps, simp add: tcp_adu_mbap same_conn_def rx_bytes_drop)
next
  case (Cons f fs)
  obtain t' uid' pdu' where f: "f = (t', uid', pdu')" by (cases f) auto
  obtain ps where p: "polls w = PollReady # ps" "clock_ms w (ticks w) < d"
    using Cons.prems(1) by (cases "polls w") (auto simp: prompt_def)
  have len: "length pdu' \<le> 253" "t' \<noteq> t" using Cons.prems(2) f by auto
  let ?w1 = "w\<lparr>ticks := Suc (ticks w), polls := ps, rx := rx_drop (7 + length pdu') (rx w)\<rparr>"
  let ?b = "blit resp 0 (tcp_adu t' uid' pdu')"
  have r: "recv_response resp 260 d n w = Some (0, ?b, 7 + length pdu', ?w1)"
    using recv_response_frame[OF wait_readable_ready[OF p], of "be16 t'" "[0, 0]" uid' pdu'
        "frames fs @ tcp_adu t uid pdu @ later" resp n] Cons.prems f len by (simp add: tcp_adu_mbap)
  have "prompt (Suc (length fs)) d ?w1"
    using Cons.prems(1) p by (auto simp: prompt_def clock_ms_def add_Suc[symmetric] simp del: add_Suc)
  moreover have "rx_bytes (rx ?w1) = frames fs @ tcp_adu t uid pdu @ later"
    using Cons.prems(5) f by (simp add: rx_bytes_drop)
  ultimately obtain b w' where IH: "length b = 260" "same_conn ?w1 w'" "rx_bytes (rx w') = later"
    "recv_matching t d ?b (7 + length pdu') True ?w1 = Some (0, blit b 0 (tcp_adu t uid pdu), 7 + length pdu, True, w')"
    using Cons.IH[of ?w1 ?b "7 + length pdu'" True] Cons.prems(2-4) f len by auto
  have "same_conn w w'" using IH(2) by (simp add: same_conn_def)
  then show ?case using IH r len get_u16_tcp_adu[of resp t' uid' pdu']
    by (intro exI[of _ b] exI[of _ w']) (subst recv_matching.simps, simp)
qed

section \<open>The transaction\<close>

lemma next_tid_advance: "next_tid c = (advance_tid (cl_tid c), c\<lparr>cl_tid := advance_tid (cl_tid c)\<rparr>)"
  by (simp add: next_tid_def advance_tid_def Let_def)

lemma effective_response_timeout_ms_tid [simp]:
  "effective_response_timeout_ms (c\<lparr>cl_tid := t\<rparr>) = effective_response_timeout_ms c"
  by (simp add: effective_response_timeout_ms_def)

lemma close_sock_eq:
  "0 \<le> cl_sock c \<Longrightarrow> close_sock c w = (c\<lparr>cl_sock := - 1\<rparr>, sys_close (cl_sock c) w)"
  by (simp add: close_sock_def mb_tcp_close_def)

text \<open>The part of \<open>transact\<close> after the request was sent.\<close>

definition await_reply ::
    "mb_tcp_client_ctx \<Rightarrow> u8 list \<Rightarrow> u16 \<Rightarrow> u8 list \<Rightarrow> sock \<Rightarrow>
     (c_int \<times> mb_tcp_client_ctx \<times> u8 list \<times> sock) option" where
  "await_reply c pdu t resp w = do {
     let deadline_ms = clock_ms w (ticks w) + ucast (effective_response_timeout_ms c);
     (rc, resp, total_len, stale_seen, w) \<leftarrow> recv_matching t deadline_ms resp 0 False (w\<lparr>ticks := Suc (ticks w)\<rparr>);
     let (c, w) = (if rc = - 1 \<or> rc = - 4 then close_sock c w else (c, w));
     if rc = - 2 \<and> stale_seen then Some (- 6, c, resp, w)
     else if rc \<noteq> 0 then Some (recv_err_to_client_err rc, c, resp, w)
     else if total_len \<le> 7 then Some (- 5, c, resp, w)
     else do {
       rc \<leftarrow> mb_pdu_check_response pdu (ptr resp 7) (total_len - 7);
       Some (if rc = MB_PDU_ERR_FRAME then - 5 else rc, c, resp, w) } }"

lemma wr_Cons:
  "wr (x # xs) 0 v = Some (v # xs)" "wr (x # xs) (Suc i) v = map_option ((#) x) (wr xs i v)"
  "wr (x # xs) 1 v = map_option ((#) x) (wr xs 0 v)"
  "wr (x # xs) (numeral k) v = map_option ((#) x) (wr xs (pred_numeral k) v)"
  by (auto simp: wr_def numeral_eq_Suc)

lemma memcpy_to_Cons:
  "memcpy_to (x # xs) (Suc k) src n = map_option ((#) x) (memcpy_to xs k src n)"
  "memcpy_to (x # xs) (numeral m) src n = map_option ((#) x) (memcpy_to xs (pred_numeral m) src n)"
  by (auto simp: memcpy_to_def numeral_eq_Suc)

lemma req_buffer:
  assumes "length req = 260" and "n \<le> 253" and "n \<le> length pdu"
  shows "\<exists>b. do { req \<leftarrow> wr req 2 0; req \<leftarrow> wr req 3 0; req \<leftarrow> wr req 4 l1; req \<leftarrow> wr req 5 l0;
            req \<leftarrow> memcpy_to req 7 pdu n; Some req } = Some b \<and> length b = 260 \<and>
          do { b \<leftarrow> wr b 0 t1; b \<leftarrow> wr b 1 t0; wr b 6 u } =
            Some (blit req 0 ([t1, t0, 0, 0, l1, l0, u] @ take n pdu))"
proof -
  have "7 \<le> length req" using assms(1) by simp
  then obtain r0 r1 r2 r3 r4 r5 r6 rest where req: "req = r0 # r1 # r2 # r3 # r4 # r5 # r6 # rest"
    by (auto simp: numeral_eq_Suc Suc_le_length_iff)
  then have rest: "length rest = 253" using assms(1) by simp
  then have "memcpy_to rest 0 pdu n = Some (take n pdu @ drop n rest)" using assms(2,3) by (simp add: memcpy_to_def)
  then show ?thesis using assms(2,3) rest by (simp add: req wr_Cons memcpy_to_Cons blit_def)
qed

lemma transact_sends_any:
  assumes "cl_initialized c \<noteq> 0" and "0 \<le> cl_sock c" and "pdu \<noteq> []" and "n \<le> 253" and "n \<le> length pdu"
  shows "transact J c pdu n resp w =
    (let t = advance_tid (cl_tid c); c1 = c\<lparr>cl_tid := t\<rparr> in
     case send_loop (tcp_adu t (cl_unit_id (cl_cfg c)) (take n pdu)) w of (rc, w1) \<Rightarrow>
       if rc \<noteq> 0 then Some (- 3, c1\<lparr>cl_sock := - 1\<rparr>, resp, sys_close (cl_sock c) w1)
       else await_reply c1 pdu t resp w1)"
proof -
  define t where "t = advance_tid (cl_tid c)"
  define m where "m = (of_nat (1 + n) :: u16)"
  let ?req = "local8 J 260"
  let ?l1 = "ucast (drop_bit 8 m) :: u8" and ?l0 = "ucast (m AND 0xFF) :: u8"
  let ?t1 = "ucast (drop_bit 8 t) :: u8" and ?t0 = "ucast (t AND 0xFF) :: u8"
  let ?u = "cl_unit_id (cl_cfg c)"
  have "length ?req = 260" by simp
  from req_buffer[OF this assms(4,5), of ?l1 ?l0 ?t1 ?t0 ?u] obtain b where
    b: "do { req \<leftarrow> wr ?req 2 0; req \<leftarrow> wr req 3 0; req \<leftarrow> wr req 4 ?l1; req \<leftarrow> wr req 5 ?l0;
            req \<leftarrow> memcpy_to req 7 pdu n; Some req } = Some b"
      "do { b \<leftarrow> wr b 0 ?t1; b \<leftarrow> wr b 1 ?t0; wr b 6 ?u } =
            Some (blit ?req 0 ([?t1, ?t0, 0, 0, ?l1, ?l0, ?u] @ take n pdu))" by blast
  have adu: "[?t1, ?t0, 0, 0, ?l1, ?l0, ?u] @ take n pdu = tcp_adu t ?u (take n pdu)"
    using assms(5) by (simp add: tcp_adu_def be16_def m_def del: of_nat_add of_nat_Suc)
  have send: "mb_tcp_send_all (blit ?req 0 (tcp_adu t ?u (take n pdu))) (7 + n) w =
      Some (send_loop (tcp_adu t ?u (take n pdu)) w)"
    using assms(4,5) by (simp add: mb_tcp_send_all_def)
  obtain fc where fc: "rd pdu 0 = Some fc" using assms(3) by (cases pdu) auto
  from b(1) obtain r1 r2 r3 r4 where r: "wr ?req 2 0 = Some r1" "wr r1 3 0 = Some r2" "wr r2 4 ?l1 = Some r3"
    "wr r3 5 ?l0 = Some r4" "memcpy_to r4 7 pdu n = Some b" by (auto simp: bind_eq_Some_conv)
  from b(2) obtain r5 r6 where r': "wr b 0 ?t1 = Some r5" "wr r5 1 ?t0 = Some r6"
    "wr r6 6 ?u = Some (blit ?req 0 (tcp_adu t ?u (take n pdu)))" unfolding adu by (auto simp: bind_eq_Some_conv)
  show ?thesis
    unfolding transact_def Let_def next_tid_advance m_def[symmetric] t_def[symmetric] monotonic_ms_eq
    using assms(1,2) by (simp add: fc r r' send split_beta close_sock_eq await_reply_def Let_def del: One_nat_def)
qed

lemma transact_sends:
  assumes "cl_initialized c \<noteq> 0" and "0 \<le> cl_sock c" and "1 \<le> n" and "n \<le> 253" and "n \<le> length pdu"
  shows "transact J c pdu n resp w =
    (let t = advance_tid (cl_tid c); c1 = c\<lparr>cl_tid := t\<rparr> in
     case send_loop (tcp_adu t (cl_unit_id (cl_cfg c)) (take n pdu)) w of (rc, w1) \<Rightarrow>
       if rc \<noteq> 0 then Some (- 3, c1\<lparr>cl_sock := - 1\<rparr>, resp, sys_close (cl_sock c) w1)
       else await_reply c1 pdu t resp w1)"
  using assms by (intro transact_sends_any) auto

text \<open>A defined transaction copies its PDU inside the buffers.\<close>

lemma transact_sizes:
  assumes "transact J c pdu n resp w = Some res" and "cl_initialized c \<noteq> 0"
  shows "pdu \<noteq> [] \<and> n \<le> 253 \<and> n \<le> length pdu"
proof (rule ccontr)
  assume bad: "\<not> (pdu \<noteq> [] \<and> n \<le> 253 \<and> n \<le> length pdu)"
  have copy: "memcpy_to R 7 pdu n = None" if "length R = 260" "pdu \<noteq> []" for R
    using bad that by (auto simp: memcpy_to_def)
  have "transact J c pdu n resp w = None"
  proof (cases pdu)
    case Nil
    then show ?thesis by (simp add: transact_def rd_def)
  next
    case (Cons x xs)
    then show ?thesis using assms(2) copy unfolding transact_def by (simp add: wr_def)
  qed
  then show False using assms(1) by simp
qed

text \<open>Without a connection nothing happens on the socket.\<close>

lemma transact_not_connected:
  assumes "cl_initialized c = 0 \<or> cl_sock c < 0" and "n \<le> 253" and "n \<le> length pdu" and "1 \<le> n"
  shows "transact J c pdu n resp w = Some (- 2, c, resp, w)"
proof -
  obtain fc where fc: "rd pdu 0 = Some fc" using assms(3,4) by (auto simp: rd_def)
  have "length (local8 J 260) = 260" by simp
  from req_buffer[OF this assms(2,3)] obtain b where
    "do { req \<leftarrow> wr (local8 J 260) 2 0; req \<leftarrow> wr req 3 0; req \<leftarrow> wr req 4 (ucast (drop_bit 8 (of_nat (1 + n) :: u16)));
          req \<leftarrow> wr req 5 (ucast ((of_nat (1 + n) :: u16) AND 0xFF)); req \<leftarrow> memcpy_to req 7 pdu n; Some req } = Some b" by blast
  then obtain r1 r2 r3 r4 where "wr (local8 J 260) 2 0 = Some r1" "wr r1 3 0 = Some r2"
    "wr r2 4 (ucast (drop_bit 8 (of_nat (1 + n) :: u16))) = Some r3"
    "wr r3 5 (ucast ((of_nat (1 + n) :: u16) AND 0xFF)) = Some r4" "memcpy_to r4 7 pdu n = Some b"
    by (auto simp: bind_eq_Some_conv)
  then show ?thesis using assms(1) fc by (auto simp: transact_def Let_def simp del: of_nat_add of_nat_Suc)
qed

lemma transact_closed:
  assumes "transact J c pdu n resp w = Some (rc, c', resp', w')" and "0 \<le> rc"
  shows "cl_initialized c \<noteq> 0 \<and> 0 \<le> cl_sock c"
  using assms by (auto simp: transact_def Let_def bind_eq_Some_conv split: if_splits)

text \<open>
  How a transaction can end after its request went out: the connection was closed, no reply came,
  a frame of another protocol came, or the reply came and the PDU layer checked it. Unless the
  connection was closed, whole frames were read.
\<close>

definition reply_checked :: "u8 list \<Rightarrow> u16 \<Rightarrow> u8 \<Rightarrow> u8 list \<Rightarrow> c_int \<Rightarrow> u8 list \<Rightarrow> bool" where
  "reply_checked pdu t uid rpdu rc resp' \<longleftrightarrow>
     (\<exists>rest. resp' = tcp_adu t uid rpdu @ rest \<and>
        rc = (if rpdu = [] \<or> mb_pdu_check_response pdu (rpdu @ rest) (length rpdu) = Some (- 1) then - 5
              else the (mb_pdu_check_response pdu (rpdu @ rest) (length rpdu))))"

definition await_outcome ::
    "mb_tcp_client_ctx \<Rightarrow> u8 list \<Rightarrow> u16 \<Rightarrow> sock \<Rightarrow> c_int \<Rightarrow> mb_tcp_client_ctx \<Rightarrow> u8 list \<Rightarrow> sock \<Rightarrow>
     (u16 \<times> u8 \<times> u8 list) list \<Rightarrow> bool" where
  "await_outcome c pdu t w rc c' resp' w' fs \<longleftrightarrow>
     c' = c\<lparr>cl_sock := - 1\<rparr> \<and> rc \<in> {- 3, - 4} \<and> open_fds w' = remove1 (cl_sock c) (open_fds w) \<or>
     c' = c \<and> open_fds w' = open_fds w \<and>
       (rc = (if fs = [] then - 4 else - 6) \<and> rx_bytes (rx w) = frames fs @ rx_bytes (rx w') \<or>
        rc = - 5 \<and> (\<exists>tid2 proto2 uid rpdu. length tid2 = 2 \<and> length proto2 = 2 \<and> length rpdu \<le> 253 \<and>
          proto2 \<noteq> [0, 0] \<and> rx_bytes (rx w) = frames fs @ mbap_frame tid2 proto2 uid rpdu @ rx_bytes (rx w')) \<or>
        (\<exists>uid rpdu. length rpdu \<le> 253 \<and> rx_bytes (rx w) = frames fs @ tcp_adu t uid rpdu @ rx_bytes (rx w') \<and>
          reply_checked pdu t uid rpdu rc resp'))"

lemma matching_outcome_ticks [simp]:
  "matching_outcome t (w\<lparr>ticks := k\<rparr>) fs rc resp' n' w' = matching_outcome t w fs rc resp' n' w'"
  by (simp add: matching_outcome_def)

lemma same_conn_tick: "same_conn (w\<lparr>ticks := Suc (ticks w)\<rparr>) w' \<Longrightarrow> same_conn w w'"
  by (simp add: same_conn_def)

lemma blit_frame: "length b = 260 \<Longrightarrow> length rpdu \<le> 253 \<Longrightarrow>
    blit b 0 (tcp_adu t uid rpdu) = tcp_adu t uid rpdu @ drop (7 + length rpdu) b"
  by (simp add: blit_def)

lemma ptr_7_tcp_adu [simp]: "ptr (tcp_adu t uid rpdu @ rest) 7 = rpdu @ rest"
  by (simp add: tcp_adu_def be16_def ptr_def numeral_eq_Suc)

lemma await_reply_cases:
  assumes "await_reply c pdu t resp w = Some (rc, c', resp', w')" and "length resp = 260"
    and "0 \<le> cl_sock c" and "5 \<le> length pdu"
  shows "\<exists>fs. others t fs \<and> wire w' = wire w \<and> await_outcome c pdu t w rc c' resp' w' fs"
proof -
  let ?d = "clock_ms w (ticks w) + ucast (effective_response_timeout_ms c)"
  from assms(1) obtain rc1 n1 s1 w1 where
    r: "recv_matching t ?d resp 0 False (w\<lparr>ticks := Suc (ticks w)\<rparr>) = Some (rc1, resp', n1, s1, w1)"
    by (auto simp: await_reply_def bind_eq_Some_conv Let_def close_sock_eq[OF assms(3)] split: if_splits)
  note step = assms(1)[unfolded await_reply_def Let_def r, simplified]
  from recv_matching_cases[OF r assms(2)] obtain fs where
    fs: "others t fs" "length resp' = 260" "same_conn w w1" "s1 = (fs \<noteq> [])" "matching_outcome t w fs rc1 resp' n1 w1"
    by (auto dest: same_conn_tick)
  have conn: "open_fds w1 = open_fds w" "wire w1 = wire w" using fs(3) by (auto simp: same_conn_def)
  from fs(5) consider (closed) "rc1 \<in> {- 1, - 4}" | (none) "rc1 = - 2" "rx_bytes (rx w) = frames fs @ rx_bytes (rx w1)"
    | (proto) "rc1 = - 3" "\<exists>tid2 proto2 uid rpdu. length tid2 = 2 \<and> length proto2 = 2 \<and> length rpdu \<le> 253 \<and>
        proto2 \<noteq> [0, 0] \<and> rx_bytes (rx w) = frames fs @ mbap_frame tid2 proto2 uid rpdu @ rx_bytes (rx w1)"
    | (reply) uid rpdu b where "rc1 = 0" "length rpdu \<le> 253" "length b = 260"
        "rx_bytes (rx w) = frames fs @ tcp_adu t uid rpdu @ rx_bytes (rx w1)"
        "resp' = blit b 0 (tcp_adu t uid rpdu)" "n1 = 7 + length rpdu"
    unfolding matching_outcome_def by metis
  then have "await_outcome c pdu t w rc c' resp' w' fs \<and> wire w' = wire w"
  proof cases
    case closed
    then show ?thesis using step conn assms(3)
      by (auto simp: close_sock_eq recv_err_to_client_err_def await_outcome_def)
  next
    case none
    then show ?thesis using step conn fs(4)
      by (auto simp: recv_err_to_client_err_def await_outcome_def split: if_splits)
  next
    case proto
    then show ?thesis using step conn by (auto simp: recv_err_to_client_err_def await_outcome_def)
  next
    case reply
    let ?rest = "drop (7 + length rpdu) b"
    have resp': "resp' = tcp_adu t uid rpdu @ ?rest" using reply blit_frame by metis
    obtain v where v: "mb_pdu_check_response pdu (rpdu @ ?rest) (length rpdu) = Some v"
      using check_response_total[OF assms(4), of "length rpdu" "rpdu @ ?rest"] by auto
    have "reply_checked pdu t uid rpdu rc resp'" "c' = c" "w' = w1"
      unfolding reply_checked_def using step reply(1,6) v resp'
      by (auto simp: split: if_splits intro!: exI[of _ ?rest])
    then show ?thesis using conn reply(2,4) unfolding await_outcome_def by blast
  qed
  then show ?thesis using fs(1) by blast
qed

lemma await_reply_total:
  assumes "waits_end (clock_ms w (ticks w) + ucast (effective_response_timeout_ms c)) w"
    and "length resp = 260" and "5 \<le> length pdu"
  shows "\<exists>res. await_reply c pdu t resp w = Some res"
proof -
  let ?d = "clock_ms w (ticks w) + ucast (effective_response_timeout_ms c)"
  let ?w = "w\<lparr>ticks := Suc (ticks w)\<rparr>"
  have "same_conn w ?w" by (simp add: same_conn_def)
  from recv_matching_total[OF waits_end_conn[OF this assms(1)] assms(2)] obtain rc resp' n s w1 where
    r: "recv_matching t ?d resp 0 False ?w = Some (rc, resp', n, s, w1)" by fastforce
  from recv_matching_cases[OF r assms(2)] have "length resp' = 260" "rc = 0 \<longrightarrow> n \<le> 260"
    by (auto simp: matching_outcome_def)
  then have "\<exists>v. mb_pdu_check_response pdu (ptr resp' 7) (n - 7) = Some v" if "rc = 0"
    using check_response_total[OF assms(3), of "n - 7" "ptr resp' 7"] that diff_le_mono[of n 260 7] by auto
  then show ?thesis using r by (auto simp: await_reply_def Let_def split_beta)
qed

lemma await_reply_finds:
  defines "dl \<equiv> \<lambda>c w. clock_ms w (ticks w) + ucast (effective_response_timeout_ms c)"
  assumes "prompt (Suc (length fs)) (dl c w) (w\<lparr>ticks := Suc (ticks w)\<rparr>)" and "others t fs" and "length resp = 260"
    and "1 \<le> length rpdu" and "length rpdu \<le> 253"
    and "rx_bytes (rx w) = frames fs @ tcp_adu t uid rpdu @ later"
    and "\<And>rest. mb_pdu_check_response pdu (rpdu @ rest) (length rpdu) = Some v" and "v \<noteq> - 1"
  shows "\<exists>rest w'. await_reply c pdu t resp w = Some (v, c, tcp_adu t uid rpdu @ rest, w') \<and>
    same_conn w w' \<and> rx_bytes (rx w') = later"
proof -
  obtain b w' where r: "length b = 260" "same_conn (w\<lparr>ticks := Suc (ticks w)\<rparr>) w'" "rx_bytes (rx w') = later"
    "recv_matching t (dl c w) resp 0 False (w\<lparr>ticks := Suc (ticks w)\<rparr>) =
       Some (0, blit b 0 (tcp_adu t uid rpdu), 7 + length rpdu, fs \<noteq> [], w')"
    using recv_matching_finds[OF assms(2-4,6), of uid later 0 False] assms(7) by auto
  then show ?thesis using assms(5,8,9) same_conn_tick[OF r(2)]
    by (auto simp: await_reply_def Let_def dl_def blit_frame[OF r(1) assms(6)])
qed

text \<open>A whole transaction with a peer that answers in time and takes the request at once.\<close>

lemma transact_answered:
  defines "t \<equiv> \<lambda>c. advance_tid (cl_tid c)"
  assumes "cl_initialized c \<noteq> 0" and "0 \<le> cl_sock c" and "1 \<le> n" and "n \<le> 253" and "n \<le> length pdu" and "tx w = []"
    and "prompt (Suc (length fs)) (clock_ms w (ticks w) + ucast (effective_response_timeout_ms c)) (w\<lparr>ticks := Suc (ticks w)\<rparr>)"
    and "others (t c) fs" and "length resp = 260" and "1 \<le> length rpdu" and "length rpdu \<le> 253"
    and "rx_bytes (rx w) = frames fs @ tcp_adu (t c) uid rpdu @ later"
    and "\<And>rest. mb_pdu_check_response pdu (rpdu @ rest) (length rpdu) = Some v" and "v \<noteq> - 1"
  shows "\<exists>rest w'. transact J c pdu n resp w = Some (v, c\<lparr>cl_tid := t c\<rparr>, tcp_adu (t c) uid rpdu @ rest, w') \<and>
    wire w' = wire w @ tcp_adu (t c) (cl_unit_id (cl_cfg c)) (take n pdu) \<and> rx_bytes (rx w') = later \<and>
    open_fds w' = open_fds w"
proof -
  let ?adu = "tcp_adu (t c) (cl_unit_id (cl_cfg c)) (take n pdu)"
  let ?w1 = "w\<lparr>wire := wire w @ ?adu\<rparr>" and ?c1 = "c\<lparr>cl_tid := t c\<rparr>"
  have "transact J c pdu n resp w = await_reply ?c1 pdu (t c) resp ?w1"
    using transact_sends[OF assms(2-6), of J resp w] send_loop_ok[OF assms(7), of ?adu] by (simp add: Let_def t_def)
  moreover have "prompt (Suc (length fs)) (clock_ms ?w1 (ticks ?w1) + ucast (effective_response_timeout_ms ?c1))
      (?w1\<lparr>ticks := Suc (ticks ?w1)\<rparr>)"
    using assms(8) by (simp add: prompt_def clock_ms_def)
  note await_reply_finds[OF this assms(9-12) _ assms(14,15), of uid later]
  ultimately show ?thesis using assms(13) by (auto simp: same_conn_def)
qed

section \<open>Time left until the deadline\<close>

lemma int_of_u64_small:
  assumes "uint x < 2 ^ 31"
  shows "int_of_u64 x = uint x"
proof -
  have "signed_take_bit 31 (uint x) = uint x"
    using assms by (intro signed_take_bit_int_eq_self) (simp_all add: order_trans[of _ 0])
  then show ?thesis using assms by (simp add: int_of_u64_def sint_uint unsigned_ucast_eq take_bit_int_eq_self)
qed

lemma int_of_u64_big:
  assumes "2 ^ 31 \<le> uint x" and "uint x < 2 ^ 32"
  shows "int_of_u64 x < 0"
proof -
  have "uint (ucast x :: u32) = uint x" using assms by (simp add: unsigned_ucast_eq take_bit_int_eq_self)
  moreover have "k div 2147483648 = 1" if "2147483648 \<le> k" "k < 4294967296" for k :: int
    using that div_pos_geq[of 2147483648 k] div_pos_pos_trivial[of "k - 2147483648" 2147483648] by simp
  ultimately show ?thesis using assms
    by (simp add: int_of_u64_def sint_uint signed_take_bit_eq_take_bit_minus take_bit_int_eq_self bit_iff_odd)
qed

lemma time_left:
  fixes a b :: u64 and T :: u32
  assumes "a \<le> b" and "b < a + ucast T" and "T < 0x80000000"
  shows "0 \<le> int_of_u64 (a + ucast T - b)"
proof -
  have T: "uint (ucast T :: u64) = uint T" "uint T < 2 ^ 31" "0 \<le> uint T"
    using assms(3) by (simp_all add: unsigned_ucast_eq take_bit_int_eq_self word_less_def uint_up_ucast is_up)
  have ab: "uint a \<le> uint b" "uint b < uint (a + ucast T)" using assms by (simp_all add: word_le_def word_less_def)
  have "uint (a + ucast T) = uint a + uint T \<or> uint (a + ucast T) = uint a + uint T - 2 ^ 64"
    using T by (simp add: uint_plus_if_size word_size)
  then have sum: "uint (a + ucast T) = uint a + uint T" using ab T by auto
  have "uint (a + ucast T - b) = uint (a + ucast T) - uint b" using ab by (simp add: uint_sub_if')
  then show ?thesis using sum ab T by (subst int_of_u64_small) auto
qed

text \<open>With a clock that does not run backwards and a timeout below \<open>2\<^sup>3\<^sup>1\<close> ms every wait ends.\<close>

definition steady :: "sock \<Rightarrow> bool" where
  "steady w \<longleftrightarrow> (\<forall>i j. i \<le> j \<longrightarrow> clock_ms w i \<le> clock_ms w j)"

lemma steady_waits_end:
  "steady w \<Longrightarrow> rcvtimeo w \<Longrightarrow> (T :: u32) < 0x80000000 \<Longrightarrow> waits_end (clock_ms w (ticks w) + ucast T) w"
  using time_left[of "clock_ms w (ticks w)" _ T] by (auto simp: waits_end_def steady_def)

end
