(* ===== verification/Tcp_Client_Properties.thy ===== *)
theory Tcp_Client_Properties
  imports Tcp_Client_Facts
begin

text \<open>
  The properties of the TCP client, each for every script of the socket: which replies it
  accepts, that it never goes on reading in the middle of a frame, that every call returns, what a
  silent peer leads to, and that its descriptors are neither lost nor closed twice.
\<close>

section \<open>A client to try the properties on\<close>

definition demo_cfg :: mb_tcp_client_config where
  "demo_cfg = \<lparr>cl_remote_host = Some ''10.0.0.1'', cl_port = 502, cl_bind_iface = None, cl_unit_id = 1,
     cl_connect_timeout_sec = 0, cl_response_timeout_ms = 500\<rparr>"

definition demo_client :: mb_tcp_client_ctx where
  "demo_client = \<lparr>cl_sock = 7, cl_tid = 4, cl_initialized = 1, cl_cfg = demo_cfg\<rparr>"

definition demo_sock :: "rx_event list \<Rightarrow> poll_event list \<Rightarrow> sock" where
  "demo_sock r p = \<lparr>rx = r, rcvtimeo = True, polls = p, tx = [], wire = [], clk = (\<lambda>k. (0, 0)), ticks = 0,
     open_fds = [7]\<rparr>"

lemmas demo_simps = demo_client_def demo_cfg_def demo_sock_def

lemma demo_clock [simp]: "clock_ms (demo_sock r p) k = 0" "clock_ms (demo_sock r p\<lparr>ticks := j\<rparr>) k = 0"
  "clock_ms (demo_sock r p\<lparr>ticks := j, wire := x\<rparr>) k = 0"
  by (simp_all add: clock_ms_def demo_sock_def)

section \<open>Transactions\<close>

text \<open>
  C19. A transaction reports an answer (code 0 or an exception code) only for a complete frame
  that the peer sent with protocol identifier 0 and exactly the transaction identifier of the
  request, which went out whole and framed; the frames read before it carry other identifiers,
  the code is the verdict of the PDU layer on the PDU of that frame, and nothing behind the frame
  was consumed. This holds whatever the peer sends and however the stream is cut.
\<close>

theorem tcp_transaction_sound:
  assumes "transact J c pdu n resp w = Some (rc, c', resp', w')" and "0 \<le> rc"
    and "5 \<le> n" and "n \<le> 253" and "n \<le> length pdu" and "length resp = 260" and "t = advance_tid (cl_tid c)"
  shows "\<exists>fs uid rpdu rest. others t fs \<and>
    rx_bytes (rx w) = frames fs @ tcp_adu t uid rpdu @ rx_bytes (rx w') \<and>
    wire w' = wire w @ tcp_adu t (cl_unit_id (cl_cfg c)) (take n pdu) \<and>
    resp' = tcp_adu t uid rpdu @ rest \<and> mb_pdu_check_response pdu (rpdu @ rest) (length rpdu) = Some rc \<and>
    c' = c\<lparr>cl_tid := t\<rparr> \<and> open_fds w' = open_fds w"
proof -
  let ?adu = "tcp_adu t (cl_unit_id (cl_cfg c)) (take n pdu)"
  have pdu: "5 \<le> length pdu" using assms(3,5) by simp
  have open_sock: "cl_initialized c \<noteq> 0" "0 \<le> cl_sock c" using transact_closed[OF assms(1)] assms(2) by auto
  from assms(1,2) obtain w1 where w1: "send_loop ?adu w = (0, w1)" "await_reply (c\<lparr>cl_tid := t\<rparr>) pdu t resp w1 = Some (rc, c', resp', w')"
    using transact_sends[OF open_sock, of n pdu J resp w] assms(3-5,7) by (auto simp: Let_def split: prod.splits if_splits)
  have conn: "rx w1 = rx w" "wire w1 = wire w @ ?adu" "open_fds w1 = open_fds w"
    using send_loop_wire[of ?adu w] w1(1) by (auto split: if_splits)
  obtain fs where fs: "others t fs" "wire w' = wire w1" "await_outcome (c\<lparr>cl_tid := t\<rparr>) pdu t w1 rc c' resp' w' fs"
    using await_reply_cases[OF w1(2) assms(6) _ pdu] open_sock(2) by auto
  then obtain uid rpdu where r: "c' = c\<lparr>cl_tid := t\<rparr>" "open_fds w' = open_fds w1"
    "rx_bytes (rx w1) = frames fs @ tcp_adu t uid rpdu @ rx_bytes (rx w')" "reply_checked pdu t uid rpdu rc resp'"
    using assms(2) unfolding await_outcome_def by (auto split: if_splits)
  then obtain rest where "resp' = tcp_adu t uid rpdu @ rest" "rpdu \<noteq> []"
    "rc = the (mb_pdu_check_response pdu (rpdu @ rest) (length rpdu))"
    using assms(2) by (auto simp: reply_checked_def split: if_splits)
  moreover from this have "mb_pdu_check_response pdu (rpdu @ rest) (length rpdu) = Some rc"
    using check_response_total[OF pdu, of "length rpdu" "rpdu @ rest"] by auto
  ultimately show ?thesis using r fs(1,2) conn by metis
qed

definition demo_reply :: "rx_event list" where
  "demo_reply = [Seg 0 [5, 0, 0], RxErr EINTR, Seg 0 [7, 1, 3, 4, 0x12, 0x34, 0, 0x2A]]"

lemma demo_reply_bytes: "rx_bytes demo_reply = frames [] @ tcp_adu 5 1 [3, 4, 0x12, 0x34, 0, 0x2A] @ []"
  by (simp add: demo_reply_def tcp_adu_def be16_def)

lemma demo_answered:
  "\<exists>rest w'. transact zero_stack demo_client [3, 0, 0, 0, 2] 5 (replicate 260 0) (demo_sock demo_reply [PollReady]) =
     Some (0, demo_client\<lparr>cl_tid := 5\<rparr>, tcp_adu 5 1 [3, 4, 0x12, 0x34, 0, 0x2A] @ rest, w')"
proof -
  have "mb_pdu_check_response [3, 0, 0, 0, 2] ([3, 4, 0x12, 0x34, 0, 0x2A] @ rest)
      (length [3 :: u8, 4, 0x12, 0x34, 0, 0x2A]) = Some 0" for rest
    by (simp add: mb_pdu_check_response_def get_u16_def Let_def)
  then show ?thesis
    using transact_answered[of demo_client 5 "[3, 0, 0, 0, 2]" "demo_sock demo_reply [PollReady]" "[]" "replicate 260 0"
        "[3, 4, 0x12, 0x34, 0, 0x2A]" 1 "[]" 0 zero_stack] demo_reply_bytes
    by (simp add: prompt_def) (simp add: demo_simps effective_response_timeout_ms_def advance_tid_def, blast)
qed

theorem tcp_transaction_sound_witness:
  "\<exists>rc c' resp' w' fs uid rpdu rest.
     transact zero_stack demo_client [3, 0, 0, 0, 2] 5 (replicate 260 0) (demo_sock demo_reply [PollReady]) =
       Some (rc, c', resp', w') \<and> rc = 0 \<and> others 5 fs \<and>
     rx_bytes demo_reply = frames fs @ tcp_adu 5 uid rpdu @ rx_bytes (rx w') \<and>
     wire w' = tcp_adu 5 1 [3, 0, 0, 0, 2] \<and> resp' = tcp_adu 5 uid rpdu @ rest"
proof -
  obtain rest w' where a: "transact zero_stack demo_client [3, 0, 0, 0, 2] 5 (replicate 260 0) (demo_sock demo_reply [PollReady]) =
     Some (0, demo_client\<lparr>cl_tid := 5\<rparr>, tcp_adu 5 1 [3, 4, 0x12, 0x34, 0, 0x2A] @ rest, w')" using demo_answered by blast
  have "5 = advance_tid (cl_tid demo_client)" by (simp add: advance_tid_def demo_simps)
  from tcp_transaction_sound[OF a _ _ _ _ _ this] show ?thesis using a by (simp add: demo_simps) metis
qed

definition raw_frames :: "(u8 list \<times> u8 list \<times> u8 \<times> u8 list) list \<Rightarrow> u8 list" where
  "raw_frames gs = concat (map (\<lambda>(t, p, uid, pdu). mbap_frame t p uid pdu) gs)"

definition raw_ok :: "(u8 list \<times> u8 list \<times> u8 \<times> u8 list) list \<Rightarrow> bool" where
  "raw_ok gs \<longleftrightarrow> list_all (\<lambda>(t, p, uid, pdu). length t = 2 \<and> length p = 2 \<and> length pdu \<le> 253) gs"

lemma frames_raw: "others t fs \<Longrightarrow> \<exists>gs. raw_ok gs \<and> frames fs = raw_frames gs"
  by (rule exI[of _ "map (\<lambda>(t, uid, pdu). (be16 t, [0, 0], uid, pdu)) fs"])
     (auto simp: others_def raw_ok_def list_all_iff frames_def raw_frames_def tcp_adu_mbap intro!: arg_cong[where f = concat])

lemma raw_snoc: "raw_ok gs \<Longrightarrow> length t = 2 \<Longrightarrow> length p = 2 \<Longrightarrow> length pdu \<le> 253 \<Longrightarrow>
    \<exists>hs. raw_ok hs \<and> raw_frames gs @ mbap_frame t p uid pdu @ r = raw_frames hs @ r"
  by (rule exI[of _ "gs @ [(t, p, uid, pdu)]"]) (simp add: raw_ok_def raw_frames_def)

lemma await_outcome_aligned:
  assumes "await_outcome c pdu t w rc c' resp' w' fs" and "others t fs"
  shows "(c' = c \<and> open_fds w' = open_fds w \<and> (\<exists>gs. raw_ok gs \<and> rx_bytes (rx w) = raw_frames gs @ rx_bytes (rx w'))) \<or>
    (c' = c\<lparr>cl_sock := - 1\<rparr> \<and> open_fds w' = remove1 (cl_sock c) (open_fds w) \<and> rc \<in> {- 3, - 4})"
proof -
  obtain gs where gs: "raw_ok gs" "frames fs = raw_frames gs" using frames_raw[OF assms(2)] by blast
  have l2: "length (be16 t) = 2" "length [0, 0 :: u8] = 2" by simp_all
  from assms(1) gs raw_snoc[OF gs(1)] raw_snoc[OF gs(1) l2] show ?thesis
    unfolding await_outcome_def tcp_adu_mbap by metis
qed

text \<open>
  C20. A transaction leaves the stream at a frame boundary or closes the connection: as long as
  the socket stays open, exactly a number of whole frames was read from it, so the next request
  starts in step; otherwise the descriptor is closed once, the context forgets it, and the caller
  gets a transport error or a timeout.
\<close>

theorem tcp_client_stream_aligned:
  assumes "transact J c pdu n resp w = Some (rc, c', resp', w')" and "cl_initialized c \<noteq> 0" and "0 \<le> cl_sock c"
    and "5 \<le> n" and "n \<le> 253" and "n \<le> length pdu" and "length resp = 260"
  shows "(cl_sock c' = cl_sock c \<and> open_fds w' = open_fds w \<and>
      (\<exists>gs. raw_ok gs \<and> rx_bytes (rx w) = raw_frames gs @ rx_bytes (rx w'))) \<or>
    (cl_sock c' = - 1 \<and> open_fds w' = remove1 (cl_sock c) (open_fds w) \<and> rc \<in> {- 3, - 4})"
proof -
  let ?t = "advance_tid (cl_tid c)"
  let ?adu = "tcp_adu ?t (cl_unit_id (cl_cfg c)) (take n pdu)"
  obtain rc1 w1 where send: "send_loop ?adu w = (rc1, w1)" by fastforce
  have conn: "rx w1 = rx w" "open_fds w1 = open_fds w" using send_loop_wire[of ?adu w] send by auto
  note tr = transact_sends[OF assms(2,3) _ assms(5,6), of J resp w, unfolded Let_def send assms(1), simplified]
  show ?thesis
  proof (cases "rc1 = 0")
    case False
    then show ?thesis using tr assms(4) conn by auto
  next
    case True
    then have a: "await_reply (c\<lparr>cl_tid := ?t\<rparr>) pdu ?t resp w1 = Some (rc, c', resp', w')" using tr assms(4) by simp
    obtain fs where "others ?t fs" "await_outcome (c\<lparr>cl_tid := ?t\<rparr>) pdu ?t w1 rc c' resp' w' fs"
      using await_reply_cases[OF a assms(7)] assms(3,4,6) by auto
    from await_outcome_aligned[OF this(2,1)] show ?thesis using conn by auto
  qed
qed

theorem tcp_client_stream_aligned_witness:
  "\<exists>rc c' resp' w' gs.
     transact zero_stack demo_client [3, 0, 0, 0, 2] 5 (replicate 260 0) (demo_sock demo_reply [PollReady]) =
       Some (rc, c', resp', w') \<and> cl_sock c' = 7 \<and> raw_ok gs \<and>
     rx_bytes demo_reply = raw_frames gs @ rx_bytes (rx w')"
proof -
  obtain rest w' where a: "transact zero_stack demo_client [3, 0, 0, 0, 2] 5 (replicate 260 0) (demo_sock demo_reply [PollReady]) =
     Some (0, demo_client\<lparr>cl_tid := 5\<rparr>, tcp_adu 5 1 [3, 4, 0x12, 0x34, 0, 0x2A] @ rest, w')" using demo_answered by blast
  from tcp_client_stream_aligned[OF a] show ?thesis using a by (simp add: demo_simps)
qed

section \<open>Termination and silence\<close>

lemma transact_outcome:
  assumes "steady w" and "rcvtimeo w" and "effective_response_timeout_ms c < 0x80000000"
    and "5 \<le> n" and "n \<le> 253" and "n \<le> length pdu" and "length resp = 260"
    and "cl_initialized c \<noteq> 0" and "0 \<le> cl_sock c"
  shows "\<exists>res. transact J c pdu n resp w = Some res"
proof -
  let ?t = "advance_tid (cl_tid c)"
  let ?adu = "tcp_adu ?t (cl_unit_id (cl_cfg c)) (take n pdu)"
  obtain rc1 w1 where send: "send_loop ?adu w = (rc1, w1)" by fastforce
  have "clk w1 = clk w" "rcvtimeo w1" "ticks w1 = ticks w" using send_loop_wire[of ?adu w] send assms(2) by auto
  then have "waits_end (clock_ms w1 (ticks w1) + ucast (effective_response_timeout_ms (c\<lparr>cl_tid := ?t\<rparr>))) w1"
    using steady_waits_end[of w1 "effective_response_timeout_ms c"] assms(1,3) by (simp add: steady_def clock_ms_def)
  from await_reply_total[OF this assms(7), of pdu ?t] show ?thesis
    using transact_sends[OF assms(8,9) _ assms(5,6), of J resp w] assms(4,6) send by (auto simp: Let_def)
qed

lemma transact_code:
  assumes "transact J c pdu n resp w = Some (rc, c', resp', w')" and "cl_initialized c \<noteq> 0" and "0 \<le> cl_sock c"
    and "5 \<le> n" and "n \<le> 253" and "n \<le> length pdu" and "length resp = 260"
  shows "- 6 \<le> rc \<and> rc \<le> 255 \<and> rc \<noteq> - 1"
proof -
  let ?t = "advance_tid (cl_tid c)"
  let ?c = "c\<lparr>cl_tid := ?t\<rparr>"
  obtain rc1 w1 where send: "send_loop (tcp_adu ?t (cl_unit_id (cl_cfg c)) (take n pdu)) w = (rc1, w1)" by fastforce
  show ?thesis
  proof (cases "rc1 = 0")
    case False
    then show ?thesis using transact_sends[OF assms(2,3) _ assms(5,6), of J resp w] assms(1,4) send by (simp add: Let_def)
  next
    case True
    then have a: "await_reply ?c pdu ?t resp w1 = Some (rc, c', resp', w')"
      using transact_sends[OF assms(2,3) _ assms(5,6), of J resp w] assms(1,4) send by (simp add: Let_def)
    obtain fs where "await_outcome ?c pdu ?t w1 rc c' resp' w' fs"
      using await_reply_cases[OF a assms(7)] assms(3,4,6) by auto
    moreover have "- 6 \<le> rc \<and> rc \<le> 255 \<and> rc \<noteq> - 1" if "reply_checked pdu ?t uid rpdu rc resp'" for uid rpdu
    proof -
      from that obtain rest where "rc = (if rpdu = [] \<or> mb_pdu_check_response pdu (rpdu @ rest) (length rpdu) = Some (- 1) then - 5
          else the (mb_pdu_check_response pdu (rpdu @ rest) (length rpdu)))" by (auto simp: reply_checked_def)
      then show ?thesis using check_response_total[of pdu "length rpdu" "rpdu @ rest"] assms(4,6) by (auto split: if_splits)
    qed
    ultimately show ?thesis by (auto simp: await_outcome_def split: if_splits)
  qed
qed

text \<open>
  C21. Every transaction returns, for every script of a socket with a receive timeout and every
  clock that does not run backwards, when the response timeout is below \<open>2\<^sup>3\<^sup>1\<close> ms: with a code of
  the documented range, within the buffers.
\<close>

theorem tcp_transaction_returns:
  assumes "steady w" and "rcvtimeo w" and "effective_response_timeout_ms c < 0x80000000"
    and "5 \<le> n" and "n \<le> 253" and "n \<le> length pdu" and "length resp = 260"
  shows "\<exists>rc c' resp' w'. transact J c pdu n resp w = Some (rc, c', resp', w') \<and> - 6 \<le> rc \<and> rc \<le> 255 \<and> rc \<noteq> - 1"
proof (cases "cl_initialized c \<noteq> 0 \<and> 0 \<le> cl_sock c")
  case True
  then obtain rc c' resp' w' where a: "transact J c pdu n resp w = Some (rc, c', resp', w')"
    using transact_outcome[OF assms, of J] by (metis prod_cases4)
  from transact_code[OF a _ _ assms(4-7)] True a show ?thesis by blast
next
  case False
  then have "cl_initialized c = 0 \<or> cl_sock c < 0" by auto
  from transact_not_connected[OF this assms(5,6), of J resp w] assms(4) show ?thesis by simp
qed

theorem tcp_transaction_returns_witness:
  "\<exists>rc c' resp' w'. transact zero_stack demo_client [6, 0, 0, 0, 2] 5 (replicate 260 0) (demo_sock [Seg 9 [9], Eof] []) =
     Some (rc, c', resp', w') \<and> - 6 \<le> rc \<and> rc \<le> 255 \<and> rc \<noteq> - 1"
  by (rule tcp_transaction_returns)
     (simp_all add: steady_def clock_ms_def effective_response_timeout_ms_def demo_simps)

lemma wait_readable_quiet:
  assumes "polls w = []" and "clock_ms w (ticks w) < d \<Longrightarrow> 0 \<le> int_of_u64 (d - clock_ms w (ticks w))"
  shows "wait_readable d w = Some (- 2, w\<lparr>ticks := Suc (ticks w)\<rparr>)"
  using assms wait_readable.simps[of d w]
  by (cases "clock_ms w (ticks w) < d") (auto simp: monotonic_ms_eq sys_poll_def not_less)

text \<open>
  C22. A silent peer costs a timeout and nothing else: when \<open>poll\<close> reports no data until the
  deadline, the transaction returns the timeout code, the connection stays open with the stream
  untouched, and the request has gone out once.
\<close>

theorem quiet_peer_times_out:
  assumes "cl_initialized c \<noteq> 0" and "0 \<le> cl_sock c" and "5 \<le> n" and "n \<le> 253" and "n \<le> length pdu"
    and "steady w" and "effective_response_timeout_ms c < 0x80000000" and "polls w = []" and "tx w = []"
    and "t = advance_tid (cl_tid c)"
  shows "transact J c pdu n resp w =
    Some (MB_TCP_CLIENT_ERR_TIMEOUT, c\<lparr>cl_tid := t\<rparr>, resp,
      w\<lparr>wire := wire w @ tcp_adu t (cl_unit_id (cl_cfg c)) (take n pdu), ticks := Suc (Suc (ticks w))\<rparr>)"
proof -
  let ?adu = "tcp_adu t (cl_unit_id (cl_cfg c)) (take n pdu)"
  let ?w1 = "w\<lparr>wire := wire w @ ?adu, ticks := Suc (ticks w)\<rparr>"
  let ?d = "clock_ms w (ticks w) + ucast (effective_response_timeout_ms c)"
  have clk: "clock_ms (w\<lparr>wire := x\<rparr>) k = clock_ms w k" "clock_ms ?w1 k = clock_ms w k" for x k by (simp_all add: clock_ms_def)
  have "wait_readable ?d ?w1 = Some (- 2, ?w1\<lparr>ticks := Suc (ticks ?w1)\<rparr>)"
    using wait_readable_quiet[of ?w1 ?d] assms(6-8) time_left[of "clock_ms w (ticks w)" "clock_ms w (Suc (ticks w))"]
    by (simp add: clk steady_def)
  then have "recv_matching t ?d resp 0 False ?w1 = Some (- 2, resp, 0, False, ?w1\<lparr>ticks := Suc (ticks ?w1)\<rparr>)"
    by (subst recv_matching.simps) (simp add: recv_response_def)
  then show ?thesis
    using transact_sends[OF assms(1,2) _ assms(4,5), of J resp w] assms(3,10) send_loop_ok[OF assms(9), of ?adu]
    by (simp add: Let_def await_reply_def clk recv_err_to_client_err_def)
qed

theorem quiet_peer_times_out_witness:
  "transact zero_stack demo_client [6, 0, 1, 0, 2] 5 (replicate 260 0) (demo_sock [] []) =
     Some (- 4, demo_client\<lparr>cl_tid := 5\<rparr>, replicate 260 0,
       demo_sock [] []\<lparr>wire := tcp_adu 5 1 [6, 0, 1, 0, 2], ticks := Suc (Suc 0)\<rparr>)"
  using quiet_peer_times_out[of demo_client 5 "[6, 0, 1, 0, 2]" "demo_sock [] []" 5 zero_stack "replicate 260 0"]
  by (simp add: steady_def) (simp add: demo_simps effective_response_timeout_ms_def advance_tid_def)

text \<open>
  C23. A response timeout of \<open>2\<^sup>3\<^sup>1\<close> ms or more is not a long timeout: the remaining time is
  converted to a negative \<open>int\<close>, \<open>poll\<close> waits without limit, and the transaction never returns
  when the peer stays silent, whatever the receive timeout of the socket.
\<close>

theorem huge_timeout_never_returns:
  assumes "cl_initialized c \<noteq> 0" and "0 \<le> cl_sock c" and "5 \<le> n" and "n \<le> 253" and "n \<le> length pdu"
    and "0x80000000 \<le> effective_response_timeout_ms c" and "polls w = []" and "tx w = []"
    and "clock_ms w (Suc (ticks w)) = clock_ms w (ticks w)"
    and "uint (clock_ms w (ticks w)) + uint (effective_response_timeout_ms c) < 2 ^ 64"
  shows "transact J c pdu n resp w = None"
proof -
  let ?t = "advance_tid (cl_tid c)" and ?T = "effective_response_timeout_ms c" and ?now = "clock_ms w (ticks w)"
  let ?adu = "tcp_adu ?t (cl_unit_id (cl_cfg c)) (take n pdu)"
  let ?w1 = "w\<lparr>wire := wire w @ ?adu, ticks := Suc (ticks w)\<rparr>"
  let ?d = "?now + ucast ?T"
  have clk: "clock_ms (w\<lparr>wire := x\<rparr>) k = clock_ms w k" "clock_ms ?w1 k = clock_ms w k" for x k by (simp_all add: clock_ms_def)
  have T: "uint (ucast ?T :: u64) = uint ?T" "2 ^ 31 \<le> uint ?T" "uint ?T < 2 ^ 32"
    using assms(6) uint_lt2p[of ?T] by (simp_all add: uint_up_ucast is_up word_le_def)
  then have "uint ?d = uint ?now + uint ?T" using assms(10) by (simp add: uint_plus_if_size word_size)
  then have "\<not> ?d \<le> ?now" using T by (simp add: word_le_def)
  moreover have "int_of_u64 (?d - ?now) < 0" using int_of_u64_big[of "ucast ?T"] T by simp
  ultimately have "wait_readable ?d ?w1 = None"
    using wait_readable.simps[of ?d ?w1] assms(7,9) by (simp add: monotonic_ms_eq clk sys_poll_def)
  then have "recv_matching ?t ?d resp 0 False ?w1 = None"
    by (subst recv_matching.simps) (simp add: recv_response_def)
  then show ?thesis
    using transact_sends[OF assms(1,2) _ assms(4,5), of J resp w] assms(3) send_loop_ok[OF assms(8), of ?adu]
    by (simp add: Let_def await_reply_def clk)
qed

theorem huge_timeout_never_returns_witness:
  "transact zero_stack (demo_client\<lparr>cl_cfg := demo_cfg\<lparr>cl_response_timeout_ms := 0xFFFFFFFF\<rparr>\<rparr>) [6, 0, 1, 0, 2] 5
     (replicate 260 0) (demo_sock [] []) = None"
  by (rule huge_timeout_never_returns)
     (simp_all add: effective_response_timeout_ms_def, simp_all add: demo_simps)

section \<open>The life of a context\<close>

text \<open>
  The calls an application can make on one context, and the steps of a run: a call, or the peer,
  the clock and the kernel moving on, which does not touch the descriptors of the process.
\<close>

datatype client_call =
    Connect dial "mb_tcp_client_config option" | Disconnect | SetUnitId u8
  | ReadHolding u16 u16 "u16 list option" | ReadInput u16 u16 "u16 list option"
  | ReadCoils u16 u16 "u8 list option" | ReadDiscrete u16 u16 "u8 list option"
  | WriteRegister u16 u16 | WriteCoil u16 u8
  | WriteRegisters u16 u16 "u16 list option" | WriteCoils u16 u16 "u8 list option"

fun client_do :: "stack \<Rightarrow> client_call \<Rightarrow> mb_tcp_client_ctx \<Rightarrow> sock \<Rightarrow> (mb_tcp_client_ctx option \<times> sock) option" where
  "client_do J (Connect D g) c w = map_option snd (mb_tcp_client_connect D (Some c) g w)"
| "client_do J Disconnect c w = Some (mb_tcp_client_disconnect (Some c) w)"
| "client_do J (SetUnitId u) c w = Some (snd (mb_tcp_client_set_unit_id (Some c) u), w)"
| "client_do J (ReadHolding a q out) c w =
     map_option (\<lambda>(_, c, _, w). (c, w)) (mb_tcp_client_read_holding_registers J (Some c) a q out w)"
| "client_do J (ReadInput a q out) c w =
     map_option (\<lambda>(_, c, _, w). (c, w)) (mb_tcp_client_read_input_registers J (Some c) a q out w)"
| "client_do J (ReadCoils a q out) c w =
     map_option (\<lambda>(_, c, _, w). (c, w)) (mb_tcp_client_read_coils J (Some c) a q out w)"
| "client_do J (ReadDiscrete a q out) c w =
     map_option (\<lambda>(_, c, _, w). (c, w)) (mb_tcp_client_read_discrete_inputs J (Some c) a q out w)"
| "client_do J (WriteRegister a v) c w = map_option snd (mb_tcp_client_write_single_register J (Some c) a v w)"
| "client_do J (WriteCoil a v) c w = map_option snd (mb_tcp_client_write_single_coil J (Some c) a v w)"
| "client_do J (WriteRegisters a q vs) c w = map_option snd (mb_tcp_client_write_multiple_registers J (Some c) a q vs w)"
| "client_do J (WriteCoils a q vs) c w = map_option snd (mb_tcp_client_write_multiple_coils J (Some c) a q vs w)"

inductive client_step :: "mb_tcp_client_ctx \<times> sock \<Rightarrow> mb_tcp_client_ctx \<times> sock \<Rightarrow> bool" where
  call: "client_do J k c w = Some (Some c', w') \<Longrightarrow> client_step (c, w) (c', w')"
| world: "open_fds w' = open_fds w \<Longrightarrow> client_step (c, w) (c, w')"

definition held :: "mb_tcp_client_ctx \<Rightarrow> c_int list" where
  "held c = (if cl_initialized c \<noteq> 0 \<and> 0 \<le> cl_sock c then [cl_sock c] else [])"

text \<open>What the calls do to the descriptors of the process.\<close>

lemma await_reply_held:
  assumes "await_reply c pdu t resp w = Some (rc, c', resp', w')" and "length resp = 260" and "0 \<le> cl_sock c"
  shows "open_fds w' = open_fds w \<and> c' = c \<or> open_fds w' = remove1 (cl_sock c) (open_fds w) \<and> c' = c\<lparr>cl_sock := - 1\<rparr>"
proof -
  from assms(1) obtain rc1 n1 s1 d w1 where
    r: "recv_matching t d resp 0 False (w\<lparr>ticks := Suc (ticks w)\<rparr>) = Some (rc1, resp', n1, s1, w1)"
      "c' = c \<and> w' = w1 \<or> c' = c\<lparr>cl_sock := - 1\<rparr> \<and> w' = sys_close (cl_sock c) w1"
    by (auto simp: await_reply_def bind_eq_Some_conv Let_def close_sock_eq[OF assms(3)] split: if_splits)
  then have "open_fds w1 = open_fds w" using recv_matching_cases[OF r(1) assms(2)] by (auto simp: same_conn_def)
  then show ?thesis using r(2) by auto
qed

lemma transact_held:
  assumes "transact J c pdu n resp w = Some (rc, c', resp', w')" and "open_fds w = held c @ base" and "length resp = 260"
  shows "open_fds w' = held c' @ base"
proof (cases "cl_initialized c = 0 \<or> cl_sock c < 0")
  case True
  then have "c' = c \<and> w' = w" using assms(1) by (auto simp: transact_def Let_def bind_eq_Some_conv split: if_splits)
  then show ?thesis using assms(2) by simp
next
  case False
  then have conn: "cl_initialized c \<noteq> 0" "0 \<le> cl_sock c" by auto
  let ?c = "c\<lparr>cl_tid := advance_tid (cl_tid c)\<rparr>"
  let ?adu = "tcp_adu (advance_tid (cl_tid c)) (cl_unit_id (cl_cfg c)) (take n pdu)"
  obtain rc1 w1 where send: "send_loop ?adu w = (rc1, w1)" by fastforce
  then have w1: "open_fds w1 = open_fds w" using send_loop_wire[of ?adu w] by auto
  have "open_fds w' = open_fds w \<and> c' = ?c \<or> open_fds w' = remove1 (cl_sock c) (open_fds w) \<and> c' = ?c\<lparr>cl_sock := - 1\<rparr>"
  proof (cases "rc1 = 0")
    case True
    then have "await_reply ?c pdu (advance_tid (cl_tid c)) resp w1 = Some (rc, c', resp', w')"
      using transact_sends_any[OF conn] transact_sizes[OF assms(1) conn(1)] assms(1) send by (simp add: Let_def)
    from await_reply_held[OF this assms(3)] w1 conn show ?thesis by simp
  next
    case ne: False
    then show ?thesis
      using transact_sends_any[OF conn] transact_sizes[OF assms(1) conn(1)] assms(1) send w1 by (auto simp: Let_def)
  qed
  then show ?thesis using assms(2) conn by (auto simp: held_def)
qed

lemma cli_read_registers_held:
  assumes "cli_read_registers J (Some c) fc a q out w = Some (rc, c', out', w')" and fds: "open_fds w = held c @ base"
  shows "\<exists>d. c' = Some d \<and> open_fds w' = held d @ base"
proof -
  have "(c' = Some c \<and> w' = w) \<or> (\<exists>n pdu resp' d. c' = Some d \<and>
      transact (stack_above 513 J) c pdu n (local8 (stack_above 253 J) 260) w = Some (rc, d, resp', w'))"
    using assms(1) by (auto simp: cli_read_registers_def bind_eq_Some_conv Let_def split: option.splits if_splits)
  then show ?thesis using transact_held[OF _ fds] fds by fastforce
qed

lemma cli_read_bits_held:
  assumes "cli_read_bits J (Some c) fc a q out w = Some (rc, c', out', w')" and fds: "open_fds w = held c @ base"
  shows "\<exists>d. c' = Some d \<and> open_fds w' = held d @ base"
proof -
  have "(c' = Some c \<and> w' = w) \<or> (\<exists>n pdu resp' d. c' = Some d \<and>
      transact (stack_above 513 J) c pdu n (local8 (stack_above 253 J) 260) w = Some (rc, d, resp', w'))"
    using assms(1) by (auto simp: cli_read_bits_def bind_eq_Some_conv Let_def split: option.splits if_splits)
  then show ?thesis using transact_held[OF _ fds] fds by fastforce
qed

lemma write_transact_held:
  assumes "write_transact J c build w = Some (rc, c', w')" and fds: "open_fds w = held c @ base"
  shows "\<exists>d. c' = Some d \<and> open_fds w' = held d @ base"
proof -
  have "\<exists>n pdu resp' d. c' = Some d \<and>
      transact (stack_above 513 J) c pdu n (local8 (stack_above 253 J) 260) w = Some (rc, d, resp', w')"
    using assms(1) by (auto simp: write_transact_def bind_eq_Some_conv)
  then show ?thesis using transact_held[OF _ fds] by fastforce
qed

lemma connect_cases:
  assumes "mb_tcp_client_connect D (Some c) g w = Some (rc, c', w')"
  shows "c' = Some c \<and> w' = w \<or>
    cl_initialized c = 0 \<and> (\<exists>d. c' = Some d \<and>
      (cl_initialized d = 0 \<and> open_fds w' = open_fds w \<or>
       cl_initialized d = 1 \<and> cl_sock d = d_socket D \<and> 0 \<le> d_socket D \<and> open_fds w' = d_socket D # open_fds w))"
proof (cases "c' = Some c \<and> w' = w")
  case False
  then obtain conf where g: "g = Some conf" "cl_initialized c = 0" "\<not> (cl_remote_host conf = None \<or> cl_remote_host conf = Some [] \<or> cl_port conf = 0)"
    using assms by (cases g) (simp_all add: mb_tcp_client_connect_def split: if_splits)
  note unf = assms[unfolded mb_tcp_client_connect_def, unfolded g(1) option.case prod.case if_not_P[OF g(3)]]
  show ?thesis
  proof (cases "d_mutex D = 0")
    case False
    then show ?thesis using unf g(2) by auto
  next
    case True
    let ?t = "if cl_connect_timeout_sec conf \<noteq> 0 then cl_connect_timeout_sec conf else 5"
    obtain rc1 so w1 where m: "mb_tcp_connect D (Some (- 1)) (cl_bind_iface conf) (cl_remote_host conf) (cl_port conf) ?t w = Some (rc1, so, w1)"
      using unf g(2) True by (cases "mb_tcp_connect D (Some (- 1)) (cl_bind_iface conf) (cl_remote_host conf) (cl_port conf) ?t w") auto
    show ?thesis
    proof (cases "rc1 = 0")
      case ne: False
      then show ?thesis using unf g(2) True m mb_tcp_connect_fds[OF m] by auto
    next
      case ok: True
      then have "cl_initialized (the c') = 1 \<and> cl_sock (the c') = the so \<and> c' \<noteq> None \<and> open_fds w' = open_fds w1"
        using unf g(2) True m by (auto simp: Let_def)
      then show ?thesis using mb_tcp_connect_fds[OF m] ok g(2) by auto
    qed
  qed
qed simp

lemma connect_held:
  assumes "mb_tcp_client_connect D (Some c) g w = Some (rc, c', w')" and "open_fds w = held c @ base"
  shows "\<exists>d. c' = Some d \<and> open_fds w' = held d @ base"
proof -
  from connect_cases[OF assms(1)] show ?thesis
  proof (elim disjE conjE exE)
    fix d assume "c' = Some d" and "cl_initialized c = 0" and "cl_initialized d = 0" and "open_fds w' = open_fds w"
    then show ?thesis using assms(2) by (intro exI[of _ d]) (simp add: held_def)
  next
    fix d assume "c' = Some d" and "cl_initialized c = 0" and "cl_initialized d = 1" and "cl_sock d = d_socket D"
      and "0 \<le> d_socket D" and "open_fds w' = d_socket D # open_fds w"
    then show ?thesis using assms(2) by (intro exI[of _ d]) (simp add: held_def)
  qed (use assms(2) in simp)
qed

lemma disconnect_held:
  assumes "open_fds w = held c @ base" and "mb_tcp_client_disconnect (Some c) w = (c', w')"
  shows "\<exists>d. c' = Some d \<and> open_fds w' = base \<and> held d = []"
proof (cases "cl_initialized c \<noteq> 0 \<and> 0 \<le> cl_sock c")
  case True
  then have "c' = Some (c\<lparr>cl_sock := - 1, cl_initialized := 0\<rparr>) \<and> w' = sys_close (cl_sock c) w"
    using assms(2) by (simp add: mb_tcp_client_disconnect_def close_sock_eq)
  then show ?thesis using True assms(1) by (simp add: held_def)
next
  case False
  then have "(c' = Some c \<or> c' = Some (c\<lparr>cl_initialized := 0\<rparr>)) \<and> w' = w \<and> held c = []"
    using assms(2) by (cases "cl_initialized c = 0")
      (simp_all add: mb_tcp_client_disconnect_def close_sock_def mb_tcp_close_def held_def)
  moreover have "held (c\<lparr>cl_initialized := 0\<rparr>) = []" by (simp add: held_def)
  ultimately show ?thesis using assms(1) by auto
qed

lemma client_do_held:
  assumes "client_do J k c w = Some (Some c', w')" and "open_fds w = held c @ base"
  shows "open_fds w' = held c' @ base"
proof (cases k)
  case (SetUnitId u)
  then show ?thesis using assms by (auto simp: mb_tcp_client_set_unit_id_def held_def split: if_splits)
next
  case Disconnect
  then show ?thesis using assms disconnect_held[OF assms(2)] by fastforce
next
  case (Connect D g)
  then show ?thesis using assms(1) connect_held[OF _ assms(2)] by fastforce
next
  case (ReadHolding a q out)
  then show ?thesis using assms(1) cli_read_registers_held[OF _ assms(2)]
    by (fastforce simp: mb_tcp_client_read_holding_registers_def)
next
  case (ReadInput a q out)
  then show ?thesis using assms(1) cli_read_registers_held[OF _ assms(2)]
    by (fastforce simp: mb_tcp_client_read_input_registers_def)
next
  case (ReadCoils a q out)
  then show ?thesis using assms(1) cli_read_bits_held[OF _ assms(2)] by (fastforce simp: mb_tcp_client_read_coils_def)
next
  case (ReadDiscrete a q out)
  then show ?thesis using assms(1) cli_read_bits_held[OF _ assms(2)]
    by (fastforce simp: mb_tcp_client_read_discrete_inputs_def)
next
  case (WriteRegister a v)
  then show ?thesis using assms(1) write_transact_held[OF _ assms(2)]
    by (fastforce simp: mb_tcp_client_write_single_register_def)
next
  case (WriteCoil a v)
  then show ?thesis using assms(1) write_transact_held[OF _ assms(2)]
    by (fastforce simp: mb_tcp_client_write_single_coil_def)
next
  case (WriteRegisters a q vs)
  then show ?thesis using assms write_transact_held[OF _ assms(2)]
    by (fastforce simp: mb_tcp_client_write_multiple_registers_def split: option.splits if_splits)
next
  case (WriteCoils a q vs)
  then show ?thesis using assms write_transact_held[OF _ assms(2)]
    by (fastforce simp: mb_tcp_client_write_multiple_coils_def split: option.splits if_splits)
qed

text \<open>
  C24. No descriptor is lost or closed twice: in every run of calls on a context that starts
  unconnected, whatever the calls, their results and the environment, the process holds its other
  descriptors and at most the one the connected context records; a disconnect at any point leaves
  exactly the descriptors of the start.
\<close>

theorem client_fds_invariant:
  assumes "client_step\<^sup>*\<^sup>* (c0, w0) (c, w)" and "cl_initialized c0 = 0"
  shows "open_fds w = held c @ open_fds w0 \<and> open_fds (snd (mb_tcp_client_disconnect (Some c) w)) = open_fds w0"
proof -
  have "open_fds (snd s) = held (fst s) @ open_fds w0" if "client_step\<^sup>*\<^sup>* (c0, w0) s" for s
    using that
  proof (induction rule: rtranclp_induct)
    case base
    then show ?case using assms(2) by (simp add: held_def)
  next
    case (step s s')
    from step.hyps(2) step.IH show ?case
      by (cases rule: client_step.cases) (auto dest: client_do_held)
  qed
  from this[OF assms(1)] have inv: "open_fds w = held c @ open_fds w0" by simp
  then show ?thesis using disconnect_held[OF inv] by (metis prod.exhaust_sel)
qed

definition demo_dial :: dial where
  "demo_dial = \<lparr>d_mutex = 0, d_socket = 9, d_sockopt = (\<lambda>_. True), d_pton = (\<lambda>_. True),
     d_connect = (\<lambda>_ _. ConnInProgress), d_select = 1, d_so_error = 0, d_response_tmo = True\<rparr>"

theorem client_fds_invariant_witness:
  "\<exists>c w. client_step\<^sup>*\<^sup>* (demo_client\<lparr>cl_initialized := 0\<rparr>, demo_sock [] []) (c, w) \<and> open_fds w = [9, 7] \<and>
     open_fds (snd (mb_tcp_client_disconnect (Some c) w)) = [7]"
proof -
  let ?idle = "demo_client\<lparr>cl_initialized := 0\<rparr>" and ?sock0 = "demo_sock [] []"
  let ?c = "\<lparr>cl_sock = 9, cl_tid = 0, cl_initialized = 1, cl_cfg = demo_cfg\<rparr>"
  obtain w where "client_do zero_stack (Connect demo_dial (Some demo_cfg)) ?idle ?sock0 = Some (Some ?c, w)"
    by (simp add: mb_tcp_client_connect_def mb_tcp_connect_def demo_cfg_def demo_dial_def Let_def)
  then have "client_step\<^sup>*\<^sup>* (?idle, ?sock0) (?c, w)" by (blast intro: client_step.call)
  moreover from client_fds_invariant[OF this] have "open_fds w = [9, 7]"
    "open_fds (snd (mb_tcp_client_disconnect (Some ?c) w)) = [7]" by (simp_all add: held_def demo_sock_def)
  ultimately show ?thesis by blast
qed

text \<open>
  A request that cannot be sent touches nothing: with no connection (never connected,
  disconnected, or closed after an error) every read and write returns "not connected", and an
  invalid quantity, a missing context or a missing buffer is an argument error; the socket, the
  context and the output are as before.
\<close>

theorem unsent_request_touches_nothing:
  assumes "cl_initialized c = 0 \<or> cl_sock c < 0" and "unat qty \<le> length vals"
  shows "cli_read_registers J (Some c) fc addr qty (Some out) w =
      Some (if 1 \<le> unat qty \<and> unat qty \<le> 125 then - 2 else - 1, Some c, Some out, w) \<and>
    cli_read_bits J (Some c) fc addr qty (Some bits) w =
      Some (if 1 \<le> unat qty \<and> unat qty \<le> 2000 then - 2 else - 1, Some c, Some bits, w) \<and>
    mb_tcp_client_write_multiple_registers J (Some c) addr qty (Some vals) w =
      Some (if 1 \<le> unat qty \<and> unat qty \<le> 123 then - 2 else - 1, Some c, w) \<and>
    mb_tcp_client_write_single_register J (Some c) addr v w = Some (- 2, Some c, w) \<and>
    mb_tcp_client_write_single_coil J (Some c) addr b w = Some (- 2, Some c, w) \<and>
    cli_read_registers J None fc addr qty (Some out) w = Some (- 1, None, Some out, w) \<and>
    cli_read_registers J (Some c) fc addr qty None w = Some (- 1, Some c, None, w) \<and>
    mb_tcp_client_write_multiple_registers J (Some c) addr qty None w = Some (- 1, Some c, w)"
proof -
  have nz: "qty = 0 \<longleftrightarrow> \<not> 1 \<le> unat qty" by (auto simp: unat_eq_zero[symmetric] simp del: unat_eq_zero)
  note quiet = transact_not_connected[OF assms(1)]
  have "cli_read_registers J (Some c) fc addr qty (Some out) w =
      Some (if 1 \<le> unat qty \<and> unat qty \<le> 125 then - 2 else - 1, Some c, Some out, w)"
    by (simp add: cli_read_registers_def mb_pdu_build_read_req quiet nz)
  moreover have "cli_read_bits J (Some c) fc addr qty (Some bits) w =
      Some (if 1 \<le> unat qty \<and> unat qty \<le> 2000 then - 2 else - 1, Some c, Some bits, w)"
    by (simp add: cli_read_bits_def mb_pdu_build_read_req quiet nz)
  moreover have "mb_tcp_client_write_multiple_registers J (Some c) addr qty (Some vals) w =
      Some (if 1 \<le> unat qty \<and> unat qty \<le> 123 then - 2 else - 1, Some c, w)"
    using assms(2) by (simp add: mb_tcp_client_write_multiple_registers_def write_transact_def
        mb_pdu_build_write_registers_req quiet nz)
  moreover have "mb_tcp_client_write_single_register J (Some c) addr v w = Some (- 2, Some c, w) \<and>
      mb_tcp_client_write_single_coil J (Some c) addr b w = Some (- 2, Some c, w)"
    by (simp add: mb_tcp_client_write_single_register_def mb_tcp_client_write_single_coil_def write_transact_def
        mb_pdu_build_write_single_def mb_pdu_build_read_req quiet)
  ultimately show ?thesis
    by (simp add: cli_read_registers_def[of J None] cli_read_registers_def[of J _ fc addr qty None]
        mb_tcp_client_write_multiple_registers_def[of J _ addr qty None])
qed

theorem unsent_request_touches_nothing_witness:
  "mb_tcp_client_write_single_register zero_stack (Some (demo_client\<lparr>cl_sock := - 1\<rparr>)) 1 2 (demo_sock [] []) =
     Some (- 2, Some (demo_client\<lparr>cl_sock := - 1\<rparr>), demo_sock [] [])"
  using unsent_request_touches_nothing[of "demo_client\<lparr>cl_sock := - 1\<rparr>" 0 "[]" zero_stack 3 1 "[]" "demo_sock [] []" "[]" 2 0]
  by simp

lemma response_tv_nonzero: "(x :: u32) \<noteq> 0 \<Longrightarrow> (x div 1000, (x mod 1000) * 1000) \<noteq> (0, 0)"
  using timeval_nonzero[of x] by auto

text \<open>
  Connecting returns for every script when the descriptor is below \<open>FD_SETSIZE\<close>: 0 with the
  new descriptor open, a receive timeout set and the context connected, or -1 with no descriptor
  left open and the context ready for another attempt.
\<close>

theorem client_connect_outcomes:
  assumes "cl_initialized c = 0" and "d_socket D < 1024"
  shows "\<exists>rc d w'. mb_tcp_client_connect D (Some c) (Some conf) w = Some (rc, Some d, w') \<and>
      (rc = 0 \<and> cl_initialized d = 1 \<and> cl_sock d = d_socket D \<and> cl_tid d = 0 \<and> cl_cfg d = conf \<and>
         open_fds w' = d_socket D # open_fds w \<and> rcvtimeo w' \<or>
       rc = - 1 \<and> cl_initialized d = 0 \<and> open_fds w' = open_fds w)"
proof (cases "cl_remote_host conf = None \<or> cl_remote_host conf = Some [] \<or> cl_port conf = 0 \<or> d_mutex D \<noteq> 0")
  case True
  then show ?thesis using assms(1) by (auto simp: mb_tcp_client_connect_def)
next
  case False
  let ?t = "if cl_connect_timeout_sec conf \<noteq> 0 then cl_connect_timeout_sec conf else 5"
  let ?ms = "if cl_response_timeout_ms conf \<noteq> 0 then cl_response_timeout_ms conf else 1000"
  obtain rc1 so w1 where m: "mb_tcp_connect D (Some (- 1)) (cl_bind_iface conf) (cl_remote_host conf) (cl_port conf) ?t w = Some (rc1, so, w1)"
    using mb_tcp_connect_defined[OF assms(2)] by (metis prod_cases3)
  have tv: "(?ms div 1000, (?ms mod 1000) * 1000) \<noteq> (0, 0)" by (rule response_tv_nonzero) simp
  from False have ok: "\<not> (cl_remote_host conf = None \<or> cl_remote_host conf = Some [] \<or> cl_port conf = 0)" "d_mutex D = 0" by auto
  have "mb_tcp_client_connect D (Some c) (Some conf) w =
    (if rc1 \<noteq> 0 then Some (- 1, Some \<lparr>cl_sock = - 1, cl_tid = 0, cl_initialized = 0, cl_cfg = conf\<rparr>, w1)
     else Some (0, Some \<lparr>cl_sock = the so, cl_tid = 0, cl_initialized = 1, cl_cfg = conf\<rparr>,
       if d_response_tmo D then w1\<lparr>rcvtimeo := True\<rparr> else w1))"
    unfolding mb_tcp_client_connect_def option.case prod.case if_not_P[OF ok(1)]
    using assms(1) ok(2) m tv by (simp add: Let_def del: prod.inject)
  then show ?thesis using mb_tcp_connect_fds[OF m] by auto
qed

theorem client_connect_outcomes_witness:
  "\<exists>rc d w'. mb_tcp_client_connect demo_dial (Some (demo_client\<lparr>cl_initialized := 0\<rparr>)) (Some demo_cfg) (demo_sock [] []) =
     Some (rc, Some d, w') \<and>
     (rc = 0 \<and> cl_initialized d = 1 \<and> cl_sock d = 9 \<and> cl_tid d = 0 \<and> cl_cfg d = demo_cfg \<and>
        open_fds w' = [9, 7] \<and> rcvtimeo w' \<or> rc = - 1 \<and> cl_initialized d = 0 \<and> open_fds w' = [7])"
  using client_connect_outcomes[of "demo_client\<lparr>cl_initialized := 0\<rparr>" demo_dial demo_cfg "demo_sock [] []"]
  by (simp add: demo_dial_def demo_sock_def)

text \<open>
  \<open>mb_tcp_connect\<close> has no check against \<open>FD_SETSIZE\<close>: for a descriptor from 1024 on, a
  connection that does not complete at once makes \<open>FD_SET\<close> write outside its set, so the call has
  no defined outcome, whatever the network does afterwards.
\<close>

theorem connect_fd_set_overflow:
  assumes "1024 \<le> d_socket D" and "d_sockopt D = (\<lambda>_. True)" and "d_pton D h" and "d_connect D h p = ConnInProgress"
    and "h \<noteq> []" and "p \<noteq> 0"
  shows "mb_tcp_connect D (Some fd) bi (Some h) p t w = None"
  using assms by (simp add: mb_tcp_connect_def)

theorem connect_fd_set_overflow_witness:
  "mb_tcp_connect (demo_dial\<lparr>d_socket := 1024\<rparr>) (Some 0) None (Some ''10.0.0.1'') 502 5 (demo_sock [] []) = None"
  by (rule connect_fd_set_overflow) (simp_all add: demo_dial_def)

end
