(* ===== verification/Tcp_Client_Example.thy ===== *)
theory Tcp_Client_Example
  imports Tcp_Client_Properties
begin

text \<open>
  The program of \<^verbatim>\<open>src/examples/tcp_client_example.c\<close>: connect, two writes, a poll of the registers of
  the device at every turn until the program is told to stop, disconnect. What a poll prints is a value:
  what it read, or the text and the number of the code the call returned. The temperature is the raw
  register, which the program shows divided by 10.
\<close>

section \<open>The program\<close>

definition client_err_str :: "c_int \<Rightarrow> string" where
  "client_err_str rc =
     (if rc = 0 then ''OK'' else if rc = - 1 then ''ERR_ARG'' else if rc = - 2 then ''ERR_NOT_CONNECTED''
      else if rc = - 3 then ''ERR_TRANSPORT'' else if rc = - 4 then ''ERR_TIMEOUT'' else if rc = - 5 then ''ERR_FRAME''
      else if rc = - 6 then ''ERR_TID'' else if rc > 0 then ''MODBUS_EXCEPTION'' else ''UNKNOWN'')"

type_synonym 'a shown = "(string \<times> c_int) + 'a"

record poll_report =
  po_block :: "(u16 \<times> u16 \<times> u16 \<times> u32) shown"
  po_setpoint :: "u16 shown"
  po_control :: "u16 shown"
  po_device_id :: "u16 shown"

text \<open>The first read of a poll: temperature, humidity, status and the two halves of the uptime.\<close>

definition poll_block ::
    "stack \<Rightarrow> mb_tcp_client_ctx option \<Rightarrow> sock \<Rightarrow> ((u16 \<times> u16 \<times> u16 \<times> u32) shown \<times> mb_tcp_client_ctx option \<times> sock) option" where
  "poll_block J cli w = do {
     (rc, cli, block, w) \<leftarrow> mb_tcp_client_read_holding_registers J cli 0 5 (Some (replicate 5 0)) w;
     if rc = 0 then do {
       block \<leftarrow> block;
       temperature \<leftarrow> rd block 0;
       humidity \<leftarrow> rd block 1;
       status \<leftarrow> rd block 2;
       high \<leftarrow> rd block 4;
       low \<leftarrow> rd block 3;
       Some (Inr (temperature, humidity, status, push_bit 16 (ucast high) OR ucast low), cli, w) }
     else Some (Inl (client_err_str rc, rc), cli, w) }"

definition poll_register ::
    "stack \<Rightarrow> u16 \<Rightarrow> mb_tcp_client_ctx option \<Rightarrow> sock \<Rightarrow> (u16 shown \<times> mb_tcp_client_ctx option \<times> sock) option" where
  "poll_register J addr cli w = do {
     (rc, cli, out, w) \<leftarrow> mb_tcp_client_read_holding_registers J cli addr 1 (Some [0]) w;
     if rc = 0 then do { out \<leftarrow> out; v \<leftarrow> rd out 0; Some (Inr v, cli, w) }
     else Some (Inl (client_err_str rc, rc), cli, w) }"

definition poll_once ::
    "stack \<Rightarrow> mb_tcp_client_ctx option \<Rightarrow> sock \<Rightarrow> (poll_report \<times> mb_tcp_client_ctx option \<times> sock) option" where
  "poll_once J cli w = do {
     (block, cli, w) \<leftarrow> poll_block J cli w;
     (setpoint, cli, w) \<leftarrow> poll_register J 0x0A cli w;
     (control, cli, w) \<leftarrow> poll_register J 0x0B cli w;
     (device_id, cli, w) \<leftarrow> poll_register J 0x14 cli w;
     Some (\<lparr>po_block = block, po_setpoint = setpoint, po_control = control, po_device_id = device_id\<rparr>, cli, w) }"

definition initial_write ::
    "stack \<Rightarrow> mb_tcp_client_ctx option \<Rightarrow> sock \<Rightarrow> (c_int \<times> c_int \<times> mb_tcp_client_ctx option \<times> sock) option" where
  "initial_write J cli w = do {
     (rc1, cli, w) \<leftarrow> mb_tcp_client_write_single_register J cli 0x0A 300 w;
     (rc2, cli, w) \<leftarrow> mb_tcp_client_write_multiple_registers J cli 0x0A 2 (Some [300, 1]) w;
     Some (rc1, rc2, cli, w) }"

text \<open>The loop, on the values of \<open>g_running\<close> its tests see.\<close>

fun poll_loop ::
    "stack \<Rightarrow> c_int list \<Rightarrow> mb_tcp_client_ctx option \<Rightarrow> sock \<Rightarrow> (poll_report list \<times> mb_tcp_client_ctx option \<times> sock) option" where
  "poll_loop J [] cli w = Some ([], cli, w)"
| "poll_loop J (running # r) cli w =
     (if running = 0 then Some ([], cli, w)
      else do {
        (report, cli, w) \<leftarrow> poll_once J cli w;
        (reports, cli, w) \<leftarrow> poll_loop J r cli w;
        Some (report # reports, cli, w) })"

definition example_client_config :: mb_tcp_client_config where
  "example_client_config = \<lparr>cl_remote_host = Some ''192.168.1.90'', cl_port = 502, cl_bind_iface = None, cl_unit_id = 1,
     cl_connect_timeout_sec = 5, cl_response_timeout_ms = 2000\<rparr>"

text \<open>The context after \<open>mb_tcp_client_ctx_t client = {0}\<close>.\<close>

definition zero_client :: mb_tcp_client_ctx where
  "zero_client = \<lparr>cl_sock = 0, cl_tid = 0, cl_initialized = 0,
     cl_cfg = \<lparr>cl_remote_host = None, cl_port = 0, cl_bind_iface = None, cl_unit_id = 0, cl_connect_timeout_sec = 0,
       cl_response_timeout_ms = 0\<rparr>\<rparr>"

definition tcp_client_main ::
    "stack \<Rightarrow> dial \<Rightarrow> c_int list \<Rightarrow> sock \<Rightarrow> (c_int \<times> poll_report list \<times> sock) option" where
  "tcp_client_main J D running w = do {
     (rc, client, w) \<leftarrow> mb_tcp_client_connect D (Some zero_client) (Some example_client_config) w;
     if rc \<noteq> 0 then Some (1, [], w)
     else do {
       (_, _, client, w) \<leftarrow> initial_write J client w;
       (reports, client, w) \<leftarrow> poll_loop J running client w;
       let w = snd (mb_tcp_client_disconnect client w);
       Some (0, reports, w) } }"

section \<open>What a call keeps\<close>

text \<open>Between two calls: a steady clock, a receive timeout, and the descriptors accounted for.\<close>

definition between_calls :: "c_int list \<Rightarrow> mb_tcp_client_ctx \<Rightarrow> sock \<Rightarrow> bool" where
  "between_calls base c w \<longleftrightarrow> steady w \<and> rcvtimeo w \<and> effective_response_timeout_ms c < 0x80000000 \<and>
     open_fds w = held c @ base"

lemma await_reply_keeps:
  assumes "await_reply c pdu t resp w = Some (rc, c', resp', w')" and "length resp = 260" and "0 \<le> cl_sock c"
  shows "clk w' = clk w \<and> rcvtimeo w' = rcvtimeo w \<and> cl_cfg c' = cl_cfg c \<and> length resp' = 260"
proof -
  from assms(1) obtain rc1 n1 s1 d w1 where
    r: "recv_matching t d resp 0 False (w\<lparr>ticks := Suc (ticks w)\<rparr>) = Some (rc1, resp', n1, s1, w1)"
      "c' = c \<and> w' = w1 \<or> c' = c\<lparr>cl_sock := - 1\<rparr> \<and> w' = sys_close (cl_sock c) w1"
    by (auto simp: await_reply_def bind_eq_Some_conv Let_def close_sock_eq[OF assms(3)] split: if_splits)
  then have "clk w1 = clk w" "rcvtimeo w1 = rcvtimeo w" "length resp' = 260"
    using recv_matching_cases[OF r(1) assms(2)] by (auto simp: same_conn_def)
  then show ?thesis using r(2) by auto
qed

lemma transact_keeps:
  assumes "transact J c pdu n resp w = Some (rc, c', resp', w')" and "length resp = 260"
    and "1 \<le> n" and "n \<le> 253" and "n \<le> length pdu"
  shows "clk w' = clk w \<and> rcvtimeo w' = rcvtimeo w \<and> cl_cfg c' = cl_cfg c \<and> length resp' = 260"
proof (cases "cl_initialized c = 0 \<or> cl_sock c < 0")
  case True
  then show ?thesis using transact_not_connected[OF True assms(4,5,3), of J resp w] assms(1,2) by simp
next
  case False
  then have conn: "cl_initialized c \<noteq> 0" "0 \<le> cl_sock c" by auto
  let ?c = "c\<lparr>cl_tid := advance_tid (cl_tid c)\<rparr>"
  obtain rc1 w1 where send: "send_loop (tcp_adu (advance_tid (cl_tid c)) (cl_unit_id (cl_cfg c)) (take n pdu)) w = (rc1, w1)"
    by fastforce
  then have w1: "clk w1 = clk w" "rcvtimeo w1 = rcvtimeo w"
    using send_loop_wire[of "tcp_adu (advance_tid (cl_tid c)) (cl_unit_id (cl_cfg c)) (take n pdu)" w] by auto
  show ?thesis
  proof (cases "rc1 = 0")
    case True
    then have "await_reply ?c pdu (advance_tid (cl_tid c)) resp w1 = Some (rc, c', resp', w')"
      using transact_sends[OF conn assms(3-5)] assms(1) send by (simp add: Let_def)
    from await_reply_keeps[OF this assms(2)] w1 conn show ?thesis by simp
  next
    case ne: False
    then show ?thesis using transact_sends[OF conn assms(3-5)] assms(1,2) send w1 by (auto simp: Let_def)
  qed
qed

lemma effective_response_timeout_cfg: "cl_cfg c = cl_cfg c' \<Longrightarrow> effective_response_timeout_ms c = effective_response_timeout_ms c'"
  by (simp add: effective_response_timeout_ms_def)

lemma transact_between:
  assumes "between_calls base c w" and "5 \<le> n" and "n \<le> 253" and "n \<le> length pdu" and "length resp = 260"
  shows "\<exists>rc c' resp' w'. transact J c pdu n resp w = Some (rc, c', resp', w') \<and> between_calls base c' w' \<and> length resp' = 260"
proof -
  have "\<exists>res. transact J c pdu n resp w = Some res"
  proof (cases "cl_initialized c \<noteq> 0 \<and> 0 \<le> cl_sock c")
    case True
    then show ?thesis using transact_outcome[of w c n pdu resp J] assms by (simp add: between_calls_def)
  next
    case False
    then have "cl_initialized c = 0 \<or> cl_sock c < 0" by auto
    from transact_not_connected[OF this assms(3,4), of J resp w] assms(2) show ?thesis by simp
  qed
  then obtain rc c' resp' w' where t: "transact J c pdu n resp w = Some (rc, c', resp', w')" by (metis prod_cases4)
  from transact_keeps[OF t assms(5) _ assms(3,4)] assms(2)
  have k: "clk w' = clk w" "rcvtimeo w' = rcvtimeo w" "cl_cfg c' = cl_cfg c" "length resp' = 260" by auto
  moreover have "open_fds w' = held c' @ base" using transact_held[OF t _ assms(5)] assms(1) by (simp add: between_calls_def)
  moreover have "steady w'" using assms(1) k(1) by (simp add: between_calls_def steady_def clock_ms_def)
  ultimately show ?thesis using t assms(1) effective_response_timeout_cfg[OF k(3)] by (auto simp: between_calls_def)
qed

lemma read_registers_between:
  assumes "between_calls base c w" and "1 \<le> unat qty" and "unat qty \<le> 125" and "unat qty \<le> length dst"
  shows "\<exists>rc c' dst' w'. cli_read_registers J (Some c) fc addr qty (Some dst) w = Some (rc, Some c', Some dst', w') \<and>
    between_calls base c' w' \<and> length dst' = length dst"
proof -
  have q: "\<not> (qty = 0 \<or> unat qty > 125)" using assms(2,3) by auto
  let ?pdu = "blit (local8 J 253) 0 (read_req fc addr qty)" and ?resp = "local8 (stack_above 253 J) 260"
  have build: "mb_pdu_build_read (local8 J 253) fc addr qty = Some (5, ?pdu)" by (simp add: buf_simps)
  obtain rc c' resp' w' where t: "transact (stack_above 513 J) c ?pdu 5 ?resp w = Some (rc, c', resp', w')"
    "between_calls base c' w'" "length resp' = 260"
    using transact_between[OF assms(1), of 5 ?pdu ?resp "stack_above 513 J"] by auto
  have "mb_pdu_get_registers (ptr resp' 7) qty dst =
      Some (blit dst 0 (of_be16s (drop 2 (take (2 + 2 * unat qty) (ptr resp' 7)))))"
    using get_registers_take[of "2 + 2 * unat qty" qty "ptr resp' 7" dst] assms(3,4) t(3) by (simp add: ptr_def)
  moreover have "length (of_be16s (drop 2 (take (2 + 2 * unat qty) (ptr resp' 7)))) = unat qty"
    using assms(3) t(3) by (simp add: length_of_be16s ptr_def)
  ultimately show ?thesis using q build t assms(4)
    by (cases "rc = 0") (simp_all add: cli_read_registers_def Let_def)
qed

lemma write_between:
  assumes "between_calls base c w" and "build (local8 J 253) = Some (n, pdu)" and "5 \<le> n" and "n \<le> 253" and "n \<le> length pdu"
  shows "\<exists>rc c' w'. write_transact J c build w = Some (rc, Some c', w') \<and> between_calls base c' w'"
  using transact_between[OF assms(1,3-5), of "local8 (stack_above 253 J) 260" "stack_above 513 J"] assms(2)
  by (auto simp: write_transact_def)

section \<open>The program returns\<close>

lemma poll_block_between:
  assumes "between_calls base c w"
  shows "\<exists>r c' w'. poll_block J (Some c) w = Some (r, Some c', w') \<and> between_calls base c' w'"
proof -
  obtain rc c' dst w' where r: "cli_read_registers J (Some c) 3 0 5 (Some (replicate 5 0)) w = Some (rc, Some c', Some dst, w')"
    "between_calls base c' w'" "length dst = 5"
    using read_registers_between[OF assms, of 5 "replicate 5 0" J 3 0] by auto
  then show ?thesis
    by (cases "rc = 0") (simp_all add: poll_block_def mb_tcp_client_read_holding_registers_def rd_def Let_def)
qed

lemma poll_register_between:
  assumes "between_calls base c w"
  shows "\<exists>r c' w'. poll_register J addr (Some c) w = Some (r, Some c', w') \<and> between_calls base c' w'"
proof -
  obtain rc c' dst w' where r: "cli_read_registers J (Some c) 3 addr 1 (Some [0]) w = Some (rc, Some c', Some dst, w')"
    "between_calls base c' w'" "length dst = 1"
    using read_registers_between[OF assms, of 1 "[0]" J 3 addr] by auto
  then show ?thesis
    by (cases "rc = 0") (simp_all add: poll_register_def mb_tcp_client_read_holding_registers_def rd_def Let_def)
qed

lemma poll_once_between:
  assumes "between_calls base c w"
  shows "\<exists>r c' w'. poll_once J (Some c) w = Some (r, Some c', w') \<and> between_calls base c' w'"
proof -
  obtain b c1 w1 where 1: "poll_block J (Some c) w = Some (b, Some c1, w1)" "between_calls base c1 w1"
    using poll_block_between[OF assms] by blast
  obtain x c2 w2 where 2: "poll_register J 0x0A (Some c1) w1 = Some (x, Some c2, w2)" "between_calls base c2 w2"
    using poll_register_between[OF 1(2)] by blast
  obtain y c3 w3 where 3: "poll_register J 0x0B (Some c2) w2 = Some (y, Some c3, w3)" "between_calls base c3 w3"
    using poll_register_between[OF 2(2)] by blast
  obtain z c4 w4 where 4: "poll_register J 0x14 (Some c3) w3 = Some (z, Some c4, w4)" "between_calls base c4 w4"
    using poll_register_between[OF 3(2)] by blast
  show ?thesis using 1(1) 2(1) 3(1) 4 by (simp add: poll_once_def)
qed

lemma poll_loop_between:
  "between_calls base c w \<Longrightarrow> \<exists>rs c' w'. poll_loop J running (Some c) w = Some (rs, Some c', w') \<and> between_calls base c' w' \<and>
     length rs = length (takeWhile (\<lambda>g. g \<noteq> 0) running)"
proof (induction running arbitrary: c w)
  case (Cons g gs)
  show ?case
  proof (cases "g = 0")
    case False
    obtain r c1 w1 where p: "poll_once J (Some c) w = Some (r, Some c1, w1)" "between_calls base c1 w1"
      using poll_once_between[OF Cons.prems] by blast
    from Cons.IH[OF p(2)] p(1) False show ?thesis by auto
  qed (use Cons.prems in simp)
qed simp

lemma initial_write_between:
  assumes "between_calls base c w"
  shows "\<exists>rc1 rc2 c' w'. initial_write J (Some c) w = Some (rc1, rc2, Some c', w') \<and> between_calls base c' w'"
proof -
  obtain rc1 c1 w1 where 1: "mb_tcp_client_write_single_register J (Some c) 0x0A 300 w = Some (rc1, Some c1, w1)" "between_calls base c1 w1"
    using write_between[OF assms, of "\<lambda>pdu. mb_pdu_build_write_single pdu 6 10 300" J 5 "blit (local8 J 253) 0 (read_req 6 10 300)"]
    unfolding mb_tcp_client_write_single_register_def option.case by (simp add: buf_simps mb_pdu_build_write_single_def) blast
  have "mb_pdu_build_write_registers (local8 J 253) 10 2 [300, 1] =
      Some (10, blit (local8 J 253) 0 (write_regs_req 10 [300, 1]))"
    using mb_pdu_build_write_registers_req[of 2 "[300, 1]" "local8 J 253" 10] by simp
  then obtain rc2 c2 w2 where 2: "mb_tcp_client_write_multiple_registers J (Some c1) 0x0A 2 (Some [300, 1]) w1 = Some (rc2, Some c2, w2)"
    "between_calls base c2 w2"
    using write_between[OF 1(2), of "\<lambda>pdu. mb_pdu_build_write_registers pdu 10 2 [300, 1]" J 10]
    by (auto simp: mb_tcp_client_write_multiple_registers_def)
  show ?thesis using 1(1) 2 by (simp add: initial_write_def)
qed

lemma mb_tcp_connect_clk: "mb_tcp_connect D so bi h p t w = Some (rc, so', w') \<Longrightarrow> clk w' = clk w"
  by (auto simp: mb_tcp_connect_def Let_def split: if_splits connect_event.splits)

lemma client_connect_clk: "mb_tcp_client_connect D (Some c) (Some g) w = Some (rc, c', w') \<Longrightarrow> clk w' = clk w"
  by (auto simp: mb_tcp_client_connect_def Let_def bind_eq_Some_conv split: if_splits dest!: mb_tcp_connect_clk)

lemma example_connects:
  assumes "d_socket D < FD_SETSIZE"
  shows "\<exists>rc c w1. mb_tcp_client_connect D (Some zero_client) (Some example_client_config) w = Some (rc, Some c, w1) \<and>
    (rc = 0 \<and> cl_initialized c = 1 \<and> cl_sock c = d_socket D \<and> cl_cfg c = example_client_config \<and>
         open_fds w1 = d_socket D # open_fds w \<and> rcvtimeo w1 \<and> clk w1 = clk w \<and> 0 \<le> d_socket D \<or>
       rc = - 1 \<and> open_fds w1 = open_fds w)"
proof -
  have "cl_initialized zero_client = 0" by (simp add: zero_client_def)
  from client_connect_outcomes[OF this assms, of example_client_config w] obtain rc c w1 where
    conn: "mb_tcp_client_connect D (Some zero_client) (Some example_client_config) w = Some (rc, Some c, w1)"
      "rc = 0 \<and> cl_initialized c = 1 \<and> cl_sock c = d_socket D \<and> cl_tid c = 0 \<and> cl_cfg c = example_client_config \<and>
         open_fds w1 = d_socket D # open_fds w \<and> rcvtimeo w1 \<or> rc = - 1 \<and> cl_initialized c = 0 \<and> open_fds w1 = open_fds w"
    by blast
  have "cl_initialized c = 1 \<Longrightarrow> 0 \<le> d_socket D" using connect_cases[OF conn(1)] by (auto simp: zero_client_def)
  with conn client_connect_clk[OF conn(1)] show ?thesis by auto
qed

text \<open>
  C25. The example client ends: for every script of the connection with a clock that does not run backwards it
  connects or gives up, makes its writes, polls once for every turn the program is not stopped, whatever the
  calls return, and exits with the descriptors it started with.
\<close>

theorem tcp_client_main_runs:
  assumes "steady w" and "d_socket D < FD_SETSIZE"
  shows "\<exists>rc reports w'. tcp_client_main J D running w = Some (rc, reports, w') \<and> open_fds w' = open_fds w \<and>
    (rc = 1 \<and> reports = [] \<or> rc = 0 \<and> length reports = length (takeWhile (\<lambda>g. g \<noteq> 0) running))"
proof -
  have init: "cl_initialized zero_client = 0" by (simp add: zero_client_def)
  obtain rc c w1 where conn: "mb_tcp_client_connect D (Some zero_client) (Some example_client_config) w = Some (rc, Some c, w1)"
    "rc = 0 \<and> cl_initialized c = 1 \<and> cl_sock c = d_socket D \<and> cl_cfg c = example_client_config \<and>
         open_fds w1 = d_socket D # open_fds w \<and> rcvtimeo w1 \<and> clk w1 = clk w \<and> 0 \<le> d_socket D \<or>
       rc = - 1 \<and> open_fds w1 = open_fds w"
    using example_connects[OF assms(2)] by blast
  show ?thesis
  proof (cases "rc = 0")
    case False
    then show ?thesis using conn by (auto simp: tcp_client_main_def)
  next
    case True
    have "between_calls (open_fds w) c w1"
      using conn(2) True assms(1)
      by (auto simp: between_calls_def held_def steady_def clock_ms_def effective_response_timeout_ms_def example_client_config_def)
    then obtain rc1 rc2 c2 w2 where init: "initial_write J (Some c) w1 = Some (rc1, rc2, Some c2, w2)" "between_calls (open_fds w) c2 w2"
      using initial_write_between by blast
    obtain rs c3 w3 where poll: "poll_loop J running (Some c2) w2 = Some (rs, Some c3, w3)" "between_calls (open_fds w) c3 w3"
      "length rs = length (takeWhile (\<lambda>g. g \<noteq> 0) running)"
      using poll_loop_between[OF init(2), of J running] by blast
    have "open_fds (snd (mb_tcp_client_disconnect (Some c3) w3)) = open_fds w"
      using disconnect_held[of w3 c3 "open_fds w"] poll(2) by (metis between_calls_def prod.collapse)
    then show ?thesis using conn(1) True init(1) poll(1,3) by (simp add: tcp_client_main_def Let_def)
  qed
qed

theorem tcp_client_main_runs_witness:
  "\<exists>reports w'. tcp_client_main zero_stack demo_dial [1, 1, 0] (demo_sock [] []) = Some (0, reports, w') \<and>
     open_fds w' = [7] \<and> length reports = 2"
proof -
  have "steady (demo_sock [] [])" by (simp add: steady_def)
  moreover have "d_socket demo_dial < 1024" by (simp add: demo_dial_def)
  ultimately obtain rc reports w' where main: "tcp_client_main zero_stack demo_dial [1, 1, 0] (demo_sock [] []) = Some (rc, reports, w')"
    "open_fds w' = open_fds (demo_sock [] [])" "rc = 1 \<and> reports = [] \<or> rc = 0 \<and> length reports = length (takeWhile (\<lambda>g. g \<noteq> 0) [1, 1, 0 :: c_int])"
    using tcp_client_main_runs[of "demo_sock [] []" demo_dial zero_stack "[1, 1, 0]"] by blast
  have "\<exists>c w1. mb_tcp_client_connect demo_dial (Some zero_client) (Some example_client_config) (demo_sock [] []) = Some (0, c, w1)"
    by (simp add: mb_tcp_client_connect_def mb_tcp_connect_def example_client_config_def demo_dial_def zero_client_def Let_def)
  then have "rc = 0" using main(1) by (auto simp: tcp_client_main_def bind_eq_Some_conv)
  with main show ?thesis by (simp add: demo_sock_def)
qed

end
