(* ===== verification/Tcp_Link.thy ===== *)
theory Tcp_Link
  imports Tcp_Server Tcp_Client_Facts
begin

text \<open>
  The TCP client and the TCP server at the two ends of a connection: the server's call on the
  bytes the client wrote, and the client's call on the bytes the server wrote, behind any late
  replies that are still in the stream and cut into segments in any way.
\<close>

section \<open>A transaction against the server\<close>

text \<open>
  \<open>linked\<close>: the client is connected and its socket takes a request at once, the server's socket
  delivers the request frame next and takes a reply at once, and the client's socket delivers
  complete late replies, then whatever the server wrote, all before the deadline.
\<close>

definition linked ::
    "mb_tcp_client_ctx \<Rightarrow> 'u mb_tcp_server_config \<Rightarrow> sock \<Rightarrow> sock \<Rightarrow> u8 list \<Rightarrow> u8 list \<Rightarrow>
     (u16 \<times> u8 \<times> u8 list) list \<Rightarrow> bool" where
  "linked c scfg w sw req sent fs \<longleftrightarrow>
     cl_initialized c \<noteq> 0 \<and> 0 \<le> cl_sock c \<and> tx w = [] \<and> tx sw = [] \<and>
     accepts_unit scfg (cl_unit_id (cl_cfg c)) \<and>
     rx_bytes (rx sw) = tcp_adu (advance_tid (cl_tid c)) (cl_unit_id (cl_cfg c)) req \<and>
     others (advance_tid (cl_tid c)) fs \<and> rx_bytes (rx w) = frames fs @ sent \<and>
     prompt (Suc (length fs)) (clock_ms w (ticks w) + ucast (effective_response_timeout_ms c)) (w\<lparr>ticks := Suc (ticks w)\<rparr>)"

lemma reply_code_ge: "- 1 \<noteq> reply_code r"
proof -
  have "0 \<le> reply_code r" by (cases r) simp_all
  then show ?thesis by simp
qed

lemma linked_transact:
  assumes dev: "device_ok I (srv_handlers scfg) d" "I u" "known_fc fc"
    and pdu: "take n pdu = read_req fc addr qty @ body" "n = 5 + length body" "n \<le> length pdu" "n \<le> 253"
    and serve: "serve d u (take n pdu) = (r, u')" "1 \<le> length (reply_pdu r)" "length (reply_pdu r) \<le> 253"
    and srv: "server_on_process J' scfg u sw = Some (rc, u2, sw')"
    and link: "linked c scfg w sw (take n pdu) (drop (length (wire sw)) (wire sw')) fs"
    and "length resp = 260"
  shows "rc = 0 \<and> u2 = u' \<and> (\<exists>rest w'.
    transact J c pdu n resp w = Some (reply_code r, c\<lparr>cl_tid := advance_tid (cl_tid c)\<rparr>,
      tcp_adu (advance_tid (cl_tid c)) (cl_unit_id (cl_cfg c)) (reply_pdu r) @ rest, w') \<and>
    wire w' = wire w @ tcp_adu (advance_tid (cl_tid c)) (cl_unit_id (cl_cfg c)) (take n pdu) \<and> rx_bytes (rx w') = [])"
proof -
  let ?t = "advance_tid (cl_tid c)" and ?u = "cl_unit_id (cl_cfg c)"
  have len: "1 \<le> length (take n pdu)" "length (take n pdu) \<le> 253" "1 \<le> n" using pdu by simp_all
  have rxs: "rx_bytes (rx sw) = tcp_adu ?t ?u (take n pdu) @ []" "accepts_unit scfg ?u" "tx sw = []"
    using link by (auto simp: linked_def)
  from tcp_server_answers_step[OF dev(1,2) rxs(1) len(1,2) rxs(2,3), of J'] srv serve(1)
  have s: "rc = 0" "u2 = u'" "wire sw' = wire sw @ tcp_adu ?t ?u (reply_pdu r)" by auto
  have fits: "reply_fits fc addr qty r"
    using serve_reply_fits[OF dev, of addr qty body] serve(1) pdu(1) by simp
  have "pdu = read_req fc addr qty @ body @ drop n pdu"
    using pdu(1) by (metis append_assoc append_take_drop_id)
  then have check: "mb_pdu_check_response pdu (reply_pdu r @ rest) (length (reply_pdu r)) = Some (reply_code r)" for rest
    using check_response_reply[OF dev(3) fits] by metis
  have rxc: "rx_bytes (rx w) = frames fs @ tcp_adu ?t ?u (reply_pdu r) @ []" using link s(3) by (simp add: linked_def)
  have up: "cl_initialized c \<noteq> 0" "0 \<le> cl_sock c" "tx w = []" "others ?t fs"
    "prompt (Suc (length fs)) (clock_ms w (ticks w) + ucast (effective_response_timeout_ms c)) (w\<lparr>ticks := Suc (ticks w)\<rparr>)"
    using link by (auto simp: linked_def)
  from transact_answered[OF up(1,2) len(3) pdu(4,3) up(3,5,4) assms(13) serve(2,3) rxc check reply_code_ge[symmetric], of J]
  show ?thesis using s(1,2) by blast
qed

section \<open>The public calls\<close>

text \<open>What the device makes of the requests the client builds.\<close>

lemma serve_read_regs_req:
  assumes "dev_read_regs d = Some g" and "g fc addr (unat qty) u = (0, vs, u')"
    and "fc \<in> {3, 4}" "valid_qty 125 (unat qty)" "in_range addr (unat qty)"
  shows "serve d u (read_req fc addr qty) = (RegsReply fc vs, u')"
proof -
  obtain a1 a0 q1 q0 where "be16 addr = [a1, a0]" "of_be16 a1 a0 = addr" "be16 qty = [q1, q0]" "of_be16 q1 q0 = qty"
    by (simp add: be16_def)
  then show ?thesis using assms by (auto simp: read_req_def serve_read_regs_def)
qed

lemma serve_write_regs_req:
  assumes "dev_write_regs d = Some g" and "g addr vs u = (0, u')"
    and "length vs = unat qty" "valid_qty 123 (unat qty)" "in_range addr (unat qty)"
  shows "serve d u (write_regs_req addr vs) = (EchoReply 16 addr qty, u')"
proof -
  obtain a1 a0 q1 q0 where "be16 addr = [a1, a0]" "of_be16 a1 a0 = addr" "be16 qty = [q1, q0]" "of_be16 q1 q0 = qty"
    by (simp add: be16_def)
  moreover have "unat (of_nat (2 * unat qty) :: u8) = 2 * unat qty" using assms(4) by (intro unat_of_nat_u8) (simp add: valid_qty_def)
  ultimately show ?thesis using assms
    by (simp add: write_regs_req_def read_req_def serve_write_regs_def write_result_def del: of_nat_mult)
qed

lemma linked_read_registers:
  assumes dev: "device_ok I (srv_handlers scfg) d" "I u"
    and g: "dev_read_regs d = Some g" "g fc addr (unat qty) u = (0, vs, u')"
    and args: "fc \<in> {3, 4}" "valid_qty 125 (unat qty)" "in_range addr (unat qty)" "unat qty \<le> length out"
    and srv: "server_on_process J' scfg u sw = Some (rc, u2, sw')"
    and link: "linked c scfg w sw (read_req fc addr qty) (drop (length (wire sw)) (wire sw')) fs"
  shows "rc = 0 \<and> u2 = u' \<and> (\<exists>w'. cli_read_registers J (Some c) fc addr qty (Some out) w =
      Some (0, Some (c\<lparr>cl_tid := advance_tid (cl_tid c)\<rparr>), Some (blit out 0 vs), w') \<and> rx_bytes (rx w') = [])"
proof -
  have fc: "known_fc fc" using args(1) by (auto simp: known_fc_def)
  have len: "length vs = unat qty" using device_ok_read_regs_length[OF dev g args(2)] .
  let ?pdu = "blit (local8 J 253) 0 (read_req fc addr qty)"
  have tk: "take 5 ?pdu = read_req fc addr qty @ []" by simp
  have serve: "serve d u (take 5 ?pdu) = (RegsReply fc vs, u')"
    using serve_read_regs_req[OF g args(1-3)] by (simp add: tk)
  have rlen: "1 \<le> length (reply_pdu (RegsReply fc vs))" "length (reply_pdu (RegsReply fc vs)) \<le> 253"
    using len args(2) by (simp_all add: valid_qty_def)
  have lk: "linked c scfg w sw (take 5 ?pdu) (drop (length (wire sw)) (wire sw')) fs" using link by simp
  have n: "5 = 5 + length ([] :: u8 list)" "5 \<le> length ?pdu" "(5 :: nat) \<le> 253" by simp_all
  obtain rest w' where t: "rc = 0" "u2 = u'" "transact (stack_above 513 J) c ?pdu 5 (local8 (stack_above 253 J) 260) w =
      Some (0, c\<lparr>cl_tid := advance_tid (cl_tid c)\<rparr>,
        tcp_adu (advance_tid (cl_tid c)) (cl_unit_id (cl_cfg c)) (reply_pdu (RegsReply fc vs)) @ rest, w')" "rx_bytes (rx w') = []"
    using linked_transact[OF dev fc tk n serve rlen srv lk, of "local8 (stack_above 253 J) 260" "stack_above 513 J"] by auto
  have "mb_pdu_get_registers (reply_pdu (RegsReply fc vs) @ rest) qty out = Some (blit out 0 vs)"
    using get_registers_reply[OF len args(4), of fc _ rest] by simp
  moreover have "qty \<noteq> 0" "unat qty \<le> 125" using args(2) by (auto simp: valid_qty_def)
  ultimately show ?thesis using t
    by (simp add: cli_read_registers_def mb_pdu_build_read_req Let_def del: reply_pdu.simps)
qed

lemma linked_write_registers:
  assumes dev: "device_ok I (srv_handlers scfg) d" "I u"
    and g: "dev_write_regs d = Some g" "g addr vs u = (0, u')"
    and args: "length vs = unat qty" "valid_qty 123 (unat qty)" "in_range addr (unat qty)"
    and srv: "server_on_process J' scfg u sw = Some (rc, u2, sw')"
    and link: "linked c scfg w sw (write_regs_req addr vs) (drop (length (wire sw)) (wire sw')) fs"
  shows "rc = 0 \<and> u2 = u' \<and> (\<exists>w'. mb_tcp_client_write_multiple_registers J (Some c) addr qty (Some vs) w =
      Some (0, Some (c\<lparr>cl_tid := advance_tid (cl_tid c)\<rparr>), w') \<and> rx_bytes (rx w') = [])"
proof -
  have fc: "known_fc 16" by (simp add: known_fc_def)
  have q: "qty \<noteq> 0" "unat qty \<le> 123" using args(2) by (auto simp: valid_qty_def)
  let ?n = "6 + 2 * unat qty" and ?body = "of_nat (2 * unat qty) # be16s vs"
  let ?pdu = "blit (local8 J 253) 0 (write_regs_req addr vs)"
  have req: "write_regs_req addr vs = read_req 16 addr qty @ ?body" using args(1) by (simp add: write_regs_req_def)
  have tk: "take ?n ?pdu = read_req 16 addr qty @ ?body" using args(1) by (simp only: req[symmetric]) simp
  have serve: "serve d u (take ?n ?pdu) = (EchoReply 16 addr qty, u')"
    using serve_write_regs_req[OF g args(1-3)] by (subst tk) (simp only: req)
  have n: "?n = 5 + length ?body" "?n \<le> length ?pdu" "?n \<le> 253" using args(1) q(2) by simp_all
  have rlen: "1 \<le> length (reply_pdu (EchoReply 16 addr qty))" "length (reply_pdu (EchoReply 16 addr qty)) \<le> 253" by simp_all
  have lk: "linked c scfg w sw (take ?n ?pdu) (drop (length (wire sw)) (wire sw')) fs"
    using link tk[folded req] by simp
  obtain rest w' where t: "rc = 0" "u2 = u'" "transact (stack_above 513 J) c ?pdu ?n (local8 (stack_above 253 J) 260) w =
      Some (0, c\<lparr>cl_tid := advance_tid (cl_tid c)\<rparr>,
        tcp_adu (advance_tid (cl_tid c)) (cl_unit_id (cl_cfg c)) (reply_pdu (EchoReply 16 addr qty)) @ rest, w')"
      "rx_bytes (rx w') = []"
    using linked_transact[OF dev fc tk n serve rlen srv lk, of "local8 (stack_above 253 J) 260" "stack_above 513 J"] by auto
  have "mb_pdu_build_write_registers (local8 J 253) addr qty vs = Some (?n, ?pdu)"
    using mb_pdu_build_write_registers_req[of qty vs "local8 J 253" addr] args(1) q(2) by simp
  then show ?thesis using t q
    by (simp add: mb_tcp_client_write_multiple_registers_def write_transact_def)
qed

end
