(* ===== verification/Tcp_Masters.thy ===== *)
theory Tcp_Masters
  imports Tcp_Service_Properties Tcp_Client_Properties Tcp_Link
begin

text \<open>
  Several masters on one TCP server: the clients of \<^verbatim>\<open>src/src/modbus_tcp_client.c\<close> at the far ends of the
  connections that a round of the listener of \<^verbatim>\<open>src/src/modbus_tcp.c\<close> serves.
\<close>

section \<open>One master of a round\<close>

text \<open>What the server put on a connection in a round, and the request that waits there.\<close>

abbreviation answer_on :: "net \<Rightarrow> (c_int \<Rightarrow> sock) \<Rightarrow> c_int \<Rightarrow> u8 list" where
  "answer_on N socks fd \<equiv> drop (length (wire (n_socks N fd))) (wire (socks fd))"

definition master_asks :: "'u mb_tcp_server_config \<Rightarrow> mb_tcp_client_ctx \<Rightarrow> u8 list \<Rightarrow> sock \<Rightarrow> bool" where
  "master_asks scfg c req s \<longleftrightarrow>
     rx_bytes (rx s) = tcp_adu (advance_tid (cl_tid c)) (cl_unit_id (cl_cfg c)) req \<and> accepts_unit scfg (cl_unit_id (cl_cfg c)) \<and> tx s = []"

lemma master_asks_waits:
  "master_asks scfg c req s \<Longrightarrow> 1 \<le> length req \<Longrightarrow> length req \<le> 253 \<Longrightarrow> q fd = (advance_tid (cl_tid c), cl_unit_id (cl_cfg c), req) \<Longrightarrow>
   request_waits scfg q fd s"
  by (simp add: master_asks_def request_waits_def)

text \<open>The call of the server that the listener makes for this master.\<close>

lemma master_answered:
  assumes "device_ok I (srv_handlers scfg) d" and "I u" and "master_asks scfg c req s" and "1 \<le> length req" and "length req \<le> 253"
    and "serve d u req = (reply, u')"
  shows "\<exists>s'. server_on_process J scfg u s = Some (0, u', s') \<and>
    drop (length (wire s)) (wire s') = tcp_adu (advance_tid (cl_tid c)) (cl_unit_id (cl_cfg c)) (reply_pdu reply)"
proof -
  have "rx_bytes (rx s) = tcp_adu (advance_tid (cl_tid c)) (cl_unit_id (cl_cfg c)) req @ []" "accepts_unit scfg (cl_unit_id (cl_cfg c))"
    "tx s = []" using assms(3) by (simp_all add: master_asks_def)
  from tcp_server_answers_step[OF assms(1,2) this(1) assms(4,5) this(2,3), of J] assms(6) show ?thesis by auto
qed

section \<open>Two masters\<close>

text \<open>The round of the listener that serves both, as the two calls of the server.\<close>

lemma two_masters_served:
  assumes dev: "device_ok I (srv_handlers scfg) d" "I u"
    and reqs: "1 \<le> length ra" "length ra \<le> 253" "1 \<le> length rb" "length rb \<le> 253"
    and srv: "serve d u ra = (pa, u1)" "serve d u1 rb = (pb, u2)"
    and round: "serving_ok K base L ctx N" "r_select ev = SelReady R" "\<not> R (listen_sock ctx)"
      "filter R (clients (client_fds ctx)) = [a, b]"
    and asks: "master_asks scfg ca ra (n_socks N a)" "master_asks scfg cb rb (n_socks N b)"
  obtains socks sa sb where
    "server_round K (Some (tcp_server_service J scfg)) ev ctx N u = Some (ctx, N\<lparr>n_socks := socks\<rparr>, u2)"
    and "server_on_process J scfg u (n_socks N a) = Some (0, u1, sa)" "drop (length (wire (n_socks N a))) (wire sa) = answer_on N socks a"
    and "server_on_process J scfg u1 (n_socks N b) = Some (0, u2, sb)" "drop (length (wire (n_socks N b))) (wire sb) = answer_on N socks b"
    and "I u1"
proof -
  let ?adu = "\<lambda>c p. tcp_adu (advance_tid (cl_tid c)) (cl_unit_id (cl_cfg c)) (reply_pdu p)"
  let ?q = "\<lambda>fd. if fd = a then (advance_tid (cl_tid ca), cl_unit_id (cl_cfg ca), ra)
    else (advance_tid (cl_tid cb), cl_unit_id (cl_cfg cb), rb)"
  have ab: "a \<noteq> b"
    using round(1,4) distinct_filter[of "clients (client_fds ctx)" R] by (auto simp: serving_ok_def slots_ok_def)
  have "ra \<noteq> []" using reqs(1) by auto
  then have u1: "I u1" using serve_keeps[OF dev, of ra] srv(1) by simp
  have "fd = a \<or> fd = b" if "fd \<in> set (clients (client_fds ctx))" "R fd" for fd
  proof -
    have "fd \<in> set (filter R (clients (client_fds ctx)))" using that by simp
    then show ?thesis unfolding round(4) by simp
  qed
  then have waits: "\<forall>fd \<in> set (clients (client_fds ctx)). R fd \<longrightarrow> request_waits scfg ?q fd (n_socks N fd)"
    using master_asks_waits[OF asks(1) reqs(1,2), of ?q a] master_asks_waits[OF asks(2) reqs(3,4), of ?q b] ab by auto
  have turns: "serve_turns d ?q [a, b] u = ((\<lambda>_. [])(b := ?adu cb pb, a := ?adu ca pa), u2)"
    using srv ab by (simp del: reply_pdu.simps)
  from server_round_turns[OF dev round(1-3) waits, of J] obtain socks where
    run: "server_round K (Some (tcp_server_service J scfg)) ev ctx N u = Some (ctx, N\<lparr>n_socks := socks\<rparr>, u2)" and
    out: "\<forall>fd. wire (socks fd) = wire (n_socks N fd) @ fst (serve_turns d ?q [a, b] u) fd"
    unfolding round(4) turns snd_conv by blast
  have sent: "answer_on N socks a = ?adu ca pa" "answer_on N socks b = ?adu cb pb"
    using out[unfolded turns fst_conv] ab by (simp_all del: reply_pdu.simps)
  from master_answered[OF dev asks(1) reqs(1,2) srv(1), of J] master_answered[OF dev(1) u1 asks(2) reqs(3,4) srv(2), of J] run u1
  show thesis unfolding sent[symmetric] by (blast intro: that)
qed


text \<open>The master on 5 writes two registers at 10, the one on 4 reads them.\<close>

definition masters_round :: tcp_round where
  "masters_round = (demo_round 4)\<lparr>r_select := SelReady (\<lambda>fd. fd = 4 \<or> fd = 5)\<rparr>"

lemma adu_segment: "0 # tl (tcp_adu 5 uid pdu) = tcp_adu 5 uid pdu"
  by (simp add: tcp_adu_def be16_def)

definition masters_net :: net where
  "masters_net = demo_serving_net\<lparr>n_socks := \<lambda>fd. socket [Seg 0 (tl (tcp_adu 5 1
     (if fd = 5 then write_regs_req 10 [0x11, 0x22] else read_req 3 10 2)))]\<rparr>"

definition writer_sock :: sock where
  "writer_sock = demo_sock [Seg 0 (tl (tcp_adu 5 1 (read_req 16 10 2)))] [PollReady]"

definition reader_sock :: sock where
  "reader_sock = demo_sock [Seg 0 (tl (tcp_adu 5 1 [3, 4, 0, 0x11, 0, 0x22]))] [PollReady]"

definition written_state :: "server_app_ctx option" where
  "written_state = Some \<lparr>reg_bank = replicate 10 0 @ [0x11, 0x22] @ replicate 20 0\<rparr>"

definition masters_state :: "server_app_ctx option" where
  "masters_state = Some \<lparr>reg_bank = [253, 1] @ replicate 8 0 @ [0x11, 0x22] @ replicate 20 0\<rparr>"

lemma masters_device: "bank_write 10 [0x11, 0x22] bank_state = (0, written_state)"
  "bank_read 3 10 (unat (2 :: u16)) written_state = (0, [0x11, 0x22], masters_state)"
  by code_simp+

lemma masters_wire:
  "case server_round (server_hooks False) (Some (tcp_server_service zero_stack bank_server)) masters_round demo_serving masters_net bank_state of
     Some (ctx, N, u) \<Rightarrow> wire (n_socks N 5) = tcp_adu 5 1 (read_req 16 10 2) \<and> wire (n_socks N 4) = tcp_adu 5 1 [3, 4, 0, 0x11, 0, 0x22]
   | None \<Rightarrow> False"
  by code_simp

lemma masters_linked:
  "linked demo_client bank_server writer_sock (n_socks masters_net 5) (write_regs_req 10 [0x11, 0x22]) (tcp_adu 5 1 (read_req 16 10 2)) []"
  "linked demo_client bank_server reader_sock (n_socks masters_net 4) (read_req 3 10 2) (tcp_adu 5 1 [3, 4, 0, 0x11, 0, 0x22]) []"
proof -
  have "effective_response_timeout_ms demo_client = 500" "advance_tid (cl_tid demo_client) = 5"
    by (simp_all add: effective_response_timeout_ms_def demo_client_def demo_cfg_def advance_tid_def)
  moreover have "prompt (Suc 0) 500 (demo_sock [Seg 0 bs] [PollReady]\<lparr>ticks := k\<rparr>)" for bs k
    by (simp add: prompt_def clock_ms_def demo_sock_def)
  moreover have "clock_ms (demo_sock rs ps) k = 0" for rs ps k by (simp add: clock_ms_def demo_sock_def)
  moreover have "rx_bytes (rx writer_sock) = frames [] @ tcp_adu 5 1 (read_req 16 10 2)"
    "rx_bytes (rx reader_sock) = frames [] @ tcp_adu 5 1 [3, 4, 0, 0x11, 0, 0x22]"
    by (simp_all add: writer_sock_def reader_sock_def demo_sock_def adu_segment)
  moreover have "rx_bytes (rx (n_socks masters_net 5)) = tcp_adu 5 1 (write_regs_req 10 [0x11, 0x22])"
    "rx_bytes (rx (n_socks masters_net 4)) = tcp_adu 5 1 (read_req 3 10 2)"
    by (simp_all add: masters_net_def socket_def adu_segment)
  ultimately show "linked demo_client bank_server writer_sock (n_socks masters_net 5) (write_regs_req 10 [0x11, 0x22])
      (tcp_adu 5 1 (read_req 16 10 2)) []"
    "linked demo_client bank_server reader_sock (n_socks masters_net 4) (read_req 3 10 2) (tcp_adu 5 1 [3, 4, 0, 0x11, 0, 0x22]) []"
    unfolding linked_def
    by (simp_all add: writer_sock_def reader_sock_def)
       (simp_all add: demo_client_def demo_cfg_def demo_sock_def masters_net_def socket_def accepts_unit_def bank_server_def)
qed


end
