(* ===== verification/Serial_Io.thy ===== *)
theory Serial_Io
  imports Sock_Io
begin

text \<open>
  A serial line as the RTU code sees it, and the helpers on it that the RTU server and the RTU
  client share: waiting, \<open>write_all\<close> and \<open>send_frame\<close> (\<^verbatim>\<open>src/src/modbus_rtu_server.c\<close>,
  \<^verbatim>\<open>src/src/modbus_rtu_client.c\<close>).

  As for sockets the line is a script: what each \<open>read\<close> delivers (bytes, nothing, or an error), how
  much each \<open>write\<close> accepts, how each \<open>tcdrain\<close> and \<open>select\<close> ends, how much of what arrives each
  \<open>tcflush\<close> throws away, and what the clock shows at its \<open>k\<close>-th reading. When nothing is left, a non-blocking \<open>read\<close> fails with \<open>EAGAIN\<close> and a blocking one
  (with \<open>VMIN\<close> and \<open>VTIME\<close> zero) delivers 0 bytes, \<open>write\<close> accepts everything, \<open>tcdrain\<close>
  succeeds, \<open>select\<close> times out and \<open>tcflush\<close> finds nothing to discard. What the code does to the bus is a trace: bytes put on the
  line, calls of the transmit-enable hook, and pauses.
\<close>

section \<open>The line\<close>

datatype bus_event = Out "u8 list" | TxEnable c_int | Pause u64

record serial =
  line :: "rx_event list"
  nonblock :: bool
  line_tx :: "tx_event list"
  drains :: "c_int list"
  selects :: "poll_event list"
  line_clk :: "nat \<Rightarrow> (u64 \<times> u64) option"
  line_ticks :: nat
  bus :: "bus_event list"
  discards :: "nat list"

definition sys_read :: "nat \<Rightarrow> serial \<Rightarrow> (errno + u8 list) \<times> serial" where
  "sys_read n s =
     (case line s of
        [] \<Rightarrow> (if nonblock s then Inl EAGAIN else Inr [], s)
      | Seg b bs # r \<Rightarrow>
          (case drop n (b # bs) of
             [] \<Rightarrow> (Inr (b # bs), s\<lparr>line := r\<rparr>)
           | b' # bs' \<Rightarrow> (Inr (take n (b # bs)), s\<lparr>line := Seg b' bs' # r\<rparr>))
      | Eof # r \<Rightarrow> (Inr [], s\<lparr>line := r\<rparr>)
      | RxErr e # r \<Rightarrow> (Inl e, s\<lparr>line := r\<rparr>))"

definition sys_write :: "u8 list \<Rightarrow> serial \<Rightarrow> (errno + nat) \<times> serial" where
  "sys_write bytes s =
     (case line_tx s of
        [] \<Rightarrow> (Inr (length bytes), s\<lparr>bus := bus s @ [Out bytes]\<rparr>)
      | Accept k # r \<Rightarrow> (Inr (min k (length bytes)), s\<lparr>line_tx := r, bus := bus s @ [Out (take k bytes)]\<rparr>)
      | TxErr e # r \<Rightarrow> (Inl e, s\<lparr>line_tx := r\<rparr>))"

definition sys_drain :: "serial \<Rightarrow> c_int \<times> serial" where
  "sys_drain s = (case drains s of [] \<Rightarrow> (0, s) | d # r \<Rightarrow> (d, s\<lparr>drains := r\<rparr>))"

definition sys_select :: "serial \<Rightarrow> (errno + c_int) \<times> serial" where
  "sys_select s =
     (case selects s of
        [] \<Rightarrow> (Inr 0, s)
      | PollQuiet # r \<Rightarrow> (Inr 0, s\<lparr>selects := r\<rparr>)
      | PollReady # r \<Rightarrow> (Inr 1, s\<lparr>selects := r\<rparr>)
      | PollErr e # r \<Rightarrow> (Inl e, s\<lparr>selects := r\<rparr>))"

definition sys_time :: "serial \<Rightarrow> (u64 \<times> u64) option \<times> serial" where
  "sys_time s = (line_clk s (line_ticks s), s\<lparr>line_ticks := Suc (line_ticks s)\<rparr>)"

definition sys_flush :: "serial \<Rightarrow> serial" where
  "sys_flush s = (case discards s of [] \<Rightarrow> s | n # r \<Rightarrow> s\<lparr>line := drop n (line s), discards := r\<rparr>)"

section \<open>Waiting and sending\<close>

text \<open>\<open>sleep_us\<close>; an interrupted \<open>nanosleep\<close> goes on with what remains, so the pause is the whole one.\<close>

definition sleep_us :: "u64 \<Rightarrow> serial \<Rightarrow> serial" where
  "sleep_us us s = s\<lparr>bus := bus s @ [Pause us]\<rparr>"

text \<open>
  The loop of \<open>write_all\<close>. The server's copy waits with \<open>select\<close> when the line is not ready and
  tries again (\<open>wait = True\<close>), the client's copy gives up.
\<close>

function write_loop :: "bool \<Rightarrow> c_int \<Rightarrow> u8 list \<Rightarrow> serial \<Rightarrow> (c_int \<times> serial) option" where
  "write_loop wait fd bytes s =
     (if bytes = [] then Some (0, s)
      else case sys_write bytes s of
             (Inl e, s') \<Rightarrow>
               if e = EINTR then write_loop wait fd bytes s'
               else if wait \<and> e \<in> {EAGAIN, EWOULDBLOCK} then
                 (if fd_ok fd then write_loop wait fd bytes s' else None)
               else Some (- 1, s')
           | (Inr n, s') \<Rightarrow> if n = 0 then Some (- 1, s') else write_loop wait fd (drop n bytes) s')"
  by pat_completeness auto

termination write_loop
  by (relation "measure (\<lambda>(wait, fd, bytes, s). length bytes + length (line_tx s))")
     (auto simp: sys_write_def split: list.splits tx_event.splits)

declare write_loop.simps [simp del]

definition write_all :: "bool \<Rightarrow> c_int \<Rightarrow> u8 list \<Rightarrow> nat \<Rightarrow> serial \<Rightarrow> (c_int \<times> serial) option" where
  "write_all wait fd buf len s = (if len \<le> length buf then do {
     (rc, s) \<leftarrow> write_loop wait fd (take len buf) s;
     if rc \<noteq> 0 then Some (- 1, s)
     else (case sys_drain s of (d, s) \<Rightarrow> Some (if d \<noteq> 0 then - 1 else 0, s)) } else None)"

definition tx_enable :: "bool \<Rightarrow> c_int \<Rightarrow> serial \<Rightarrow> serial" where
  "tx_enable hook enable s = (if hook then s\<lparr>bus := bus s @ [TxEnable enable]\<rparr> else s)"

definition send_frame :: "bool \<Rightarrow> bool \<Rightarrow> c_int \<Rightarrow> u8 list \<Rightarrow> nat \<Rightarrow> serial \<Rightarrow> (c_int \<times> serial) option" where
  "send_frame hook wait fd buf len s = do {
     let s = tx_enable hook 1 s;
     (rc, s) \<leftarrow> write_all wait fd buf len s;
     Some (rc, tx_enable hook 0 s) }"

section \<open>What the bus sees\<close>

text \<open>The bytes of a trace, in order.\<close>

fun out_bytes :: "bus_event list \<Rightarrow> u8 list" where
  "out_bytes (Out bs # r) = bs @ out_bytes r"
| "out_bytes (e # r) = out_bytes r"
| "out_bytes [] = []"

lemma out_bytes_append [simp]: "out_bytes (a @ b) = out_bytes a @ out_bytes b"
  by (induction a rule: out_bytes.induct) auto

definition outs_only :: "bus_event list \<Rightarrow> bool" where
  "outs_only es \<longleftrightarrow> list_all (\<lambda>e. case e of Out _ \<Rightarrow> True | _ \<Rightarrow> False) es"

lemma outs_only_simps [simp]: "outs_only []" "outs_only (Out bs # es) \<longleftrightarrow> outs_only es"
  "outs_only (as @ es) \<longleftrightarrow> outs_only as \<and> outs_only es"
  by (simp_all add: outs_only_def)

text \<open>The parts of the line a sending operation leaves alone.\<close>

definition same_line :: "serial \<Rightarrow> serial \<Rightarrow> bool" where
  "same_line s s' \<longleftrightarrow> line s' = line s \<and> nonblock s' = nonblock s \<and> line_clk s' = line_clk s \<and>
     line_ticks s' = line_ticks s \<and> selects s' = selects s"

lemma same_line_refl [simp]: "same_line s s"
  by (simp add: same_line_def)

lemma same_line_trans: "same_line s s1 \<Longrightarrow> same_line s1 s2 \<Longrightarrow> same_line s s2"
  by (simp add: same_line_def)

lemma sys_write_Inl: "sys_write bytes s = (Inl e, s') \<Longrightarrow> same_line s s' \<and> bus s' = bus s \<and> drains s' = drains s"
  by (auto simp: sys_write_def same_line_def split: list.splits tx_event.splits)

lemma sys_write_Inr:
  "sys_write bytes s = (Inr n, s') \<Longrightarrow>
   n \<le> length bytes \<and> same_line s s' \<and> drains s' = drains s \<and> bus s' = bus s @ [Out (take n bytes)]"
  by (auto simp: sys_write_def same_line_def min_def split: list.splits tx_event.splits)

text \<open>How writing ends: everything is on the line, or a part of it and the caller knows.\<close>

definition wrote :: "u8 list \<Rightarrow> serial \<Rightarrow> (c_int \<times> serial) option \<Rightarrow> bool" where
  "wrote bytes s res \<longleftrightarrow>
     (\<exists>s' es k. res = Some (if k = length bytes then 0 else - 1, s') \<and> k \<le> length bytes \<and> same_line s s' \<and>
        drains s' = drains s \<and> bus s' = bus s @ es \<and> outs_only es \<and> out_bytes es = take k bytes)"

lemma wrote_part: "bytes \<noteq> [] \<Longrightarrow> same_line s s' \<Longrightarrow> drains s' = drains s \<Longrightarrow> bus s' = bus s \<Longrightarrow> wrote bytes s (Some (- 1, s'))"
  unfolding wrote_def by (intro exI[of _ s'] exI[of _ "[]"] exI[of _ 0]) simp

lemma wrote_none: "wrote [] s (Some (0, s))"
  unfolding wrote_def by (intro exI[of _ s] exI[of _ "[]"] exI[of _ 0]) simp

lemma wrote_stop: "sys_write bytes s = (Inr 0, s') \<Longrightarrow> bytes \<noteq> [] \<Longrightarrow> wrote bytes s (Some (- 1, s'))"
  using sys_write_Inr[of bytes s 0 s'] unfolding wrote_def
  by (intro exI[of _ s'] exI[of _ "[Out []]"] exI[of _ 0]) simp

lemma wrote_more:
  assumes "sys_write bytes s = (Inr n, s1)" and "wrote (drop n bytes) s1 res"
  shows "wrote bytes s res"
proof -
  note w = sys_write_Inr[OF assms(1)]
  from assms(2) obtain s' es k where r: "res = Some (if k = length bytes - n then 0 else - 1, s')" "k \<le> length bytes - n"
    "same_line s1 s'" "drains s' = drains s1" "bus s' = bus s1 @ es" "outs_only es" "out_bytes es = take k (drop n bytes)"
    unfolding wrote_def by auto
  have "same_line s s'" using w r(3) by (blast intro: same_line_trans)
  then show ?thesis unfolding wrote_def using w r
    by (intro exI[of _ s'] exI[of _ "Out (take n bytes) # es"] exI[of _ "n + k"]) (auto simp: take_add)
qed

lemma wrote_retry:
  assumes "sys_write bytes s = (Inl e, s1)" and "wrote bytes s1 res"
  shows "wrote bytes s res"
proof -
  note w = sys_write_Inl[OF assms(1)]
  from assms(2) obtain s' es k where r: "res = Some (if k = length bytes then 0 else - 1, s')" "k \<le> length bytes"
    "same_line s1 s'" "drains s' = drains s1" "bus s' = bus s1 @ es" "outs_only es" "out_bytes es = take k bytes"
    unfolding wrote_def by blast
  have "same_line s s'" using w r(3) by (blast intro: same_line_trans)
  then show ?thesis unfolding wrote_def using w r by (intro exI[of _ s'] exI[of _ es] exI[of _ k]) simp
qed

lemma write_loop_wrote: "fd_ok fd \<Longrightarrow> wrote bytes s (write_loop wait fd bytes s)"
proof (induction wait fd bytes s rule: write_loop.induct)
  case (1 wait fd bytes s)
  note unf = write_loop.simps[of wait fd bytes s]
  show ?case
  proof (cases "bytes = []")
    case True
    then show ?thesis using wrote_none by (simp add: write_loop.simps[of wait fd "[]"])
  next
    case False
    obtain res s1 where sys: "sys_write bytes s = (res, s1)" by fastforce
    show ?thesis
    proof (cases res)
      case (Inl e)
      note sys' = sys[unfolded Inl]
      consider "e = EINTR" | "e \<noteq> EINTR" "wait \<and> e \<in> {EAGAIN, EWOULDBLOCK}" | "e \<noteq> EINTR" "\<not> (wait \<and> e \<in> {EAGAIN, EWOULDBLOCK})"
        by blast
      then show ?thesis
      proof cases
        case 1
        then show ?thesis using "1.IH"(1)[OF False sys[symmetric] Inl] "1.prems" False sys' wrote_retry[OF sys'] by (simp add: unf)
      next
        case 2
        then have "wrote bytes s1 (write_loop wait fd bytes s1)"
          using "1.IH"(2)[OF False sys[symmetric] Inl] "1.prems" by blast
        moreover have "write_loop wait fd bytes s = write_loop wait fd bytes s1"
          using 2 "1.prems" False sys' unf by auto
        ultimately show ?thesis using wrote_retry[OF sys'] by simp
      next
        case 3
        then show ?thesis using False sys' sys_write_Inl[OF sys'] by (auto simp: unf intro!: wrote_part)
      qed
    next
      case (Inr n)
      note sys' = sys[unfolded Inr]
      show ?thesis
      proof (cases "n = 0")
        case True
        then show ?thesis using False sys' wrote_stop[of bytes s s1] by (simp add: unf)
      next
        case nz: False
        then show ?thesis using "1.IH"(3)[OF False sys[symmetric] Inr nz "1.prems"] False sys' wrote_more[OF sys'] by (simp add: unf)
      qed
    qed
  qed
qed

text \<open>
  A frame sent: the hook is switched on before the first byte and off after the last one, whether
  the frame went out whole or not.
\<close>

definition hooked :: "bool \<Rightarrow> bus_event list \<Rightarrow> bus_event list" where
  "hooked hook es = (if hook then TxEnable 1 # es @ [TxEnable 0] else es)"

lemma out_bytes_hooked [simp]: "out_bytes (hooked hook es) = out_bytes es"
  by (simp add: hooked_def)

lemma send_frame_trace:
  assumes "fd_ok fd" and "len \<le> length buf"
  shows "\<exists>rc s' es k. send_frame hook wait fd buf len s = Some (rc, s') \<and> k \<le> len \<and> same_line s s' \<and>
    bus s' = bus s @ hooked hook es \<and> outs_only es \<and> out_bytes es = take k buf \<and>
    (rc = 0 \<and> k = len \<or> rc = - 1) \<and> (drains s = [] \<longrightarrow> k = len \<longrightarrow> rc = 0)"
proof -
  let ?s = "tx_enable hook 1 s"
  from write_loop_wrote[OF assms(1), of "take len buf" ?s wait] obtain s1 es k where
    r: "write_loop wait fd (take len buf) ?s = Some (if k = len then 0 else - 1, s1)" "k \<le> len" "same_line ?s s1"
    "drains s1 = drains ?s" "bus s1 = bus ?s @ es" "outs_only es" "out_bytes es = take k buf"
    using assms(2) by (auto simp: wrote_def min_absorb2)
  have line: "same_line s ?s" "same_line s1 (tx_enable hook 0 s1)" "drains ?s = drains s" "bus ?s = bus s @ (if hook then [TxEnable 1] else [])"
    by (simp_all add: tx_enable_def same_line_def)
  obtain d s2 where d: "sys_drain s1 = (d, s2)" by fastforce
  have s2: "same_line s1 s2" "bus s2 = bus s1" "drains s = [] \<longrightarrow> d = 0"
    using d r(4) line(3) by (auto simp: sys_drain_def same_line_def split: list.splits)
  define s3 where "s3 = (if k = len then s2 else s1)"
  have "send_frame hook wait fd buf len s = Some (if k = len \<and> d = 0 then 0 else - 1, tx_enable hook 0 s3)"
    using r(1) d assms(2) by (simp add: send_frame_def write_all_def Let_def s3_def)
  moreover have "same_line s (tx_enable hook 0 s3)"
    using line(1) r(3) s2(1) by (auto simp: same_line_def s3_def tx_enable_def)
  moreover have "bus (tx_enable hook 0 s3) = bus s @ hooked hook es"
    using r(5) line(4) s2(2) by (simp add: hooked_def tx_enable_def s3_def)
  ultimately show ?thesis using r(2,6,7) s2(3)
    by (intro exI[of _ "if k = len \<and> d = 0 then 0 else - 1"] exI[of _ "tx_enable hook 0 s3"] exI[of _ es] exI[of _ k]) auto
qed

text \<open>A line that takes what is written at once.\<close>

definition tx_takes :: "serial \<Rightarrow> bool" where
  "tx_takes s \<longleftrightarrow> line_tx s = [] \<and> drains s = []"

lemma send_frame_takes:
  assumes "tx_takes s" and "len \<le> length buf"
  shows "\<exists>s'. send_frame hook w fd buf len s = Some (0, s')"
proof -
  have "write_loop w fd bs s = Some (0, s\<lparr>bus := bus s @ (if bs = [] then [] else [Out bs])\<rparr>)" if "line_tx s = []" for s bs
    using that by (simp add: write_loop.simps[of w fd bs] write_loop.simps[of w fd "[]"] sys_write_def)
  then show ?thesis using assms
    by (simp add: send_frame_def write_all_def sys_drain_def tx_takes_def tx_enable_def Let_def)
qed

section \<open>What the line delivers\<close>

lemma sys_read_bytes:
  assumes "rx_bytes (line s) \<noteq> []" and "0 < n"
  shows "(\<exists>r. sys_read n s = (Inl EINTR, s\<lparr>line := r\<rparr>) \<and> line s = RxErr EINTR # r) \<or>
    (\<exists>bs. bs \<noteq> [] \<and> length bs \<le> n \<and> length bs \<le> length (rx_bytes (line s)) \<and>
       bs = take (length bs) (rx_bytes (line s)) \<and>
       sys_read n s = (Inr bs, s\<lparr>line := rx_drop (length bs) (line s)\<rparr>))"
proof (cases "line s" rule: rx_bytes.cases)
  case (1 b bs r)
  show ?thesis
  proof (cases "drop n (b # bs)")
    case Nil
    with 1 show ?thesis by (intro disjI2 exI[of _ "b # bs"]) (simp add: sys_read_def)
  next
    case (Cons b' bs')
    then have n: "n < Suc (length bs)" by (metis drop_eq_Nil2 length_Cons list.discI not_less)
    with 1 Cons assms show ?thesis
      by (intro disjI2 exI[of _ "take n (b # bs)"]) (cases n, auto simp: sys_read_def min_absorb2)
  qed
qed (use assms in \<open>auto simp: sys_read_def\<close>)

lemma sys_read_keeps: "sys_read n s = (x, s') \<Longrightarrow> bus s' = bus s \<and> line_clk s' = line_clk s \<and> line_ticks s' = line_ticks s"
  by (auto simp: sys_read_def split: list.splits rx_event.splits if_splits)

lemma sys_select_keeps: "sys_select s = (x, s') \<Longrightarrow> bus s' = bus s \<and> line_clk s' = line_clk s \<and> line_ticks s' = line_ticks s"
  by (auto simp: sys_select_def split: list.splits poll_event.splits if_splits)

section \<open>Time and pauses\<close>

definition now_at :: "serial \<Rightarrow> nat \<Rightarrow> u64" where
  "now_at s k = (case line_clk s k of None \<Rightarrow> 0 | Some (sec, nsec) \<Rightarrow> sec * 1000000 + nsec div 1000)"

abbreviation now :: "serial \<Rightarrow> u64" where "now s \<equiv> now_at s (line_ticks s)"

lemma now_at_cong: "line_clk s' = line_clk s \<Longrightarrow> now_at s' = now_at s"
  by (simp add: now_at_def fun_eq_iff)

lemma unat_ucast_u32 [simp]: "unat (ucast (x :: u32) :: u64) = unat x"
  by (simp add: unsigned_ucast_eq take_bit_nat_eq_self_iff order_less_trans[OF unsigned_less])

lemma ucast_u32_eq_0 [simp]: "(ucast (x :: u32) :: u64) = 0 \<longleftrightarrow> x = 0"
  using unat_ucast_u32[of x] by (metis unsigned_0 unsigned_eq_0_iff)

definition pauses :: "u64 \<Rightarrow> bus_event list" where
  "pauses p = (if p = 0 then [] else [Pause p])"

lemma out_bytes_pauses [simp]: "out_bytes (pauses p) = []"
  by (simp add: pauses_def)

end
