(* ===== verification/Rtu_Transport.thy ===== *)
theory Rtu_Transport
  imports Rtu_Frame Serial_Io
begin

text \<open>
  The serial transport of \<^verbatim>\<open>src/src/modbus_rtu.c\<close>: opening and configuring the port
  (\<open>mb_rtu_open\<close>, \<open>configure_serial\<close>, \<open>configure_rs485\<close>), and starting and stopping the
  transport (\<open>mb_rtu_start\<close>, \<open>mb_rtu_stop\<close>). The attributes of the line are the flags the code
  sets in \<open>struct termios\<close>. How the calls of the operating system end is a script, the
  descriptors the process holds are its state, with the attributes and the RS-485 mode set on
  them, the flushes and the calls of the link hook. The loop of the thread runs on the values that
  successive tests of \<open>keep_running\<close> see.
\<close>

section \<open>Configuration, context and environment\<close>

abbreviation (input) MODBUS_RTU_DEFAULT_TIMEOUT_MS :: u32 where "MODBUS_RTU_DEFAULT_TIMEOUT_MS \<equiv> 1000"
abbreviation (input) MB_RTU_RS485_NONE :: c_int where "MB_RTU_RS485_NONE \<equiv> 0"
abbreviation (input) MB_RTU_RS485_RTS_ON_SEND :: c_int where "MB_RTU_RS485_RTS_ON_SEND \<equiv> 1"
abbreviation (input) MB_RTU_RS485_RTS_AFTER_SEND :: c_int where "MB_RTU_RS485_RTS_AFTER_SEND \<equiv> 2"

record mb_rtu_config =
  rt_serial :: mb_rtu_serial_config
  rt_recv_timeout_ms :: u32

record mb_rtu_ctx =
  rt_keep_running :: c_int
  rt_cfg :: mb_rtu_config
  rt_serial_fd :: c_int
  rt_initialized :: c_int

datatype speed = B0 | B1200 | B2400 | B4800 | B9600 | B19200 | B38400 | B57600 | B115200 | B230400 | B460800
datatype cflag = CLOCAL | CREAD | CS7 | CS8 | PARENB | PARODD | CSTOPB

datatype iflag = IGNPAR
datatype rs485_flag = SER_RS485_ENABLED | SER_RS485_RTS_ON_SEND | SER_RS485_RTS_AFTER_SEND

record termios =
  c_cflag :: "cflag list"
  c_iflag :: "iflag list"
  c_vmin :: u8
  c_vtime :: u8
  c_speed :: speed

record port =
  p_mutex :: c_int
  p_open :: c_int
  p_cfsetspeed :: bool
  p_tcsetattr :: c_int
  p_rs485 :: c_int
  p_getfl :: c_int
  p_setfl :: c_int
  p_thread :: c_int

record host =
  fds :: "c_int list"
  attrs :: "(c_int \<times> termios) list"
  flushes :: "c_int list"
  rs485s :: "(c_int \<times> rs485_flag list) list"
  links :: "(c_int \<times> c_int) list"

section \<open>Opening the port\<close>

definition baud_to_speed :: "u32 \<Rightarrow> speed" where
  "baud_to_speed b =
     (if b = 0 \<or> b = 9600 then B9600 else if b = 1200 then B1200 else if b = 2400 then B2400
      else if b = 4800 then B4800 else if b = 19200 then B19200 else if b = 38400 then B38400
      else if b = 57600 then B57600 else if b = 115200 then B115200 else if b = 230400 then B230400
      else if b = 460800 then B460800 else B0)"

definition configure_serial :: "port \<Rightarrow> c_int \<Rightarrow> mb_rtu_serial_config \<Rightarrow> host \<Rightarrow> c_int \<times> host" where
  "configure_serial P fd serial h =
     (let speed = baud_to_speed (baud_rate serial);
          db = effective_data_bits (data_bits serial);
          sb = effective_stop_bits (stop_bits serial)
      in
        if speed = B0 \<or> (db \<noteq> 7 \<and> db \<noteq> 8) \<or> (sb \<noteq> 1 \<and> sb \<noteq> 2) then (- 1, h)
        else
          let flags = [CLOCAL, CREAD] @ (if db = 7 then [CS7] else [CS8]) in
          if parity serial \<noteq> MB_RTU_PARITY_EVEN \<and> parity serial \<noteq> MB_RTU_PARITY_ODD \<and> parity serial \<noteq> MB_RTU_PARITY_NONE
          then (- 1, h)
          else
            let flags = flags @ (if parity serial = MB_RTU_PARITY_EVEN then [PARENB]
                  else if parity serial = MB_RTU_PARITY_ODD then [PARENB, PARODD] else []);
                flags = flags @ (if sb = 2 then [CSTOPB] else [])
            in
              if \<not> p_cfsetspeed P then (- 1, h)
              else if p_tcsetattr P \<noteq> 0 then (- 1, h)
              else (0, h\<lparr>attrs := (fd, \<lparr>c_cflag = flags, c_iflag = [IGNPAR], c_vmin = 0, c_vtime = 0, c_speed = speed\<rparr>) # attrs h,
                         flushes := fd # flushes h\<rparr>))"

text \<open>On Linux; elsewhere every mode but none is refused.\<close>

definition configure_rs485 :: "port \<Rightarrow> c_int \<Rightarrow> c_int \<Rightarrow> host \<Rightarrow> c_int \<times> host" where
  "configure_rs485 P fd mode h =
     (if mode = MB_RTU_RS485_NONE then (0, h)
      else if mode \<noteq> MB_RTU_RS485_RTS_ON_SEND \<and> mode \<noteq> MB_RTU_RS485_RTS_AFTER_SEND then (- 1, h)
      else
        let flags = [SER_RS485_ENABLED] @
              (if mode = MB_RTU_RS485_RTS_ON_SEND then [SER_RS485_RTS_ON_SEND] else [SER_RS485_RTS_AFTER_SEND])
        in (p_rs485 P, if p_rs485 P = 0 then h\<lparr>rs485s := (fd, flags) # rs485s h\<rparr> else h))"

definition mb_rtu_open ::
    "port \<Rightarrow> c_int option \<Rightarrow> mb_rtu_serial_config option \<Rightarrow> host \<Rightarrow> c_int \<times> c_int option \<times> host" where
  "mb_rtu_open P fd_out serial h =
     (case (fd_out, serial) of
        (Some _, Some sc) \<Rightarrow>
          if device sc = None \<or> device sc = Some [] then (- 1, fd_out, h)
          else
            let fd = p_open P in
            if fd < 0 then (- 1, fd_out, h)
            else
              (case configure_serial P fd sc (h\<lparr>fds := fd # fds h\<rparr>) of (rc, h) \<Rightarrow>
                 if rc \<noteq> 0 then (- 1, fd_out, h\<lparr>fds := remove1 fd (fds h)\<rparr>)
                 else
                   (case configure_rs485 P fd (rs485_mode sc) h of (rc, h) \<Rightarrow>
                      if rc \<noteq> 0 then (- 1, fd_out, h\<lparr>fds := remove1 fd (fds h)\<rparr>)
                      else (0, Some fd, h)))
      | _ \<Rightarrow> (- 1, fd_out, h))"

definition mb_rtu_close :: "c_int option \<Rightarrow> host \<Rightarrow> c_int option \<times> host" where
  "mb_rtu_close fd h =
     (case fd of
        None \<Rightarrow> (fd, h)
      | Some n \<Rightarrow> if n \<ge> 0 then (Some (- 1), h\<lparr>fds := remove1 n (fds h)\<rparr>) else (fd, h))"

section \<open>Starting and stopping\<close>

definition mb_rtu_start ::
    "port \<Rightarrow> mb_rtu_ctx option \<Rightarrow> mb_rtu_config option \<Rightarrow> host \<Rightarrow> c_int \<times> mb_rtu_ctx option \<times> host" where
  "mb_rtu_start P ctx conf h =
     (case (ctx, conf) of
        (Some c, Some g) \<Rightarrow>
          if device (rt_serial g) = None \<or> device (rt_serial g) = Some [] then (- 1, ctx, h)
          else if rt_initialized c \<noteq> 0 then (- 1, ctx, h)
          else
            let g = (if rt_recv_timeout_ms g = 0 then g\<lparr>rt_recv_timeout_ms := MODBUS_RTU_DEFAULT_TIMEOUT_MS\<rparr> else g);
                c = \<lparr>rt_keep_running = 0, rt_cfg = g, rt_serial_fd = - 1, rt_initialized = 0\<rparr>
            in
              if p_mutex P \<noteq> 0 then (- 1, Some c, h)
              else
                (case mb_rtu_open P (Some (rt_serial_fd c)) (Some (rt_serial (rt_cfg c))) h of (rc, fd, h) \<Rightarrow>
                   let c = c\<lparr>rt_serial_fd := the fd\<rparr> in
                   if rc \<noteq> 0 then (- 1, Some c, h)
                   else if p_getfl P < 0 \<or> p_setfl P < 0 then
                     (case mb_rtu_close (Some (rt_serial_fd c)) h of (fd, h) \<Rightarrow> (- 1, Some (c\<lparr>rt_serial_fd := the fd\<rparr>), h))
                   else if p_thread P \<noteq> 0 then
                     (case mb_rtu_close (Some (rt_serial_fd c)) h of (fd, h) \<Rightarrow>
                        (- 1, Some (c\<lparr>rt_serial_fd := the fd, rt_keep_running := 0\<rparr>), h))
                   else (0, Some (c\<lparr>rt_keep_running := 1, rt_initialized := 1\<rparr>),
                           h\<lparr>links := links h @ [(rt_serial_fd c, 1)]\<rparr>))
      | _ \<Rightarrow> (- 1, ctx, h))"

definition mb_rtu_stop :: "mb_rtu_ctx option \<Rightarrow> host \<Rightarrow> mb_rtu_ctx option \<times> host" where
  "mb_rtu_stop ctx h =
     (case ctx of
        None \<Rightarrow> (ctx, h)
      | Some c \<Rightarrow>
          if rt_initialized c = 0 then (ctx, h)
          else
            let c = c\<lparr>rt_keep_running := 0\<rparr> in
            (if rt_serial_fd c \<ge> 0 then
               (case mb_rtu_close (Some (rt_serial_fd c)) (h\<lparr>links := links h @ [(rt_serial_fd c, 0)]\<rparr>) of (fd, h) \<Rightarrow>
                  (Some (c\<lparr>rt_serial_fd := the fd, rt_initialized := 0\<rparr>), h))
             else (Some (c\<lparr>rt_initialized := 0\<rparr>), h)))"

section \<open>The thread\<close>

text \<open>
  The rounds of \<open>mb_rtu_thread\<close>, one for each value of \<open>keep_running\<close> that its loop condition
  reads; \<open>on_process\<close> is the configured callback, if there is one.
\<close>

fun mb_rtu_thread :: "(c_int \<Rightarrow> 'w \<Rightarrow> (c_int \<times> 'w) option) option \<Rightarrow> c_int \<Rightarrow> c_int list \<Rightarrow> 'w \<Rightarrow> 'w option" where
  "mb_rtu_thread on_process fd [] w = Some w"
| "mb_rtu_thread on_process fd (keep_running # r) w =
     (if keep_running = 0 then Some w
      else if fd < 0 then Some w
      else (case on_process of
              None \<Rightarrow> mb_rtu_thread on_process fd r w
            | Some f \<Rightarrow> (case f fd w of None \<Rightarrow> None | Some (rc, w) \<Rightarrow> mb_rtu_thread on_process fd r w)))"

text \<open>What every call of the callback keeps, the thread keeps, and it fails only where the callback does.\<close>

lemma mb_rtu_thread_invariant:
  assumes "\<And>w. I w \<Longrightarrow> \<exists>rc w'. f fd w = Some (rc, w') \<and> I w'" and "I w"
  shows "\<exists>w'. mb_rtu_thread (Some f) fd ks w = Some w' \<and> I w'"
  using assms(2)
proof (induction ks arbitrary: w)
  case (Cons k ks)
  from assms(1)[OF Cons.prems] obtain rc w1 where "f fd w = Some (rc, w1)" "I w1" by blast
  with Cons show ?case by auto
qed simp

section \<open>What they do\<close>

text \<open>The bits one character takes on a line with these attributes: start, data, parity, stop.\<close>

definition line_char_bits :: "termios \<Rightarrow> nat" where
  "line_char_bits t =
     1 + (if CS7 \<in> set (c_cflag t) then 7 else 8) + (if PARENB \<in> set (c_cflag t) then 1 else 0) +
     (if CSTOPB \<in> set (c_cflag t) then 2 else 1)"

fun speed_baud :: "speed \<Rightarrow> nat" where
  "speed_baud B0 = 0"
| "speed_baud B1200 = 1200"
| "speed_baud B2400 = 2400"
| "speed_baud B4800 = 4800"
| "speed_baud B9600 = 9600"
| "speed_baud B19200 = 19200"
| "speed_baud B38400 = 38400"
| "speed_baud B57600 = 57600"
| "speed_baud B115200 = 115200"
| "speed_baud B230400 = 230400"
| "speed_baud B460800 = 460800"

text \<open>The attributes carry exactly the framing the configuration asks for.\<close>

definition framed_as :: "mb_rtu_serial_config \<Rightarrow> termios \<Rightarrow> bool" where
  "framed_as sc t \<longleftrightarrow>
     speed_baud (c_speed t) = (if baud_rate sc = 0 then 9600 else unat (baud_rate sc)) \<and>
     line_char_bits t = 1 + unat (effective_data_bits (data_bits sc)) + (if parity sc \<noteq> 0 then 1 else 0) +
       unat (effective_stop_bits (stop_bits sc))"

lemma configure_serial_cases:
  assumes "configure_serial P fd sc h = (rc, h')"
  shows "rc = - 1 \<and> h' = h \<or> (\<exists>t. rc = 0 \<and> h' = h\<lparr>attrs := (fd, t) # attrs h, flushes := fd # flushes h\<rparr> \<and> framed_as sc t)"
proof -
  let ?db = "effective_data_bits (data_bits sc)" and ?sb = "effective_stop_bits (stop_bits sc)"
  let ?t = "\<lparr>c_cflag = [CLOCAL, CREAD] @ (if ?db = 7 then [CS7] else [CS8]) @
      (if parity sc = 1 then [PARENB] else if parity sc = 2 then [PARENB, PARODD] else []) @
      (if ?sb = 2 then [CSTOPB] else []), c_iflag = [IGNPAR], c_vmin = 0, c_vtime = 0, c_speed = baud_to_speed (baud_rate sc)\<rparr>"
  have "speed_baud (baud_to_speed b) = (if b = 0 then 9600 else unat b)" if "baud_to_speed b \<noteq> B0" for b
    using that by (auto simp: baud_to_speed_def split: if_splits)
  then have "framed_as sc ?t"
    if "baud_to_speed (baud_rate sc) \<noteq> B0" "?db = 7 \<or> ?db = 8" "?sb = 1 \<or> ?sb = 2" "parity sc = 0 \<or> parity sc = 1 \<or> parity sc = 2"
    using that by (auto simp: framed_as_def line_char_bits_def)
  moreover have "rc = - 1 \<and> h' = h \<or>
      (baud_to_speed (baud_rate sc) \<noteq> B0 \<and> (?db = 7 \<or> ?db = 8) \<and> (?sb = 1 \<or> ?sb = 2) \<and>
       (parity sc = 0 \<or> parity sc = 1 \<or> parity sc = 2)) \<and> rc = 0 \<and> h' = h\<lparr>attrs := (fd, ?t) # attrs h, flushes := fd # flushes h\<rparr>"
    using assms by (auto simp: configure_serial_def Let_def split: if_splits)
  ultimately show ?thesis by blast
qed

lemma mb_rtu_open_fds:
  assumes "mb_rtu_open P fo sc h = (rc, fo', h')"
  shows "rc = - 1 \<and> fo' = fo \<and> fds h' = fds h \<and> links h' = links h \<or>
    rc = 0 \<and> fo' = Some (p_open P) \<and> 0 \<le> p_open P \<and> fds h' = p_open P # fds h \<and> links h' = links h \<and>
      (\<exists>s t. sc = Some s \<and> attrs h' = (p_open P, t) # attrs h \<and> framed_as s t)"
proof (cases "\<exists>so s. fo = Some so \<and> sc = Some s \<and> device s \<noteq> None \<and> device s \<noteq> Some [] \<and> 0 \<le> p_open P")
  case False
  then have "rc = - 1 \<and> fo' = fo \<and> h' = h"
    using assms by (auto simp: mb_rtu_open_def Let_def split: option.splits if_splits)
  then show ?thesis by simp
next
  case True
  then obtain so s where s: "fo = Some so" "sc = Some s" "device s \<noteq> None \<and> device s \<noteq> Some []" "0 \<le> p_open P" by blast
  obtain rc1 h1 where c: "configure_serial P (p_open P) s (h\<lparr>fds := p_open P # fds h\<rparr>) = (rc1, h1)" by fastforce
  obtain rc2 h2 where d: "configure_rs485 P (p_open P) (rs485_mode s) h1 = (rc2, h2)" by fastforce
  from configure_serial_cases[OF c] have "fds h1 = p_open P # fds h \<and> links h1 = links h \<and>
      (rc1 = 0 \<longrightarrow> (\<exists>t. attrs h1 = (p_open P, t) # attrs h \<and> framed_as s t))" by auto
  moreover from d have "fds h2 = fds h1 \<and> links h2 = links h1 \<and> attrs h2 = attrs h1"
    by (auto simp: configure_rs485_def Let_def split: if_splits)
  ultimately show ?thesis using assms c d s by (auto simp: mb_rtu_open_def Let_def split: if_splits)
qed

end
