(* ===== verification/Rtu_Server.thy ===== *)
theory Rtu_Server
  imports Pdu_Client Rtu_Transport
begin

text \<open>
  The RTU server, \<^verbatim>\<open>src/src/modbus_rtu_server.c\<close>: collecting bytes from the line, finding the next
  request with a valid CRC among them, and answering it. The time base, the line and the bus are
  those of \<open>Serial_Io\<close>; logging is left out.
\<close>

section \<open>Configuration and context\<close>

abbreviation (input) MODBUS_RTU_BROADCAST_ADDRESS :: u8 where "MODBUS_RTU_BROADCAST_ADDRESS \<equiv> 0"
abbreviation (input) MB_RTU_SERVER_UNIT_ID_ANY :: u8 where "MB_RTU_SERVER_UNIT_ID_ANY \<equiv> 0xFF"
abbreviation (input) MB_RTU_SERVER_DEFAULT_RECV_TIMEOUT_MS :: u32 where
  "MB_RTU_SERVER_DEFAULT_RECV_TIMEOUT_MS \<equiv> 1000"
abbreviation (input) RTU_OFFSET_PDU :: nat where "RTU_OFFSET_PDU \<equiv> 1"
abbreviation (input) RTU_OFFSET_WRITE_BYTE_CNT :: nat where "RTU_OFFSET_WRITE_BYTE_CNT \<equiv> 6"
abbreviation (input) RTU_IO_FRAME_ERROR :: c_int where "RTU_IO_FRAME_ERROR \<equiv> - 10"

text \<open>As for the TCP server the four callbacks are kept as the handler table built from them; the
  transmit-enable hook is there or not.\<close>

record 'u mb_rtu_server_config =
  rs_device :: "string option"
  rs_baud_rate :: u32
  rs_data_bits :: u8
  rs_stop_bits :: u8
  rs_parity :: c_int
  rs_unit_id :: u8
  rs_recv_timeout_ms :: u32
  rs_inter_frame_delay_us :: u32
  rs_rs485_mode :: c_int
  rs_local_echo :: u8
  rs_handlers :: "'u mb_pdu_handlers"
  rs_tx_hook :: bool

record 'u mb_rtu_server_ctx =
  rs_transport :: mb_rtu_ctx
  rs_cfg :: "'u mb_rtu_server_config"
  rs_rx_buffer :: "u8 list"
  rs_rx_len :: nat
  rs_last_rx_us :: u64
  rs_t35_us :: u32

section \<open>Time\<close>

definition effective_timeout_ms :: "'u mb_rtu_server_ctx \<Rightarrow> u32" where
  "effective_timeout_ms ctx =
     (if rs_recv_timeout_ms (rs_cfg ctx) \<noteq> 0 then rs_recv_timeout_ms (rs_cfg ctx)
      else MB_RTU_SERVER_DEFAULT_RECV_TIMEOUT_MS)"

definition srv_inter_frame_us :: "'u mb_rtu_server_ctx \<Rightarrow> u32" where
  "srv_inter_frame_us ctx = mb_rtu_effective_timing (rs_inter_frame_delay_us (rs_cfg ctx)) (rs_t35_us ctx)"

definition current_time_us :: "serial \<Rightarrow> u64 \<times> serial" where
  "current_time_us s =
     (case sys_time s of
        (None, s) \<Rightarrow> (0, s)
      | (Some (sec, nsec), s) \<Rightarrow> (sec * 1000000 + nsec div 1000, s))"

definition wait_response_silence :: "u64 \<Rightarrow> u32 \<Rightarrow> serial \<Rightarrow> serial" where
  "wait_response_silence since_us required_us s =
     (if required_us = 0 then s
      else if since_us = 0 then sleep_us (ucast required_us) s
      else
        case current_time_us s of (now_us, s) \<Rightarrow>
          if now_us < since_us then sleep_us (ucast required_us) s
          else
            let elapsed_us = now_us - since_us in
            if elapsed_us < ucast required_us then sleep_us (ucast required_us - elapsed_us) s else s)"

section \<open>Collecting a request\<close>

definition reset_rx_state :: "'u mb_rtu_server_ctx \<Rightarrow> 'u mb_rtu_server_ctx" where
  "reset_rx_state ctx = ctx\<lparr>rs_rx_len := 0, rs_last_rx_us := 0\<rparr>"

function read_available_bytes ::
    "'u mb_rtu_server_ctx \<Rightarrow> u64 \<Rightarrow> serial \<Rightarrow> (c_int \<times> 'u mb_rtu_server_ctx \<times> serial) option" where
  "read_available_bytes ctx now_us s =
     (if rs_rx_len ctx < MODBUS_RTU_MAX_ADU_LENGTH then
        (case sys_read (MODBUS_RTU_MAX_ADU_LENGTH - rs_rx_len ctx) s of
           (Inr bs, s') \<Rightarrow>
             if bs = [] then Some (0, ctx, s')
             else (case memcpy_to (rs_rx_buffer ctx) (rs_rx_len ctx) bs (length bs) of
                     None \<Rightarrow> None
                   | Some b \<Rightarrow>
                       read_available_bytes
                         (ctx\<lparr>rs_rx_buffer := b, rs_rx_len := rs_rx_len ctx + length bs, rs_last_rx_us := now_us\<rparr>) now_us s')
         | (Inl e, s') \<Rightarrow>
             if e = EINTR then read_available_bytes ctx now_us s'
             else if e \<in> {EAGAIN, EWOULDBLOCK} then Some (0, ctx, s')
             else Some (- 1, ctx, s'))
      else Some (0, ctx, s))"
  by pat_completeness auto

lemma sys_read_line:
  "sys_read n s = (Inl EINTR, s') \<Longrightarrow> length (line s') < length (line s)"
  "sys_read n s = (Inr bs, s') \<Longrightarrow> length (line s') \<le> length (line s)"
  by (auto simp: sys_read_def split: list.splits rx_event.splits if_splits)

lemma sys_read_length: "sys_read n s = (Inr bs, s') \<Longrightarrow> length bs \<le> n"
  by (auto simp: sys_read_def split: list.splits rx_event.splits if_splits)

termination read_available_bytes
proof (relation "measure (\<lambda>(ctx, now, s). (256 - rs_rx_len ctx) + length (line s))", goal_cases)
  case (2 ctx now s)
  then show ?case by (auto dest!: sys_read_line(1)[OF sym])
next
  case (3 ctx now s)
  then show ?case by (auto dest!: sys_read_line(2)[OF sym] simp: neq_Nil_conv)
qed simp

declare read_available_bytes.simps [simp del]

definition get_complete_request_len :: "u8 list \<Rightarrow> nat \<Rightarrow> nat \<Rightarrow> nat \<Rightarrow> (c_int \<times> nat) option" where
  "get_complete_request_len adu rx_len adu_cap total_len =
     (if rx_len < 2 then Some (0, total_len)
      else do {
        fc \<leftarrow> rd adu RTU_OFFSET_FC;
        if fc = MODBUS_FUNC_WRITE_MULTIPLE_COILS \<or> fc = MODBUS_FUNC_WRITE_MULTIPLE_REGISTERS then
          (if rx_len \<le> RTU_OFFSET_WRITE_BYTE_CNT then Some (0, total_len)
           else do {
             byte_count \<leftarrow> rd adu RTU_OFFSET_WRITE_BYTE_CNT;
             let frame_len = 9 + unat byte_count;
             if byte_count = 0 \<or> frame_len > adu_cap then Some (RTU_IO_FRAME_ERROR, total_len)
             else if rx_len < frame_len then Some (0, total_len)
             else Some (1, frame_len) })
        else if adu_cap < MODBUS_RTU_MIN_REQ_LENGTH then Some (RTU_IO_FRAME_ERROR, total_len)
        else if rx_len < MODBUS_RTU_MIN_REQ_LENGTH then Some (0, total_len)
        else Some (1, MODBUS_RTU_MIN_REQ_LENGTH) })"

text \<open>\<open>size_t\<close> subtraction wraps; \<open>memmove\<close> outside the buffer has no defined outcome.\<close>

definition drop_rx_bytes :: "'u mb_rtu_server_ctx \<Rightarrow> nat \<Rightarrow> 'u mb_rtu_server_ctx option" where
  "drop_rx_bytes ctx count =
     (let remaining = (if count \<le> rs_rx_len ctx then rs_rx_len ctx - count else 2 ^ 64 + rs_rx_len ctx - count) in
      if remaining > 0 then
        (if count + remaining \<le> length (rs_rx_buffer ctx) then
           Some (ctx\<lparr>rs_rx_buffer := blit (rs_rx_buffer ctx) 0 (take remaining (drop count (rs_rx_buffer ctx))),
                     rs_rx_len := remaining\<rparr>)
         else None)
      else Some (ctx\<lparr>rs_rx_len := remaining\<rparr>))"

text \<open>The loop of \<open>extract_request_frame\<close>: its last return code, the length found and the context.\<close>

function resync ::
    "'u mb_rtu_server_ctx \<Rightarrow> nat \<Rightarrow> nat \<Rightarrow> (c_int \<times> nat \<times> 'u mb_rtu_server_ctx) option" where
  "resync ctx adu_cap frame_len =
     (case get_complete_request_len (rs_rx_buffer ctx) (rs_rx_len ctx) MODBUS_RTU_MAX_ADU_LENGTH frame_len of
        None \<Rightarrow> None
      | Some (rc, frame_len) \<Rightarrow>
          if rc = 0 then Some (rc, frame_len, ctx)
          else
            (case (if rc = 1 \<and> frame_len \<le> adu_cap
                   then map_option (\<lambda>v. v = 0) (mb_rtu_validate_crc (Some (rs_rx_buffer ctx)) frame_len)
                   else Some False) of
               None \<Rightarrow> None
             | Some True \<Rightarrow> Some (rc, frame_len, ctx)
             | Some False \<Rightarrow>
                 (case drop_rx_bytes ctx 1 of None \<Rightarrow> None | Some ctx \<Rightarrow> resync ctx adu_cap frame_len)))"
  by pat_completeness auto

lemma get_complete_request_len_short: "rx_len < 2 \<Longrightarrow> get_complete_request_len adu rx_len cap n = Some (0, n)"
  by (simp add: get_complete_request_len_def)

lemma drop_rx_bytes_len: "drop_rx_bytes ctx 1 = Some ctx' \<Longrightarrow> 1 \<le> rs_rx_len ctx \<Longrightarrow> rs_rx_len ctx' = rs_rx_len ctx - 1"
  by (auto simp: drop_rx_bytes_def Let_def split: if_splits)

termination resync
proof (relation "measure (\<lambda>(ctx, cap, n). rs_rx_len ctx)", goal_cases)
  case (2 ctx cap n r rc n' b ctx')
  then have "\<not> rs_rx_len ctx < 2" using get_complete_request_len_short[of "rs_rx_len ctx"] by auto
  then show ?case using 2 drop_rx_bytes_len[of ctx ctx'] by simp
qed simp

declare resync.simps [simp del]

definition extract_request_frame ::
    "'u mb_rtu_server_ctx \<Rightarrow> u8 list \<Rightarrow> nat \<Rightarrow> nat \<Rightarrow> (c_int \<times> 'u mb_rtu_server_ctx \<times> u8 list \<times> nat) option" where
  "extract_request_frame ctx adu adu_cap total_len = do {
     (rc, frame_len, ctx) \<leftarrow> resync ctx adu_cap 0;
     if rc = 0 then Some (0, if rs_rx_len ctx = 0 then ctx\<lparr>rs_last_rx_us := 0\<rparr> else ctx, adu, total_len)
     else do {
       adu \<leftarrow> memcpy_to adu 0 (rs_rx_buffer ctx) frame_len;
       ctx \<leftarrow> drop_rx_bytes ctx frame_len;
       Some (1, if rs_rx_len ctx = 0 then ctx\<lparr>rs_last_rx_us := 0\<rparr> else ctx, adu, frame_len) } }"

section \<open>Answering\<close>

text \<open>
  The loop of \<open>discard_echo\<close>. It reads the clock in every round and ends at the deadline, which
  is a property of the clock and not of the code.
\<close>

partial_function (option) echo_loop :: "c_int \<Rightarrow> u64 \<Rightarrow> nat \<Rightarrow> nat \<Rightarrow> serial \<Rightarrow> serial option" where
  "echo_loop fd deadline_us got len s =
     (if got < len then
        (case current_time_us s of (now_us, s) \<Rightarrow>
           if now_us \<ge> deadline_us then Some s
           else if \<not> fd_ok fd then None
           else (case sys_select s of (sel, s) \<Rightarrow>
             if (case sel of Inr n \<Rightarrow> n \<le> 0 | Inl _ \<Rightarrow> True) then echo_loop fd deadline_us got len s
             else if len - got > MODBUS_RTU_MAX_ADU_LENGTH then None
             else (case sys_read (len - got) s of
                     (Inr bs, s) \<Rightarrow> if bs = [] then Some s else echo_loop fd deadline_us (got + length bs) len s
                   | (Inl e, s) \<Rightarrow>
                       if e \<notin> {EINTR, EAGAIN, EWOULDBLOCK} then Some s else echo_loop fd deadline_us got len s)))
      else Some s)"

definition discard_echo :: "'u mb_rtu_server_ctx \<Rightarrow> c_int \<Rightarrow> nat \<Rightarrow> serial \<Rightarrow> serial option" where
  "discard_echo ctx fd len s =
     (case current_time_us s of (now_us, s) \<Rightarrow>
        echo_loop fd (now_us + ucast (effective_timeout_ms ctx) * 1000) 0 len s)"

definition unit_id_matches :: "'u mb_rtu_server_ctx \<Rightarrow> u8 \<Rightarrow> bool" where
  "unit_id_matches ctx unit_id \<longleftrightarrow>
     (if unit_id = MODBUS_RTU_BROADCAST_ADDRESS then True
      else if rs_unit_id (rs_cfg ctx) = MB_RTU_SERVER_UNIT_ID_ANY then True
      else unit_id = rs_unit_id (rs_cfg ctx))"

definition rtu_server_on_process ::
    "stack \<Rightarrow> 'u mb_rtu_server_ctx \<Rightarrow> 'u \<Rightarrow> c_int \<Rightarrow> serial \<Rightarrow> (c_int \<times> 'u mb_rtu_server_ctx \<times> 'u \<times> serial) option" where
  "rtu_server_on_process J ctx u fd s = do {
     let adu = local8 J MODBUS_RTU_MAX_ADU_LENGTH;
     let resp = local8 (stack_above 256 J) MODBUS_RTU_MAX_ADU_LENGTH;
     let (now_us, s) = current_time_us s;
     let timeout_us = ucast (effective_timeout_ms ctx) * (1000 :: u64);
     let ctx = (if rs_rx_len ctx > 0 \<and> rs_last_rx_us ctx > 0 \<and> now_us \<ge> rs_last_rx_us ctx \<and>
                   now_us - rs_last_rx_us ctx > timeout_us then reset_rx_state ctx else ctx);
     (rc, ctx, s) \<leftarrow> read_available_bytes ctx now_us s;
     if rc < 0 then Some (- 1, ctx, u, s)
     else do {
       let request_end_us = rs_last_rx_us ctx;
       (found, ctx, adu, total_len) \<leftarrow> extract_request_frame ctx adu MODBUS_RTU_MAX_ADU_LENGTH 0;
       if found = 0 then Some (0, ctx, u, s)
       else do {
         unit_id \<leftarrow> rd adu RTU_OFFSET_UNIT_ID;
         fc \<leftarrow> rd adu RTU_OFFSET_FC;
         let is_broadcast = (unit_id = MODBUS_RTU_BROADCAST_ADDRESS);
         if \<not> unit_id_matches ctx unit_id then Some (0, ctx, u, s)
         else if is_broadcast \<and> \<not> mb_pdu_is_write fc then Some (0, ctx, u, s)
         else do {
           let pdu_len = total_len - RTU_OFFSET_PDU - MODBUS_RTU_CRC_LEN;
           ((resp_pdu_len, u), resp) \<leftarrow> call_at RTU_OFFSET_PDU
             (mb_pdu_handle_request (stack_above 512 J) (rs_handlers (rs_cfg ctx)) u (ptr adu RTU_OFFSET_PDU) pdu_len) resp;
           if is_broadcast then Some (0, ctx, u, s)
           else do {
             resp \<leftarrow> wr resp RTU_OFFSET_UNIT_ID unit_id;
             let resp_len = RTU_OFFSET_PDU + resp_pdu_len;
             (rc, resp) \<leftarrow> mb_rtu_append_crc (Some resp) resp_len MODBUS_RTU_MAX_ADU_LENGTH;
             if rc \<noteq> 0 then Some (- 1, ctx, u, s)
             else do {
               let resp_len = resp_len + MODBUS_RTU_CRC_LEN;
               let s = wait_response_silence request_end_us (srv_inter_frame_us ctx) s;
               (rc, s) \<leftarrow> send_frame (rs_tx_hook (rs_cfg ctx)) True fd (the resp) resp_len s;
               if rc \<noteq> 0 then Some (- 1, ctx, u, s)
               else if rs_local_echo (rs_cfg ctx) \<noteq> 0 then do {
                 s \<leftarrow> discard_echo ctx fd resp_len s;
                 Some (0, ctx, u, s) }
               else Some (0, ctx, u, s) } } } } } }"

section \<open>Starting and stopping\<close>

definition mb_rtu_server_config_init :: "'u mb_rtu_server_config option \<Rightarrow> 'u mb_rtu_server_config option" where
  "mb_rtu_server_config_init c =
     (case c of
        None \<Rightarrow> None
      | Some _ \<Rightarrow> Some
          \<lparr>rs_device = None, rs_baud_rate = 9600, rs_data_bits = 8, rs_stop_bits = 1, rs_parity = MB_RTU_PARITY_NONE,
           rs_unit_id = 0, rs_recv_timeout_ms = MB_RTU_SERVER_DEFAULT_RECV_TIMEOUT_MS, rs_inter_frame_delay_us = 0,
           rs_rs485_mode = 0, rs_local_echo = 0,
           rs_handlers = \<lparr>read_registers = None, write_registers = None, read_bits = None, write_bits = None\<rparr>,
           rs_tx_hook = False\<rparr>)"

definition mb_rtu_server_start ::
    "port \<Rightarrow> 'u mb_rtu_server_ctx option \<Rightarrow> 'u mb_rtu_server_config option \<Rightarrow> host \<Rightarrow>
     c_int \<times> 'u mb_rtu_server_ctx option \<times> host" where
  "mb_rtu_server_start P ctx conf h =
     (case (ctx, conf) of
        (Some c, Some g) \<Rightarrow>
          if rs_device g = None \<or> rs_device g = Some [] then (- 1, ctx, h)
          else if rt_initialized (rs_transport c) \<noteq> 0 then (- 1, ctx, h)
          else
            let g' = (if rs_recv_timeout_ms g = 0
                      then g\<lparr>rs_recv_timeout_ms := MB_RTU_SERVER_DEFAULT_RECV_TIMEOUT_MS\<rparr> else g);
                serial = \<lparr>device = rs_device g, baud_rate = rs_baud_rate g, data_bits = rs_data_bits g,
                  stop_bits = rs_stop_bits g, parity = rs_parity g, rs485_mode = rs_rs485_mode g\<rparr>;
                blank = \<lparr>rt_keep_running = 0, rt_cfg = \<lparr>rt_serial = \<lparr>device = None, baud_rate = 0, data_bits = 0,
                  stop_bits = 0, parity = 0, rs485_mode = 0\<rparr>, rt_recv_timeout_ms = 0\<rparr>, rt_serial_fd = 0, rt_initialized = 0\<rparr>;
                transport_cfg = \<lparr>rt_serial = serial, rt_recv_timeout_ms = rs_recv_timeout_ms g'\<rparr>
            in
              (case mb_rtu_start P (Some blank) (Some transport_cfg) h of (rc, tr, h) \<Rightarrow>
                 (rc, Some \<lparr>rs_transport = the tr, rs_cfg = g', rs_rx_buffer = replicate MODBUS_RTU_MAX_ADU_LENGTH 0,
                            rs_rx_len = 0, rs_last_rx_us = 0, rs_t35_us = mb_rtu_t35_us (Some serial)\<rparr>, h))
      | _ \<Rightarrow> (- 1, ctx, h))"

definition mb_rtu_server_stop :: "'u mb_rtu_server_ctx option \<Rightarrow> host \<Rightarrow> 'u mb_rtu_server_ctx option \<times> host" where
  "mb_rtu_server_stop ctx h =
     (case ctx of
        None \<Rightarrow> (ctx, h)
      | Some c \<Rightarrow> (case mb_rtu_stop (Some (rs_transport c)) h of (tr, h) \<Rightarrow> (Some (c\<lparr>rs_transport := the tr\<rparr>), h)))"

end
