(* ===== verification/Rtu_Server_Facts.thy ===== *)
theory Rtu_Server_Facts
  imports Rtu_Server
begin

text \<open>
  Lemmas about the RTU server: the receive buffer as a byte queue, the search for the next request
  as a scan of a byte list, reading from the line, the pause before a response, the local echo, and
  answering one request.
\<close>

section \<open>Scanning for a request\<close>

text \<open>
  What the first bytes of a queue are: too few to tell, no request, or a request of \<open>n\<close> bytes with a
  correct checksum; and the search for the next request: the first one, behind the bytes that
  cannot start one, and the bytes that stay.
\<close>

datatype head = More | Skip | Frame nat

definition checked :: "nat \<Rightarrow> u8 list \<Rightarrow> head" where
  "checked n bs = (if length bs < n then More else if crc_of (take n bs) = 0 then Frame n else Skip)"

definition head_of :: "u8 list \<Rightarrow> head" where
  "head_of bs =
     (if length bs < 2 then More
      else if bs ! 1 \<in> {0x0F, 0x10} then
        (if length bs \<le> 6 then More
         else if bs ! 6 = 0 \<or> 247 < unat (bs ! 6) then Skip
         else checked (9 + unat (bs ! 6)) bs)
      else checked 8 bs)"

lemma head_of_Nil [simp]: "head_of [] = More"
  by (simp add: head_of_def)

lemma head_of_Frame: "head_of bs = Frame n \<Longrightarrow> 8 \<le> n \<and> n \<le> length bs \<and> n \<le> 256 \<and> crc_of (take n bs) = 0"
  by (auto simp: head_of_def checked_def split: if_splits)

function next_request :: "u8 list \<Rightarrow> u8 list option \<times> u8 list" where
  "next_request bs =
     (case head_of bs of
        More \<Rightarrow> (None, bs)
      | Skip \<Rightarrow> next_request (tl bs)
      | Frame n \<Rightarrow> (Some (take n bs), drop n bs))"
  by pat_completeness auto

termination next_request
proof (relation "measure length", goal_cases)
  case (2 bs)
  then show ?case by (cases bs) simp_all
qed simp

declare next_request.simps [simp del]

text \<open>Bytes that come later do not change what was recognised.\<close>

lemma checked_append: "checked n bs \<noteq> More \<Longrightarrow> checked n (bs @ cs) = checked n bs"
  by (auto simp: checked_def split: if_splits)

lemma head_of_append: "head_of bs \<noteq> More \<Longrightarrow> head_of (bs @ cs) = head_of bs"
  by (auto simp: head_of_def nth_append checked_append split: if_splits)

lemma next_request_append:
  "next_request (bs @ cs) =
     (case next_request bs of
        (None, r) \<Rightarrow> next_request (r @ cs)
      | (Some f, r) \<Rightarrow> (Some f, r @ cs))"
proof (induction bs rule: next_request.induct)
  case (1 bs)
  show ?case
  proof (cases "head_of bs")
    case More
    then show ?thesis by (simp add: next_request.simps[of bs])
  next
    case Skip
    then have "bs \<noteq> []" by auto
    with Skip 1 head_of_append[of bs cs] show ?thesis by (simp add: next_request.simps[of bs] next_request.simps[of "bs @ cs"])
  next
    case (Frame n)
    with head_of_append[of bs cs] head_of_Frame[OF Frame] show ?thesis
      by (simp add: next_request.simps[of bs] next_request.simps[of "bs @ cs"])
  qed
qed

text \<open>The scan finds the first request in front of which every position is given up.\<close>

lemma next_request_Some:
  "next_request bs = (Some f, r) \<longleftrightarrow>
     (\<exists>i. (\<forall>j<i. head_of (drop j bs) = Skip) \<and> head_of (drop i bs) = Frame (length f) \<and> drop i bs = f @ r)"
proof (induction bs rule: next_request.induct)
  case (1 bs)
  show ?case
  proof (cases "head_of bs")
    case More
    then have "\<not> (\<forall>j<i. head_of (drop j bs) = Skip) \<or> head_of (drop i bs) \<noteq> Frame n" for i n
      by (cases i) auto
    with More show ?thesis by (auto simp: next_request.simps[of bs])
  next
    case Skip
    have step: "(\<forall>j<Suc i. head_of (drop j bs) = Skip) \<longleftrightarrow> (\<forall>j<i. head_of (drop j (tl bs)) = Skip)" for i
      using Skip by (auto simp: drop_Suc[symmetric] less_Suc_eq_0_disj)
    have split: "(\<exists>i. P i) \<longleftrightarrow> P 0 \<or> (\<exists>i. P (Suc i))" for P :: "nat \<Rightarrow> bool" by (metis not0_implies_Suc)
    show ?thesis using Skip 1[OF Skip]
      by (subst split) (simp add: step drop_Suc next_request.simps[of bs])
  next
    case (Frame n)
    note hd = head_of_Frame[OF Frame]
    have "i = 0" if "\<forall>j<i. head_of (drop j bs) = Skip" for i using that Frame by (cases i) auto
    then have "(\<exists>i. (\<forall>j<i. head_of (drop j bs) = Skip) \<and> head_of (drop i bs) = Frame (length f) \<and> drop i bs = f @ r) \<longleftrightarrow>
        n = length f \<and> bs = f @ r"
      using Frame by (metis drop0 head.inject less_nat_zero_code)
    also have "\<dots> \<longleftrightarrow> next_request bs = (Some f, r)"
      using Frame hd by (auto simp: next_request.simps[of bs])
    finally show ?thesis by simp
  qed
qed

lemma next_request_None_iff:
  "next_request bs = (None, r) \<longleftrightarrow>
     (\<exists>i\<le>length bs. (\<forall>j<i. head_of (drop j bs) = Skip) \<and> head_of (drop i bs) = More \<and> r = drop i bs)"
proof (induction bs rule: next_request.induct)
  case (1 bs)
  show ?case
  proof (cases "head_of bs")
    case More
    then have z: "i = 0" if "\<forall>j<i. head_of (drop j bs) = Skip" for i using that by (cases i) auto
    show ?thesis using More by (auto simp: next_request.simps[of bs] dest: z)
  next
    case Skip
    then have "bs \<noteq> []" by auto
    have step: "(\<forall>j<Suc i. head_of (drop j bs) = Skip) \<longleftrightarrow> (\<forall>j<i. head_of (drop j (tl bs)) = Skip)" for i
      using Skip by (auto simp: drop_Suc[symmetric] less_Suc_eq_0_disj)
    have split: "(\<exists>i. P i) \<longleftrightarrow> P 0 \<or> (\<exists>i. P (Suc i))" for P :: "nat \<Rightarrow> bool" by (metis not0_implies_Suc)
    have le: "Suc i \<le> length bs \<longleftrightarrow> i \<le> length (tl bs)" for i using \<open>bs \<noteq> []\<close> by (cases bs) auto
    show ?thesis using Skip 1[OF Skip]
      by (subst split) (simp add: step drop_Suc next_request.simps[of bs] le del: length_tl)
  next
    case (Frame n)
    then have z: "i = 0" if "\<forall>j<i. head_of (drop j bs) = Skip" for i using that by (cases i) auto
    show ?thesis using Frame by (auto simp: next_request.simps[of bs] dest!: z)
  qed
qed

text \<open>Whatever is left to wait for fits into the buffer.\<close>

lemma head_of_More: "head_of bs = More \<Longrightarrow> length bs < 256"
  by (auto simp: head_of_def checked_def split: if_splits)

lemma next_request_None: "next_request bs = (None, r) \<Longrightarrow> head_of r = More"
  by (induction bs rule: next_request.induct) (simp add: next_request.simps split: head.splits)

lemma next_request_rest:
  assumes "next_request bs = (fo, r)" and "length bs \<le> 256"
  shows "length r < 256"
proof (cases fo)
  case None
  with assms show ?thesis by (auto dest!: next_request_None head_of_More)
next
  case (Some f)
  with assms(1) obtain i where i: "head_of (drop i bs) = Frame (length f)" "drop i bs = f @ r" by (auto simp: next_request_Some)
  from i(2) have "length f + length r = length bs - i" by (metis length_append length_drop)
  moreover have "8 \<le> length f" using head_of_Frame[OF i(1)] by blast
  ultimately show ?thesis using assms(2) by linarith
qed

section \<open>The buffer\<close>

definition rx_ok :: "'u mb_rtu_server_ctx \<Rightarrow> bool" where
  "rx_ok ctx \<longleftrightarrow> length (rs_rx_buffer ctx) = MODBUS_RTU_MAX_ADU_LENGTH \<and> rs_rx_len ctx \<le> MODBUS_RTU_MAX_ADU_LENGTH"

definition buffered :: "'u mb_rtu_server_ctx \<Rightarrow> u8 list" where
  "buffered ctx = take (rs_rx_len ctx) (rs_rx_buffer ctx)"

lemma length_buffered [simp]: "rx_ok ctx \<Longrightarrow> length (buffered ctx) = rs_rx_len ctx"
  by (simp add: buffered_def rx_ok_def)

lemma nth_buffered: "i < rs_rx_len ctx \<Longrightarrow> buffered ctx ! i = rs_rx_buffer ctx ! i"
  by (simp add: buffered_def)

text \<open>Two contexts that differ in the buffer and its fill only.\<close>

definition same_but_buffer :: "'u mb_rtu_server_ctx \<Rightarrow> 'u mb_rtu_server_ctx \<Rightarrow> bool" where
  "same_but_buffer ctx ctx' \<longleftrightarrow> rs_cfg ctx' = rs_cfg ctx \<and> rs_t35_us ctx' = rs_t35_us ctx \<and> rs_transport ctx' = rs_transport ctx \<and>
     rs_last_rx_us ctx' = rs_last_rx_us ctx \<and> rs_transport ctx' = rs_transport ctx"

lemma same_but_buffer_refl [simp]: "same_but_buffer ctx ctx"
  by (simp add: same_but_buffer_def)

lemma same_but_buffer_trans: "same_but_buffer a b \<Longrightarrow> same_but_buffer b c \<Longrightarrow> same_but_buffer a c"
  by (simp add: same_but_buffer_def)

lemma drop_rx_bytes_drops:
  assumes "rx_ok ctx" and "k \<le> rs_rx_len ctx"
  shows "\<exists>ctx'. drop_rx_bytes ctx k = Some ctx' \<and> rx_ok ctx' \<and> same_but_buffer ctx ctx' \<and> buffered ctx' = drop k (buffered ctx)"
proof (cases "k = rs_rx_len ctx")
  case True
  then show ?thesis using assms
    by (intro exI[of _ "ctx\<lparr>rs_rx_buffer := rs_rx_buffer ctx, rs_rx_len := 0\<rparr>"])
       (auto simp: drop_rx_bytes_def rx_ok_def buffered_def same_but_buffer_def Let_def)
next
  case False
  let ?n = "rs_rx_len ctx - k"
  let ?b = "blit (rs_rx_buffer ctx) 0 (take ?n (drop k (rs_rx_buffer ctx)))"
  let ?c = "ctx\<lparr>rs_rx_buffer := ?b, rs_rx_len := ?n\<rparr>"
  have "drop_rx_bytes ctx k = Some ?c" using False assms by (simp add: drop_rx_bytes_def rx_ok_def Let_def)
  moreover have "rx_ok ?c" using assms by (auto simp: rx_ok_def)
  moreover have "buffered ?c = drop k (buffered ctx)" using assms by (auto simp: buffered_def rx_ok_def drop_take)
  ultimately show ?thesis by (auto simp: same_but_buffer_def)
qed

lemma request_len_head:
  assumes "rx_ok ctx"
  shows "get_complete_request_len (rs_rx_buffer ctx) (rs_rx_len ctx) 256 k = Some (0, k) \<and> head_of (buffered ctx) = More \<or>
    get_complete_request_len (rs_rx_buffer ctx) (rs_rx_len ctx) 256 k = Some (- 10, k) \<and> head_of (buffered ctx) = Skip \<or>
    (\<exists>n. get_complete_request_len (rs_rx_buffer ctx) (rs_rx_len ctx) 256 k = Some (1, n) \<and> 8 \<le> n \<and> n \<le> rs_rx_len ctx \<and>
       head_of (buffered ctx) = (if crc_of (take n (rs_rx_buffer ctx)) = 0 then Frame n else Skip))"
proof (cases "rs_rx_len ctx < 2")
  case True
  with assms show ?thesis by (simp add: get_complete_request_len_def head_of_def)
next
  case False
  have fc: "rd (rs_rx_buffer ctx) 1 = Some (buffered ctx ! 1)" and
    bc: "6 < rs_rx_len ctx \<Longrightarrow> rd (rs_rx_buffer ctx) 6 = Some (buffered ctx ! 6)"
    using False assms by (auto simp: rd_def nth_buffered rx_ok_def)
  have tk: "take n (buffered ctx) = take n (rs_rx_buffer ctx)" if "n \<le> rs_rx_len ctx" for n
    using that by (simp add: buffered_def min_absorb1)
  show ?thesis
  proof (cases "buffered ctx ! 1 \<in> {0x0F, 0x10}")
    case True
    with False assms fc bc tk show ?thesis
      by (cases "6 < rs_rx_len ctx") (auto simp: get_complete_request_len_def head_of_def checked_def Let_def)
  next
    case notin: False
    with False assms fc tk show ?thesis
      by (auto simp: get_complete_request_len_def head_of_def checked_def)
  qed
qed

text \<open>What a scan that ends with \<open>(fo, r)\<close> leaves: a return code, a length and a queue.\<close>

definition scanned :: "u8 list option \<times> u8 list \<Rightarrow> c_int \<Rightarrow> nat \<Rightarrow> u8 list \<Rightarrow> bool" where
  "scanned fr rc n q \<longleftrightarrow>
     (case fst fr of None \<Rightarrow> rc = 0 \<and> q = snd fr | Some f \<Rightarrow> rc = 1 \<and> n = length f \<and> q = f @ snd fr)"

lemma resync_scan:
  assumes "rx_ok ctx"
  shows "\<exists>rc n ctx'. resync ctx 256 k = Some (rc, n, ctx') \<and> rx_ok ctx' \<and> same_but_buffer ctx ctx' \<and>
    scanned (next_request (buffered ctx)) rc n (buffered ctx')"
  using assms
proof (induction "rs_rx_len ctx" arbitrary: ctx k rule: less_induct)
  case less
  note ok = less.prems
  have skip: "\<exists>rc n ctx'. (case drop_rx_bytes ctx 1 of None \<Rightarrow> None | Some ctx \<Rightarrow> resync ctx 256 m) = Some (rc, n, ctx') \<and>
      rx_ok ctx' \<and> same_but_buffer ctx ctx' \<and>
      scanned (next_request (buffered ctx)) rc n (buffered ctx')"
    if sk: "head_of (buffered ctx) = Skip" for m
  proof -
    have pos: "1 \<le> rs_rx_len ctx" using sk ok by (cases "rs_rx_len ctx") (auto simp: buffered_def)
    from drop_rx_bytes_drops[OF ok pos] obtain c where c: "drop_rx_bytes ctx 1 = Some c" "rx_ok c"
      "same_but_buffer ctx c" "buffered c = tl (buffered ctx)" by (auto simp: drop_Suc)
    have "rs_rx_len c < rs_rx_len ctx" using drop_rx_bytes_len[OF c(1) pos] pos by simp
    from less.hyps[OF this c(2), of m] obtain rc n c' where "resync c 256 m = Some (rc, n, c')" "rx_ok c'" "same_but_buffer c c'"
      "scanned (next_request (buffered c)) rc n (buffered c')" by blast
    with sk c same_but_buffer_trans[OF c(3)] show ?thesis
      by (intro exI[of _ rc] exI[of _ n] exI[of _ c']) (simp add: next_request.simps[of "buffered ctx"])
  qed
  from request_len_head[OF ok, of k] show ?case
  proof (elim disjE exE conjE)
    assume "get_complete_request_len (rs_rx_buffer ctx) (rs_rx_len ctx) 256 k = Some (0, k)" "head_of (buffered ctx) = More"
    with ok show ?thesis by (simp add: resync.simps[of ctx] next_request.simps[of "buffered ctx"] scanned_def)
  next
    assume "get_complete_request_len (rs_rx_buffer ctx) (rs_rx_len ctx) 256 k = Some (- 10, k)" "head_of (buffered ctx) = Skip"
    with skip show ?thesis by (simp add: resync.simps[of ctx])
  next
    fix n assume n: "get_complete_request_len (rs_rx_buffer ctx) (rs_rx_len ctx) 256 k = Some (1, n)"
      "8 \<le> n" "n \<le> rs_rx_len ctx" "head_of (buffered ctx) = (if crc_of (take n (rs_rx_buffer ctx)) = 0 then Frame n else Skip)"
    have bound: "2 \<le> n" "n \<le> length (rs_rx_buffer ctx)" "n \<le> 256" using n(2,3) ok by (simp_all add: rx_ok_def)
    note crc = validate_crc_residue[OF bound(1,2)]
    show ?thesis
    proof (cases "crc_of (take n (rs_rx_buffer ctx)) = 0")
      case True
      with n(1,3,4) crc bound(3) ok show ?thesis
        by (simp add: resync.simps[of ctx] next_request.simps[of "buffered ctx"] min_absorb1 scanned_def)
    next
      case False
      with n(1,4) crc bound(3) skip show ?thesis by (simp add: resync.simps[of ctx])
    qed
  qed
qed

text \<open>\<open>extract_request_frame\<close> is the scan, on the buffer.\<close>

lemma extract_scan:
  assumes "rx_ok ctx" and "length adu = 256"
  shows "\<exists>ctx'. extract_request_frame ctx adu 256 0 =
      (case next_request (buffered ctx) of
         (None, r) \<Rightarrow> Some (0, ctx', adu, 0)
       | (Some f, r) \<Rightarrow> Some (1, ctx', blit adu 0 f, length f)) \<and>
    rx_ok ctx' \<and> buffered ctx' = snd (next_request (buffered ctx)) \<and>
    rs_cfg ctx' = rs_cfg ctx \<and> rs_t35_us ctx' = rs_t35_us ctx \<and> rs_transport ctx' = rs_transport ctx"
proof -
  let ?fin = "\<lambda>c. if rs_rx_len c = 0 then c\<lparr>rs_last_rx_us := 0\<rparr> else (c :: 'a mb_rtu_server_ctx)"
  have fin: "rx_ok (?fin c) = rx_ok c" "buffered (?fin c) = buffered c" "rs_cfg (?fin c) = rs_cfg c"
    "rs_t35_us (?fin c) = rs_t35_us c" "rs_transport (?fin c) = rs_transport c" for c :: "'a mb_rtu_server_ctx"
    by (simp_all add: rx_ok_def buffered_def)
  from resync_scan[OF assms(1), of 0] obtain rc n c where c: "resync ctx 256 0 = Some (rc, n, c)" "rx_ok c" "same_but_buffer ctx c"
    "scanned (next_request (buffered ctx)) rc n (buffered c)" by blast
  obtain fo r where scan: "next_request (buffered ctx) = (fo, r)" by fastforce
  show ?thesis
  proof (cases fo)
    case None
    with c scan fin[of c] c(3)[unfolded same_but_buffer_def] show ?thesis
      by (intro exI[of _ "?fin c"]) (simp add: extract_request_frame_def scanned_def)
  next
    case (Some f)
    with c(4) scan have f: "rc = 1" "n = length f" "buffered c = f @ r" by (simp_all add: scanned_def)
    have len: "n \<le> rs_rx_len c" using arg_cong[OF f(3), of length] c(2) f(2) by simp
    have "take n (rs_rx_buffer c) = take n (buffered c)" using len by (simp add: buffered_def min_absorb1)
    then have tk: "take n (rs_rx_buffer c) = f" using f by simp
    from drop_rx_bytes_drops[OF c(2) len] obtain d where d: "drop_rx_bytes c n = Some d" "rx_ok d" "same_but_buffer c d"
      "buffered d = r" using f by auto
    have "memcpy_to adu 0 (rs_rx_buffer c) n = Some (blit adu 0 f)"
      using tk len c(2) assms(2) by (simp add: buf_simps rx_ok_def)
    with c(1) d f Some scan fin[of d] c(3)[unfolded same_but_buffer_def] d(3)[unfolded same_but_buffer_def] show ?thesis
      by (intro exI[of _ "?fin d"]) (simp add: extract_request_frame_def)
  qed
qed

section \<open>Reading from the line\<close>

text \<open>
  The script behind the event that ends what is available now, and the result of \<open>read\<close> for that
  event.
\<close>

fun rx_rest :: "rx_event list \<Rightarrow> rx_event list" where
  "rx_rest (Seg b bs # r) = rx_rest r"
| "rx_rest (RxErr EINTR # r) = rx_rest r"
| "rx_rest (e # r) = r"
| "rx_rest [] = []"

definition read_rc :: "rx_event option \<Rightarrow> c_int" where
  "read_rc e = (case e of Some (RxErr e) \<Rightarrow> if e \<in> {EAGAIN, EWOULDBLOCK} then 0 else - 1 | _ \<Rightarrow> 0)"

text \<open>Nothing available: what \<open>read\<close> does then.\<close>

lemma sys_read_none:
  assumes "rx_bytes (line s) = []"
  shows "(\<exists>r. sys_read n s = (Inl EINTR, s\<lparr>line := r\<rparr>) \<and> line s = RxErr EINTR # r) \<or>
    (\<exists>x. sys_read n s = (x, s\<lparr>line := rx_rest (line s)\<rparr>) \<and> x \<noteq> Inl EINTR \<and>
       (case x of Inr bs \<Rightarrow> bs = [] \<and> read_rc (rx_stop (line s)) = 0
          | Inl e \<Rightarrow> read_rc (rx_stop (line s)) = (if e \<in> {EAGAIN, EWOULDBLOCK} then 0 else - 1)))"
  using assms by (cases "line s" rule: rx_bytes.cases) (auto simp: sys_read_def read_rc_def)

lemma rx_rest_drop: "n \<le> length (rx_bytes r) \<Longrightarrow> rx_rest (rx_drop n r) = rx_rest r"
  by (induction n r rule: rx_drop.induct) (auto split: list.split)

text \<open>A context that took \<open>bs\<close> into its buffer.\<close>

definition took :: "'u mb_rtu_server_ctx \<Rightarrow> u64 \<Rightarrow> u8 list \<Rightarrow> 'u mb_rtu_server_ctx" where
  "took ctx tm bs =
     ctx\<lparr>rs_rx_buffer := blit (rs_rx_buffer ctx) (rs_rx_len ctx) bs, rs_rx_len := rs_rx_len ctx + length bs,
         rs_last_rx_us := (if bs = [] then rs_last_rx_us ctx else tm)\<rparr>"

lemma took_Nil [simp]: "took ctx tm [] = ctx"
  by (simp add: took_def)

lemma took_fields [simp]: "rs_rx_len (took ctx tm bs) = rs_rx_len ctx + length bs" "rs_cfg (took ctx tm bs) = rs_cfg ctx"
  "rs_t35_us (took ctx tm bs) = rs_t35_us ctx" "rs_transport (took ctx tm bs) = rs_transport ctx"
  "rs_last_rx_us (took ctx tm bs) = (if bs = [] then rs_last_rx_us ctx else tm)"
  by (simp_all add: took_def)

lemma took_ok: "rx_ok ctx \<Longrightarrow> rs_rx_len ctx + length bs \<le> 256 \<Longrightarrow> rx_ok (took ctx tm bs)"
  by (simp add: rx_ok_def took_def)

lemma buffered_took: "rx_ok ctx \<Longrightarrow> rs_rx_len ctx + length bs \<le> 256 \<Longrightarrow> buffered (took ctx tm bs) = buffered ctx @ bs"
  by (simp add: buffered_def took_def rx_ok_def blit_def)

lemma took_took:
  assumes "rx_ok ctx" and "rs_rx_len ctx + length bs + length cs \<le> 256"
  shows "took (took ctx tm bs) tm cs = took ctx tm (bs @ cs)"
  using assms by (simp add: took_def rx_ok_def blit_append)

lemma read_available_steps:
  assumes "rs_rx_len ctx < 256"
  shows "sys_read (256 - rs_rx_len ctx) s = (Inl EINTR, s') \<Longrightarrow> read_available_bytes ctx tm s = read_available_bytes ctx tm s'"
    and "sys_read (256 - rs_rx_len ctx) s = (Inl e, s') \<Longrightarrow> e \<noteq> EINTR \<Longrightarrow>
      read_available_bytes ctx tm s = Some (if e \<in> {EAGAIN, EWOULDBLOCK} then 0 else - 1, ctx, s')"
    and "sys_read (256 - rs_rx_len ctx) s = (Inr [], s') \<Longrightarrow> read_available_bytes ctx tm s = Some (0, ctx, s')"
    and "sys_read (256 - rs_rx_len ctx) s = (Inr bs, s') \<Longrightarrow> bs \<noteq> [] \<Longrightarrow> rx_ok ctx \<Longrightarrow>
      read_available_bytes ctx tm s = read_available_bytes (took ctx tm bs) tm s'"
proof -
  note unf = read_available_bytes.simps[of ctx tm s]
  show "sys_read (256 - rs_rx_len ctx) s = (Inl EINTR, s') \<Longrightarrow> read_available_bytes ctx tm s = read_available_bytes ctx tm s'"
    using assms by (simp add: unf)
  show "sys_read (256 - rs_rx_len ctx) s = (Inl e, s') \<Longrightarrow> e \<noteq> EINTR \<Longrightarrow>
      read_available_bytes ctx tm s = Some (if e \<in> {EAGAIN, EWOULDBLOCK} then 0 else - 1, ctx, s')"
    using assms by (simp add: unf)
  show "sys_read (256 - rs_rx_len ctx) s = (Inr [], s') \<Longrightarrow> read_available_bytes ctx tm s = Some (0, ctx, s')"
    using assms by (simp add: unf)
  show "read_available_bytes ctx tm s = read_available_bytes (took ctx tm bs) tm s'"
    if "sys_read (256 - rs_rx_len ctx) s = (Inr bs, s')" "bs \<noteq> []" "rx_ok ctx"
  proof -
    have "length bs \<le> 256 - rs_rx_len ctx" using sys_read_length[OF that(1)] .
    then have "memcpy_to (rs_rx_buffer ctx) (rs_rx_len ctx) bs (length bs) = Some (blit (rs_rx_buffer ctx) (rs_rx_len ctx) bs)"
      using that(3) assms by (simp add: buf_simps rx_ok_def)
    then show ?thesis using that assms by (simp add: unf took_def)
  qed
qed

text \<open>
  One call reads what is available, up to the size of the buffer, in any segmentation; what does
  not fit stays on the line.
\<close>

lemma read_available:
  assumes "rx_ok ctx"
  shows "read_available_bytes ctx tm s =
    (let room = 256 - rs_rx_len ctx; bs = rx_bytes (line s) in
     if room \<le> length bs then Some (0, took ctx tm (take room bs), s\<lparr>line := rx_drop room (line s)\<rparr>)
     else Some (read_rc (rx_stop (line s)), took ctx tm bs, s\<lparr>line := rx_rest (line s)\<rparr>))"
  using assms
proof (induction "256 - rs_rx_len ctx + length (line s)" arbitrary: ctx s rule: less_induct)
  case less
  note ok = less.prems
  show ?case
  proof (cases "rs_rx_len ctx < 256")
    case False
    then show ?thesis by (simp add: read_available_bytes.simps[of ctx])
  next
    case room: True
    note steps = read_available_steps[OF room, where tm = tm]
    have intr: ?thesis if "sys_read (256 - rs_rx_len ctx) s = (Inl EINTR, s\<lparr>line := r\<rparr>)" "line s = RxErr EINTR # r" for r
      using less.hyps[of ctx "s\<lparr>line := r\<rparr>"] steps(1)[OF that(1)] that(2) ok room
      by (cases "256 - rs_rx_len ctx") (simp_all add: Let_def)
    show ?thesis
    proof (cases "rx_bytes (line s) = []")
      case True
      from sys_read_none[OF this, of "256 - rs_rx_len ctx"] show ?thesis
      proof (elim disjE exE conjE)
        fix x assume x: "sys_read (256 - rs_rx_len ctx) s = (x, s\<lparr>line := rx_rest (line s)\<rparr>)" "x \<noteq> Inl EINTR"
          "case x of Inr bs \<Rightarrow> bs = [] \<and> read_rc (rx_stop (line s)) = 0
             | Inl e \<Rightarrow> read_rc (rx_stop (line s)) = (if e \<in> {EAGAIN, EWOULDBLOCK} then 0 else - 1)"
        then show ?thesis using True room steps(2,3)[of s] by (cases x) (auto simp: Let_def)
      qed (use intr in blast)
    next
      case False
      have pos: "0 < 256 - rs_rx_len ctx" using room by simp
      from sys_read_bytes[OF False pos] show ?thesis
      proof (elim disjE exE conjE)
        fix bs assume bs: "bs \<noteq> []" "length bs \<le> 256 - rs_rx_len ctx" "length bs \<le> length (rx_bytes (line s))"
          "bs = take (length bs) (rx_bytes (line s))"
          "sys_read (256 - rs_rx_len ctx) s = (Inr bs, s\<lparr>line := rx_drop (length bs) (line s)\<rparr>)"
        let ?c = "took ctx tm bs" and ?s = "s\<lparr>line := rx_drop (length bs) (line s)\<rparr>"
        let ?n = "256 - rs_rx_len ctx" and ?all = "rx_bytes (line s)"
        have okc: "rx_ok ?c" using bs(2) ok room by (intro took_ok) auto
        have "length (line ?s) \<le> length (line s)" using sys_read_line(2)[OF bs(5)] by simp
        moreover have "0 < length bs" using bs(1) unfolding length_greater_0_conv .
        ultimately have "256 - rs_rx_len ?c + length (line ?s) < 256 - rs_rx_len ctx + length (line s)"
          using bs(2) room by simp
        note IH = less.hyps[OF this okc]
        have all: "?all = bs @ drop (length bs) ?all" using bs(4) by (metis append_take_drop_id)
        have tk: "bs @ take m (drop (length bs) ?all) = take (length bs + m) ?all" for m
          using bs(4) by (metis take_add)
        have join: "took ?c tm cs = took ctx tm (bs @ cs)" if "length cs \<le> ?n - length bs" for cs
          using that bs(2) ok room by (intro took_took) auto
        have stop: "rx_stop (line ?s) = rx_stop (line s)" "rx_rest (line ?s) = rx_rest (line s)"
          "rx_bytes (line ?s) = drop (length bs) ?all"
          using bs(3) rx_stop_drop[of "length bs" "line s"] rx_bytes_drop[of "length bs" "line s"] rx_rest_drop[of "length bs" "line s"] by simp_all
        have sum: "length bs + (?n - length bs) = ?n" using bs(2) by (rule le_add_diff_inverse)
        have dr: "rx_drop (?n - length bs) (line ?s) = rx_drop ?n (line s)" if "?n \<le> length ?all"
          using rx_drop_add[of "length bs" "?n - length bs" "line s"] that unfolding sum by simp
        have left: "256 - rs_rx_len ?c = ?n - length bs" by simp
        have "?n - length bs \<le> length (drop (length bs) ?all) \<longleftrightarrow> ?n \<le> length ?all"
          using bs(2,3) by (simp only: length_drop) linarith
        note IH' = IH[unfolded Let_def left stop, unfolded this]
        show ?thesis
        proof (cases "?n \<le> length ?all")
          case True
          then have "read_available_bytes ?c tm ?s =
              Some (0, took ?c tm (take (?n - length bs) (drop (length bs) ?all)), s\<lparr>line := rx_drop ?n (line s)\<rparr>)"
            using IH' dr by simp
          then show ?thesis using True steps(4)[OF bs(5,1) ok] tk[of "?n - length bs", unfolded sum] by (simp add: Let_def join)
        next
          case False
          then have "read_available_bytes ?c tm ?s =
              Some (read_rc (rx_stop (line s)), took ?c tm (drop (length bs) ?all), s\<lparr>line := rx_rest (line s)\<rparr>)"
            using IH' by simp
          then show ?thesis using False steps(4)[OF bs(5,1) ok] all[symmetric] bs(2,3) by (simp add: Let_def join)
        qed
      qed (use intr in blast)
    qed
  qed
qed

section \<open>Time, the pause before a response and the local echo\<close>

lemma current_time_now: "current_time_us s = (now s, s\<lparr>line_ticks := Suc (line_ticks s)\<rparr>)"
  by (simp add: current_time_us_def sys_time_def now_at_def split: option.split)

text \<open>The pause and the time since the request make up the silence asked for.\<close>

lemma wait_silence:
  "\<exists>p k. wait_response_silence since req s = s\<lparr>line_ticks := k, bus := bus s @ pauses p\<rparr> \<and>
     unat req \<le> unat p + (unat (now s) - unat since)"
proof -
  let ?e = "now s - since"
  consider "req = 0" | "req \<noteq> 0" "since = 0" | "req \<noteq> 0" "since \<noteq> 0" "now s < since"
    | "req \<noteq> 0" "since \<noteq> 0" "since \<le> now s" "?e < ucast req" | "req \<noteq> 0" "since \<noteq> 0" "since \<le> now s" "ucast req \<le> ?e"
    by fastforce
  then show ?thesis
  proof cases
    case 1
    then show ?thesis by (intro exI[of _ 0] exI[of _ "line_ticks s"]) (simp add: wait_response_silence_def pauses_def)
  next
    case 2
    then have "wait_response_silence since req s = s\<lparr>line_ticks := line_ticks s, bus := bus s @ pauses (ucast req)\<rparr>"
      by (simp add: wait_response_silence_def pauses_def sleep_us_def)
    moreover have "unat req \<le> unat (ucast req :: u64)" by simp
    ultimately show ?thesis by (metis trans_le_add1)
  next
    case 3
    then have "wait_response_silence since req s = s\<lparr>line_ticks := Suc (line_ticks s), bus := bus s @ pauses (ucast req)\<rparr>"
      by (simp add: wait_response_silence_def pauses_def sleep_us_def current_time_now)
    moreover have "unat req \<le> unat (ucast req :: u64)" by simp
    ultimately show ?thesis by (metis trans_le_add1)
  next
    case 4
    have e: "unat ?e = unat (now s) - unat since" using 4 by (simp add: unat_sub word_le_nat_alt)
    have p: "unat (ucast req - ?e) = unat req - unat ?e" using 4 by (simp add: unat_sub order_less_imp_le)
    have "ucast req - ?e \<noteq> 0" using 4 by auto
    then have "wait_response_silence since req s =
        s\<lparr>line_ticks := Suc (line_ticks s), bus := bus s @ pauses (ucast req - ?e)\<rparr>"
      using 4 by (simp add: wait_response_silence_def pauses_def sleep_us_def current_time_now Let_def not_less)
    then show ?thesis using e p by (intro exI[of _ "ucast req - ?e"] exI[of _ "Suc (line_ticks s)"]) simp
  next
    case 5
    have e: "unat ?e = unat (now s) - unat since" using 5 by (simp add: unat_sub word_le_nat_alt)
    have "unat req \<le> unat ?e" using 5 by (simp add: word_le_nat_alt)
    then show ?thesis using 5 e by (intro exI[of _ 0] exI[of _ "Suc (line_ticks s)"])
        (simp add: wait_response_silence_def pauses_def current_time_now Let_def not_less)
  qed
qed

text \<open>Waiting for the echo ends when the clock has passed the timeout, and puts nothing on the bus.\<close>

definition clock_passes :: "serial \<Rightarrow> u64 \<Rightarrow> bool" where
  "clock_passes s d \<longleftrightarrow> (\<forall>t. \<exists>k>t. now_at s t + d \<le> now_at s k)"

lemma echo_loop_returns:
  assumes "fd_ok fd" and "len \<le> 256" and "line_ticks s \<le> k" and "d \<le> now_at s k"
  shows "\<exists>s'. echo_loop fd d got len s = Some s' \<and> bus s' = bus s \<and> line_clk s' = line_clk s"
  using assms(3,4)
proof (induction "Suc k - line_ticks s" arbitrary: s got rule: less_induct)
  case less
  let ?s = "s\<lparr>line_ticks := Suc (line_ticks s)\<rparr>"
  show ?case
  proof (cases "got < len \<and> now s < d")
    case False
    then show ?thesis by (auto simp: echo_loop.simps[of fd d got len s] current_time_now not_less)
  next
    case go: True
    then have "line_ticks s \<noteq> k" using less.prems(2) by auto
    with less.prems(1) have lt: "Suc (line_ticks s) \<le> k" by simp
    have IH: "\<exists>s'. echo_loop fd d g len s1 = Some s' \<and> bus s' = bus s \<and> line_clk s' = line_clk s"
      if "bus s1 = bus s \<and> line_clk s1 = line_clk s \<and> line_ticks s1 = Suc (line_ticks s)" for g s1
      using less.hyps[of s1 g] that lt less.prems(2) now_at_cong[of s1 s] by simp
    have nd: "\<not> d \<le> now s" "\<not> 256 < len - got" "got < len" using go assms(2) by auto
    obtain sel s2 where sel: "sys_select ?s = (sel, s2)" by fastforce
    have k2: "bus s2 = bus s \<and> line_clk s2 = line_clk s \<and> line_ticks s2 = Suc (line_ticks s)" using sys_select_keeps[OF sel] by simp
    obtain x s3 where x: "sys_read (len - got) s2 = (x, s3)" by fastforce
    have k3: "bus s3 = bus s \<and> line_clk s3 = line_clk s \<and> line_ticks s3 = Suc (line_ticks s)" using sys_read_keeps[OF x] k2 by simp
    have "echo_loop fd d got len s =
        (if (case sel of Inr n \<Rightarrow> n \<le> 0 | Inl _ \<Rightarrow> True) then echo_loop fd d got len s2
         else (case x of
             Inr bs \<Rightarrow> if bs = [] then Some s3 else echo_loop fd d (got + length bs) len s3
           | Inl e \<Rightarrow> if e \<notin> {EINTR, EAGAIN, EWOULDBLOCK} then Some s3 else echo_loop fd d got len s3))"
      using nd assms(1) sel x by (simp add: echo_loop.simps[of fd d got len s] current_time_now split del: if_split)
         (cases x; simp)
    then show ?thesis using IH[OF k2] IH[OF k3] k3 by (cases x) (simp_all split: if_splits)
  qed
qed

lemma discard_echo_returns:
  assumes "fd_ok fd" and "len \<le> 256" and "clock_passes s (ucast (effective_timeout_ms ctx) * 1000)"
  shows "\<exists>s'. discard_echo ctx fd len s = Some s' \<and> bus s' = bus s \<and> line_clk s' = line_clk s"
proof -
  let ?T = "ucast (effective_timeout_ms ctx) * 1000 :: u64" and ?s = "s\<lparr>line_ticks := Suc (line_ticks s)\<rparr>"
  from assms(3) obtain k where k: "line_ticks s < k" "now s + ?T \<le> now_at s k" by (auto simp: clock_passes_def)
  have same: "now_at ?s = now_at s" by (rule now_at_cong) simp
  show ?thesis using echo_loop_returns[OF assms(1,2), of ?s k "now s + ?T" 0] same k
    by (simp add: discard_echo_def current_time_now)
qed

section \<open>One call\<close>

text \<open>A valid request is the frame of a unit identifier and a PDU.\<close>

lemma next_request_adu:
  assumes "next_request bs = (Some f, r)"
  obtains uid fc pdu where "f = rtu_adu (uid # fc # pdu)" and "length f \<le> 256" and "5 \<le> length (fc # pdu)"
proof -
  from assms obtain i where i: "head_of (drop i bs) = Frame (length f)" "drop i bs = f @ r" by (auto simp: next_request_Some)
  have len: "8 \<le> length f" "length f \<le> 256" and crc: "crc_of f = 0" using head_of_Frame[OF i(1)] i(2) by simp_all
  define p where "p = take (length f - 2) f"
  have six: "6 \<le> length p" using len(1) by (simp add: p_def)
  then obtain uid fc pdu where p: "p = uid # fc # pdu" by (auto simp: numeral_eq_Suc Suc_le_length_iff)
  moreover have "f = rtu_adu p" using valid_frame_adu[OF crc] len(1) by (simp add: p_def)
  ultimately show thesis using six len(2) by (intro that[of uid fc pdu]) auto
qed

text \<open>The tail of \<open>server_on_process\<close>, once a request has been found.\<close>

definition finish :: "'u mb_rtu_server_ctx \<Rightarrow> c_int \<Rightarrow> u64 \<Rightarrow> u8 list \<Rightarrow> nat \<Rightarrow> 'u \<Rightarrow> serial \<Rightarrow>
    (c_int \<times> 'u mb_rtu_server_ctx \<times> 'u \<times> serial) option" where
  "finish ctx fd since resp n u s = do {
     let s = wait_response_silence since (srv_inter_frame_us ctx) s;
     (rc, s) \<leftarrow> send_frame (rs_tx_hook (rs_cfg ctx)) True fd resp n s;
     if rc \<noteq> 0 then Some (- 1, ctx, u, s)
     else if rs_local_echo (rs_cfg ctx) \<noteq> 0 then do {
       s \<leftarrow> discard_echo ctx fd n s;
       Some (0, ctx, u, s) }
     else Some (0, ctx, u, s) }"

text \<open>Whether a frame is for this server, and whether it is to be carried out.\<close>

definition serves :: "'u mb_rtu_server_ctx \<Rightarrow> u8 \<Rightarrow> u8 \<Rightarrow> bool" where
  "serves ctx uid fc \<longleftrightarrow> unit_id_matches ctx uid \<and> (uid = 0 \<longrightarrow> mb_pdu_is_write fc)"

text \<open>How the context, the line and the return code are when the bytes on the line have been read.\<close>

definition stale :: "'u mb_rtu_server_ctx \<Rightarrow> u64 \<Rightarrow> bool" where
  "stale ctx t \<longleftrightarrow> rs_rx_len ctx > 0 \<and> rs_last_rx_us ctx > 0 \<and> t \<ge> rs_last_rx_us ctx \<and>
     t - rs_last_rx_us ctx > ucast (effective_timeout_ms ctx) * 1000"

definition received :: "'u mb_rtu_server_ctx \<Rightarrow> serial \<Rightarrow> c_int \<times> 'u mb_rtu_server_ctx \<times> serial" where
  "received ctx s =
     (let c = (if stale ctx (now s) then reset_rx_state ctx else ctx);
          room = 256 - rs_rx_len c; bs = rx_bytes (line s); s' = s\<lparr>line_ticks := Suc (line_ticks s)\<rparr> in
      if room \<le> length bs then (0, took c (now s) (take room bs), s'\<lparr>line := rx_drop room (line s)\<rparr>)
      else (read_rc (rx_stop (line s)), took c (now s) bs, s'\<lparr>line := rx_rest (line s)\<rparr>))"

lemma received_keeps:
  assumes "received ctx s = (rc, c, s')" and "rx_ok ctx"
  shows "rx_ok c \<and> rs_cfg c = rs_cfg ctx \<and> rs_t35_us c = rs_t35_us ctx \<and> rs_transport c = rs_transport ctx \<and>
    bus s' = bus s \<and> line_clk s' = line_clk s \<and> line_tx s' = line_tx s \<and> drains s' = drains s \<and> (rc = 0 \<or> rc = - 1) \<and>
    (rc = - 1 \<longrightarrow> rs_rx_len c < 256)"
proof -
  define c0 where "c0 = (if stale ctx (now s) then reset_rx_state ctx else ctx)"
  have c: "rx_ok c0" "rs_cfg c0 = rs_cfg ctx" "rs_t35_us c0 = rs_t35_us ctx" "rs_transport c0 = rs_transport ctx"
    using assms(2) by (simp_all add: c0_def rx_ok_def reset_rx_state_def)
  have le: "rs_rx_len c0 \<le> 256" using c(1) by (simp add: rx_ok_def)
  have rc: "read_rc e = 0 \<or> read_rc e = - 1" for e by (simp add: read_rc_def split: option.split rx_event.split)
  note rec = assms(1)[unfolded received_def Let_def, folded c0_def]
  show ?thesis
  proof (cases "256 - rs_rx_len c0 \<le> length (rx_bytes (line s))")
    case True
    then show ?thesis using rec c le took_ok[OF c(1)] by auto
  next
    case False
    then have "rs_rx_len c0 + length (rx_bytes (line s)) < 256" using le by linarith
    then show ?thesis using rec c took_ok[OF c(1)] rc[of "rx_stop (line s)"] False by auto
  qed
qed

text \<open>One call: read, search, and answer what was found.\<close>

lemma on_process_received:
  assumes "rx_ok ctx" and rec: "received ctx s = (rc, c, s')"
  shows "rc \<noteq> 0 \<Longrightarrow> rtu_server_on_process J ctx u fd s = Some (- 1, c, u, s')"
    and "rc = 0 \<Longrightarrow> next_request (buffered c) = (None, r) \<Longrightarrow>
      \<exists>ctx'. rx_ok ctx' \<and> buffered ctx' = r \<and> rs_cfg ctx' = rs_cfg ctx \<and> rs_t35_us ctx' = rs_t35_us ctx \<and> rs_transport ctx' = rs_transport ctx \<and>
        rtu_server_on_process J ctx u fd s = Some (0, ctx', u, s')"
    and "rc = 0 \<Longrightarrow> next_request (buffered c) = (Some (rtu_adu (uid # fc # pdu)), r) \<Longrightarrow> length pdu \<le> 252 \<Longrightarrow>
      \<exists>ctx'. rx_ok ctx' \<and> buffered ctx' = r \<and> rs_cfg ctx' = rs_cfg ctx \<and> rs_t35_us ctx' = rs_t35_us ctx \<and> rs_transport ctx' = rs_transport ctx \<and>
        rtu_server_on_process J ctx u fd s =
          (if \<not> serves ctx uid fc then Some (0, ctx', u, s')
           else do {
             ((k, u), resp) \<leftarrow> call_at 1 (mb_pdu_handle_request (stack_above 512 J) (rs_handlers (rs_cfg ctx)) u
               (fc # pdu @ crc_bytes (crc_of (uid # fc # pdu)) @ drop (length pdu + 4) (local8 J 256)) (Suc (length pdu)))
               (local8 (stack_above 256 J) 256);
             if uid = 0 then Some (0, ctx', u, s')
             else do {
               resp \<leftarrow> wr resp 0 uid;
               (rc, resp) \<leftarrow> mb_rtu_append_crc (Some resp) (1 + k) 256;
               if rc \<noteq> 0 then Some (- 1, ctx', u, s')
               else finish ctx' fd (rs_last_rx_us c) (the resp) (1 + k + 2) u s' } })"
proof -
  let ?c0 = "if stale ctx (now s) then reset_rx_state ctx else ctx" and ?s = "s\<lparr>line_ticks := Suc (line_ticks s)\<rparr>"
  have "rx_ok ?c0" using assms(1) by (simp add: rx_ok_def reset_rx_state_def)
  note read = read_available[OF this, of "now s" ?s]
  have "read_available_bytes ?c0 (now s) ?s = Some (received ctx s)"
    unfolding read received_def Let_def by simp
  with rec have read: "read_available_bytes ?c0 (now s) ?s = Some (rc, c, s')" by simp
  note keeps = received_keeps[OF rec assms(1)]
  have okc: "rx_ok c" using keeps by blast
  note unf = rtu_server_on_process_def current_time_now prod.case Let_def stale_def[symmetric] read
  from extract_scan[OF okc length_local8] obtain ctx' where
    ex: "extract_request_frame c (local8 J 256) 256 0 =
      (case next_request (buffered c) of
         (None, r) \<Rightarrow> Some (0, ctx', local8 J 256, 0)
       | (Some f, r) \<Rightarrow> Some (1, ctx', blit (local8 J 256) 0 f, length f))"
    and ctx': "rx_ok ctx'" "buffered ctx' = snd (next_request (buffered c))" "rs_cfg ctx' = rs_cfg ctx" "rs_t35_us ctx' = rs_t35_us ctx \<and> rs_transport ctx' = rs_transport ctx"
    using keeps by auto
  show "rtu_server_on_process J ctx u fd s = Some (- 1, c, u, s')" if "rc \<noteq> 0"
    using that keeps by (simp add: unf)
  show "\<exists>ctx'. rx_ok ctx' \<and> buffered ctx' = r \<and> rs_cfg ctx' = rs_cfg ctx \<and> rs_t35_us ctx' = rs_t35_us ctx \<and> rs_transport ctx' = rs_transport ctx \<and>
      rtu_server_on_process J ctx u fd s = Some (0, ctx', u, s')" if "rc = 0" "next_request (buffered c) = (None, r)"
    using that ctx' ex by (intro exI[of _ ctx']) (simp add: unf)
  show "\<exists>ctx'. rx_ok ctx' \<and> buffered ctx' = r \<and> rs_cfg ctx' = rs_cfg ctx \<and> rs_t35_us ctx' = rs_t35_us ctx \<and> rs_transport ctx' = rs_transport ctx \<and>
        rtu_server_on_process J ctx u fd s =
          (if \<not> serves ctx uid fc then Some (0, ctx', u, s')
           else do {
             ((k, u), resp) \<leftarrow> call_at 1 (mb_pdu_handle_request (stack_above 512 J) (rs_handlers (rs_cfg ctx)) u
               (fc # pdu @ crc_bytes (crc_of (uid # fc # pdu)) @ drop (length pdu + 4) (local8 J 256)) (Suc (length pdu)))
               (local8 (stack_above 256 J) 256);
             if uid = 0 then Some (0, ctx', u, s')
             else do {
               resp \<leftarrow> wr resp 0 uid;
               (rc, resp) \<leftarrow> mb_rtu_append_crc (Some resp) (1 + k) 256;
               if rc \<noteq> 0 then Some (- 1, ctx', u, s')
               else finish ctx' fd (rs_last_rx_us c) (the resp) (1 + k + 2) u s' } })"
    if "rc = 0" and scan: "next_request (buffered c) = (Some (rtu_adu (uid # fc # pdu)), r)" and "length pdu \<le> 252"
  proof -
    let ?f = "rtu_adu (uid # fc # pdu)" and ?j = "drop (length pdu + 4) (local8 J 256)"
    have adu: "blit (local8 J 256) 0 ?f = uid # fc # pdu @ crc_bytes (crc_of (uid # fc # pdu)) @ ?j"
      by (simp add: blit_def rtu_adu_def add.commute)
    have ex': "extract_request_frame c (local8 J 256) 256 0 =
        Some (1, ctx', uid # fc # pdu @ crc_bytes (crc_of (uid # fc # pdu)) @ ?j, length pdu + 4)"
      using ex scan adu by simp
    have match: "unit_id_matches ctx' uid = unit_id_matches ctx uid" using ctx'(3) by (simp add: unit_id_matches_def)
    show ?thesis using that(1) ctx' scan ex' match
      by (intro exI[of _ ctx']) (auto simp: unf serves_def finish_def cong: if_cong)
  qed
qed

section \<open>Sending the response\<close>

text \<open>
  The bus after a response: the pause that completes the silence asked for, then, between the two
  calls of the transmit-enable hook if there is one, the frame, or a part of it when the call
  reports an error.
\<close>

definition sends :: "'u mb_rtu_server_ctx \<Rightarrow> u64 \<Rightarrow> u8 list \<Rightarrow> serial \<Rightarrow> c_int \<Rightarrow> serial \<Rightarrow> bool" where
  "sends ctx since frame s rc s' \<longleftrightarrow>
     (\<exists>p es k. bus s' = bus s @ pauses p @ hooked (rs_tx_hook (rs_cfg ctx)) es \<and>
        outs_only es \<and> out_bytes es = take k frame \<and> k \<le> length frame \<and>
        (rc = 0 \<and> k = length frame \<or> rc = - 1) \<and> (tx_takes s \<longrightarrow> rc = 0) \<and>
        unat (srv_inter_frame_us ctx) \<le> unat p + (unat (now s) - unat since))"

definition echo_ends :: "'u mb_rtu_server_ctx \<Rightarrow> serial \<Rightarrow> bool" where
  "echo_ends ctx s \<longleftrightarrow> rs_local_echo (rs_cfg ctx) = 0 \<or> clock_passes s (ucast (effective_timeout_ms ctx) * 1000)"

lemma clock_passes_cong: "line_clk s' = line_clk s \<Longrightarrow> clock_passes s' d = clock_passes s d"
  using now_at_cong[of s' s] by (simp add: clock_passes_def)

lemma finish_sends:
  assumes "fd_ok fd" and "length frame \<le> 256" and "echo_ends ctx s"
  shows "\<exists>rc s'. finish ctx fd since (frame @ rest) (length frame) u s = Some (rc, ctx, u, s') \<and>
    sends ctx since frame s rc s' \<and> line_clk s' = line_clk s"
proof -
  let ?hook = "rs_tx_hook (rs_cfg ctx)" and ?n = "length frame"
  from wait_silence[of since "srv_inter_frame_us ctx" s] obtain p t where
    w: "wait_response_silence since (srv_inter_frame_us ctx) s = s\<lparr>line_ticks := t, bus := bus s @ pauses p\<rparr>" (is "_ = ?s1")
    and silent: "unat (srv_inter_frame_us ctx) \<le> unat p + (unat (now s) - unat since)" by blast
  have fits: "?n \<le> length (frame @ rest)" by simp
  from send_frame_trace[OF assms(1) fits, of ?hook True ?s1] obtain rc s2 es k where
    sf: "send_frame ?hook True fd (frame @ rest) ?n ?s1 = Some (rc, s2)" "k \<le> ?n" "same_line ?s1 s2"
    "bus s2 = bus ?s1 @ hooked ?hook es" "outs_only es" "out_bytes es = take k (frame @ rest)"
    "rc = 0 \<and> k = ?n \<or> rc = - 1" by blast
  have clk: "line_clk s2 = line_clk s" using sf(3) by (simp add: same_line_def)
  have takes: "tx_takes s \<longrightarrow> rc = 0"
    using send_frame_takes[OF _ fits, of ?s1 ?hook True fd] sf(1) by (auto simp: tx_takes_def)
  have sends: "sends ctx since frame s rc s3" if "bus s3 = bus s2" for s3
    unfolding sends_def using that sf silent takes by (intro exI[of _ p] exI[of _ es] exI[of _ k]) simp
  have fin: "finish ctx fd since (frame @ rest) ?n u s =
      (if rc \<noteq> 0 then Some (- 1, ctx, u, s2)
       else if rs_local_echo (rs_cfg ctx) \<noteq> 0 then map_option (\<lambda>s. (0, ctx, u, s)) (discard_echo ctx fd ?n s2)
       else Some (0, ctx, u, s2))"
    using w sf(1) by (simp add: finish_def) (cases "discard_echo ctx fd ?n s2"; simp)
  show ?thesis
  proof (cases "rc = 0 \<and> rs_local_echo (rs_cfg ctx) \<noteq> 0")
    case False
    then show ?thesis using fin sf(7) sends[of s2] clk by auto
  next
    case True
    then have "clock_passes s2 (ucast (effective_timeout_ms ctx) * 1000)"
      using assms(3) clock_passes_cong[OF clk] by (simp add: echo_ends_def)
    from discard_echo_returns[OF assms(1,2) this] obtain s3 where
      "discard_echo ctx fd ?n s2 = Some s3" "bus s3 = bus s2" "line_clk s3 = line_clk s2" by blast
    then show ?thesis using fin True sends[of s3] clk by simp
  qed
qed

text \<open>What a call does with the response PDU the PDU layer has built.\<close>

lemma respond_frame:
  assumes "mb_pdu_handle_request J' h u req n (drop 1 resp) = Some ((length rpdu, u'), blit (drop 1 resp) 0 rpdu)"
    and "length rpdu \<le> 252" and "length resp = 256"
  shows "do { ((k, u), resp) \<leftarrow> call_at 1 (mb_pdu_handle_request J' h u req n) resp;
      if b then Some (0, ctx, u, s)
      else do {
        resp \<leftarrow> wr resp 0 uid;
        (rc, resp) \<leftarrow> mb_rtu_append_crc (Some resp) (1 + k) 256;
        if rc \<noteq> 0 then Some (- 1, ctx, u, s)
        else finish ctx fd since (the resp) (1 + k + 2) u s } } =
    (if b then Some (0, ctx, u', s)
     else finish ctx fd since (rtu_adu (uid # rpdu) @ drop (3 + length rpdu) resp) (length (rtu_adu (uid # rpdu))) u' s)"
proof -
  have call: "call_at 1 (mb_pdu_handle_request J' h u req n) resp = Some ((length rpdu, u'), blit resp 1 rpdu)"
    using assms by (intro call_at_blit) simp_all
  have "wr (blit resp 1 rpdu) 0 uid = Some (blit resp 0 (uid # rpdu))"
    using assms(2,3) by (cases resp) (simp_all add: wr_def blit_def)
  moreover have "mb_rtu_append_crc (Some (blit resp 0 (uid # rpdu))) (1 + length rpdu) 256 =
      Some (0, Some (blit resp 0 (rtu_adu (uid # rpdu))))"
    using assms(2,3) by (intro append_crc_frame) simp_all
  moreover have "blit resp 0 (rtu_adu (uid # rpdu)) = rtu_adu (uid # rpdu) @ drop (3 + length rpdu) resp"
    by (simp add: blit_def numeral_3_eq_3)
  ultimately show ?thesis using call by simp
qed

section \<open>One call, whatever is found\<close>

lemma next_request_pdu_length:
  "next_request bs = (Some (rtu_adu (uid # fc # pdu)), r) \<Longrightarrow> length pdu \<le> 252"
  by (auto simp: next_request_Some dest!: head_of_Frame)

text \<open>A call that finds a request, for a PDU layer that builds a response \<open>rpdu\<close> with \<open>P rpdu u'\<close>.\<close>

lemma on_process_answers:
  assumes "rx_ok ctx" and "fd_ok fd" and "echo_ends ctx s" and rec: "received ctx s = (0, c, s1)"
    and scan: "next_request (buffered c) = (Some (rtu_adu (uid # fc # pdu)), r)" and "serves ctx uid fc"
    and h: "\<And>J' rest resp. 252 \<le> length resp \<Longrightarrow> \<exists>rpdu u'. P rpdu u' \<and> length rpdu \<le> 252 \<and>
      mb_pdu_handle_request J' (rs_handlers (rs_cfg ctx)) u (fc # pdu @ rest) (Suc (length pdu)) resp =
        Some ((length rpdu, u'), blit resp 0 rpdu)"
  shows "\<exists>rc ctx' s' rpdu u'. P rpdu u' \<and> length rpdu \<le> 252 \<and> rtu_server_on_process J ctx u fd s = Some (rc, ctx', u', s') \<and>
    rx_ok ctx' \<and> buffered ctx' = r \<and> rs_cfg ctx' = rs_cfg ctx \<and> rs_t35_us ctx' = rs_t35_us ctx \<and> rs_transport ctx' = rs_transport ctx \<and> line_clk s' = line_clk s \<and>
    (if uid = 0 then rc = 0 \<and> bus s' = bus s
     else sends ctx (rs_last_rx_us c) (rtu_adu (uid # rpdu)) s1 rc s')"
proof -
  note keeps = received_keeps[OF rec assms(1)]
  note len = next_request_pdu_length[OF scan]
  let ?J = "stack_above 512 J" and ?rest = "crc_bytes (crc_of (uid # fc # pdu)) @ drop (length pdu + 4) (local8 J 256)"
  let ?resp = "local8 (stack_above 256 J) 256"
  from on_process_received(3)[OF assms(1) rec refl scan len, of J u fd] obtain ctx' where
    ctx': "rx_ok ctx'" "buffered ctx' = r" "rs_cfg ctx' = rs_cfg ctx" "rs_t35_us ctx' = rs_t35_us ctx \<and> rs_transport ctx' = rs_transport ctx" and
    call: "rtu_server_on_process J ctx u fd s = do {
             ((k, u), resp) \<leftarrow> call_at 1 (mb_pdu_handle_request ?J (rs_handlers (rs_cfg ctx)) u (fc # pdu @ ?rest) (Suc (length pdu))) ?resp;
             if uid = 0 then Some (0, ctx', u, s1)
             else do {
               resp \<leftarrow> wr resp 0 uid;
               (rc, resp) \<leftarrow> mb_rtu_append_crc (Some resp) (1 + k) 256;
               if rc \<noteq> 0 then Some (- 1, ctx', u, s1)
               else finish ctx' fd (rs_last_rx_us c) (the resp) (1 + k + 2) u s1 } }"
    using assms(6) by auto
  obtain rpdu u' where P: "P rpdu u'" and h': "mb_pdu_handle_request ?J (rs_handlers (rs_cfg ctx)) u (fc # pdu @ ?rest) (Suc (length pdu)) (drop 1 ?resp) =
      Some ((length rpdu, u'), blit (drop 1 ?resp) 0 rpdu)" "length rpdu \<le> 252"
    using h[of "drop 1 ?resp" ?J ?rest] by auto
  note call = call[unfolded respond_frame[OF h' length_local8]]
  have "effective_timeout_ms ctx' = effective_timeout_ms ctx" using ctx'(3) by (simp add: effective_timeout_ms_def)
  then have e: "echo_ends ctx' s1" using assms(3) keeps ctx'(3) clock_passes_cong[of s1 s] by (simp add: echo_ends_def)
  have sends: "sends ctx' since f s1 rc s' = sends ctx since f s1 rc s'" for since f rc s'
    using ctx' by (simp add: sends_def srv_inter_frame_us_def)
  have flen: "length (rtu_adu (uid # rpdu)) \<le> 256" using h'(2) by simp
  show ?thesis
  proof (cases "uid = 0")
    case True
    then show ?thesis using P h'(2) call ctx' keeps
      by (intro exI[of _ 0] exI[of _ ctx'] exI[of _ s1] exI[of _ rpdu] exI[of _ u']) simp
  next
    case False
    from finish_sends[OF assms(2) flen e, of "rs_last_rx_us c" "drop (3 + length rpdu) ?resp" u'] obtain rc s' where
      "finish ctx' fd (rs_last_rx_us c) (rtu_adu (uid # rpdu) @ drop (3 + length rpdu) ?resp) (length (rtu_adu (uid # rpdu))) u' s1 =
         Some (rc, ctx', u', s')" "sends ctx' (rs_last_rx_us c) (rtu_adu (uid # rpdu)) s1 rc s'" "line_clk s' = line_clk s1" by blast
    then show ?thesis using P h'(2) call ctx' keeps False sends
      by (intro exI[of _ rc] exI[of _ ctx'] exI[of _ s'] exI[of _ rpdu] exI[of _ u']) simp
  qed
qed

text \<open>A call that finds none, or one for somebody else.\<close>

lemma on_process_ignores:
  assumes "rx_ok ctx" and rec: "received ctx s = (rc, c, s1)"
    and "rc \<noteq> 0 \<or> next_request (buffered c) = (None, r) \<or>
      next_request (buffered c) = (Some (rtu_adu (uid # fc # pdu)), r) \<and> \<not> serves ctx uid fc"
  shows "\<exists>ctx'. rtu_server_on_process J ctx u fd s = Some (rc, ctx', u, s1) \<and> rx_ok ctx' \<and> rs_rx_len ctx' < 256 \<and>
    rs_cfg ctx' = rs_cfg ctx \<and> rs_t35_us ctx' = rs_t35_us ctx \<and> rs_transport ctx' = rs_transport ctx \<and> (rc = 0 \<longrightarrow> buffered ctx' = r)"
proof -
  note keeps = received_keeps[OF rec assms(1)]
  have room: "rs_rx_len ctx' < 256" if "rx_ok ctx'" "next_request (buffered c) = (fo, r)" "buffered ctx' = r" for ctx' :: "'a mb_rtu_server_ctx" and fo
    using next_request_rest[OF that(2)] keeps that length_buffered[OF that(1)] by (auto simp: rx_ok_def)
  show ?thesis
  proof (cases "rc = 0")
    case False
    with on_process_received(1)[OF assms(1) rec False, of J u fd] keeps show ?thesis by (intro exI[of _ c]) auto
  next
    case True
    with assms(3) consider "next_request (buffered c) = (None, r)"
      | "next_request (buffered c) = (Some (rtu_adu (uid # fc # pdu)), r)" "\<not> serves ctx uid fc" by blast
    then show ?thesis
    proof cases
      case 1
      from on_process_received(2)[OF assms(1) rec True 1, of J u fd] room[OF _ 1] True show ?thesis by auto
    next
      case 2
      from on_process_received(3)[OF assms(1) rec True 2(1) next_request_pdu_length[OF 2(1)], of J u fd] room[OF _ 2(1)] True 2(2)
      show ?thesis by auto
    qed
  qed
qed

text \<open>A request for this unit in what has been received is answered as the abstract server answers it.\<close>

lemma received_fresh:
  assumes "\<not> stale ctx (now s)" and "rs_rx_len ctx + length (rx_bytes (line s)) < 256"
  shows "received ctx s = (read_rc (rx_stop (line s)), took ctx (now s) (rx_bytes (line s)),
    s\<lparr>line_ticks := Suc (line_ticks s), line := rx_rest (line s)\<rparr>)"
proof -
  have "\<not> 256 - rs_rx_len ctx \<le> length (rx_bytes (line s))" using assms(2) by linarith
  then show ?thesis using assms(1) by (simp add: received_def Let_def)
qed

lemma on_process_serves:
  assumes "device_ok I (rs_handlers (rs_cfg ctx)) d" and "I u" and "rx_ok ctx" and "fd_ok fd" and "echo_ends ctx s"
    and "\<not> stale ctx (now s)" and "rs_rx_len ctx + length (rx_bytes (line s)) < 256" and "read_rc (rx_stop (line s)) = 0"
    and "next_request (buffered ctx @ rx_bytes (line s)) = (Some (rtu_adu (uid # pdu)), later)"
    and "unit_id_matches ctx uid" and "uid \<noteq> 0"
  shows "\<exists>rc ctx' s'. rtu_server_on_process J ctx u fd s = Some (rc, ctx', snd (serve d u pdu), s') \<and>
    rx_ok ctx' \<and> buffered ctx' = later \<and>
    sends ctx (if rx_bytes (line s) = [] then rs_last_rx_us ctx else now s)
      (rtu_adu (uid # reply_pdu (fst (serve d u pdu)))) (s\<lparr>line_ticks := Suc (line_ticks s), line := rx_rest (line s)\<rparr>) rc s'"
proof -
  let ?bs = "rx_bytes (line s)"
  note rec = received_fresh[OF assms(6,7), unfolded assms(8)]
  have buf: "buffered (took ctx (now s) ?bs) = buffered ctx @ ?bs" using buffered_took[OF assms(3)] assms(7) by simp
  obtain fc pdu' where pdu: "pdu = fc # pdu'" by (rule next_request_adu[OF assms(9)]) auto
  note scan = assms(9)[folded buf, unfolded pdu]
  have h: "\<exists>rpdu u'. (rpdu = reply_pdu (fst (serve d u pdu)) \<and> u' = snd (serve d u pdu)) \<and> length rpdu \<le> 252 \<and>
      mb_pdu_handle_request J' (rs_handlers (rs_cfg ctx)) u (fc # pdu' @ rest) (Suc (length pdu')) resp =
        Some ((length rpdu, u'), blit resp 0 rpdu)" if "252 \<le> length resp" for J' rest resp
  proof -
    have "yields (mb_pdu_handle_request J' (rs_handlers (rs_cfg ctx)) u (fc # pdu' @ rest) (Suc (length pdu')) resp) resp (serve d u pdu)"
      using handle_request_serve[OF assms(1,2), of "Suc (length pdu')" "fc # pdu' @ rest" resp J'] that pdu by simp
    then show ?thesis using serve_reply_length[OF assms(1,2), of pdu] pdu by (simp add: yields_def)
  qed
  from on_process_answers[OF assms(3,4,5) rec scan _ h, where J = J] assms(10,11) show ?thesis
    unfolding pdu by (auto simp: serves_def)
qed

end
