(* ===== verification/Rtu_Server_Properties.thy ===== *)
theory Rtu_Server_Properties
  imports Rtu_Server_Facts Rtu_Frame_Properties Register_Bank
begin

text \<open>
  The properties of the RTU server (\<^verbatim>\<open>src/src/modbus_rtu_server.c\<close>) on its transport
  (\<^verbatim>\<open>src/src/modbus_rtu.c\<close>).
\<close>

section \<open>Inputs of the instances\<close>

definition rtu_bank_config :: "server_app_ctx option mb_rtu_server_config" where
  "rtu_bank_config =
     \<lparr>rs_device = Some ''/dev/ttyS1'', rs_baud_rate = 9600, rs_data_bits = 8, rs_stop_bits = 1, rs_parity = 0, rs_unit_id = 1,
      rs_recv_timeout_ms = 1000, rs_inter_frame_delay_us = 0, rs_rs485_mode = 0, rs_local_echo = 0,
      rs_handlers = bank_handlers, rs_tx_hook = True\<rparr>"

definition good_port :: port where
  "good_port = \<lparr>p_mutex = 0, p_open = 5, p_cfsetspeed = True, p_tcsetattr = 0, p_rs485 = 0, p_getfl = 2, p_setfl = 0, p_thread = 0\<rparr>"

definition blank_transport :: mb_rtu_ctx where
  "blank_transport = \<lparr>rt_keep_running = 0,
     rt_cfg = \<lparr>rt_serial = \<lparr>device = None, baud_rate = 0, data_bits = 0, stop_bits = 0, parity = 0, rs485_mode = 0\<rparr>,
       rt_recv_timeout_ms = 0\<rparr>, rt_serial_fd = 0, rt_initialized = 0\<rparr>"

definition rtu_bank_ctx :: "server_app_ctx option mb_rtu_server_ctx" where
  "rtu_bank_ctx = \<lparr>rs_transport = blank_transport, rs_cfg = rtu_bank_config, rs_rx_buffer = replicate 256 0, rs_rx_len = 0,
     rs_last_rx_us = 0, rs_t35_us = 3646\<rparr>"

definition serial_line :: "rx_event list \<Rightarrow> serial" where
  "serial_line evs = \<lparr>line = evs, nonblock = True, line_tx = [], drains = [], selects = [], line_clk = (\<lambda>_. Some (5, 0)),
     line_ticks = 0, bus = [], discards = []\<rparr>"

lemma rtu_bank_ok: "rx_ok rtu_bank_ctx" "buffered rtu_bank_ctx = []" "rs_cfg rtu_bank_ctx = rtu_bank_config"
  "rs_rx_len rtu_bank_ctx = 0" "\<not> stale rtu_bank_ctx t"
  by (simp_all add: rtu_bank_ctx_def rx_ok_def buffered_def stale_def)

section \<open>Finding requests\<close>

text \<open>
  C28. Extraction is a search: on the bytes in the receive buffer \<open>extract_request_frame\<close> finds a
  request exactly if there is a position at which a complete request with a correct checksum
  starts and every position before it has been ruled out; it copies that request, and the bytes
  behind it stay in the buffer. Otherwise the caller's array and length stay, and the bytes that may
  still become a request stay in the buffer. No access is outside a buffer, and at most 255
  bytes are left, so there is always room to read more.
\<close>

theorem extract_request_frame_search:
  assumes "rx_ok ctx" and "length adu = 256"
  shows "\<exists>ctx' found adu' n. extract_request_frame ctx adu 256 0 = Some (found, ctx', adu', n) \<and> rx_ok ctx' \<and> rs_rx_len ctx' < 256 \<and>
    (found = 1 \<and> (\<exists>i f. (\<forall>j<i. head_of (drop j (buffered ctx)) = Skip) \<and> head_of (drop i (buffered ctx)) = Frame (length f) \<and>
         drop i (buffered ctx) = f @ buffered ctx' \<and> n = length f \<and> adu' = blit adu 0 f) \<or>
     found = 0 \<and> (\<exists>i. i \<le> length (buffered ctx) \<and> (\<forall>j<i. head_of (drop j (buffered ctx)) = Skip) \<and>
         head_of (drop i (buffered ctx)) = More \<and> buffered ctx' = drop i (buffered ctx) \<and> n = 0 \<and> adu' = adu))"
proof -
  let ?bs = "buffered ctx"
  obtain fo r where scan: "next_request ?bs = (fo, r)" by fastforce
  from extract_scan[OF assms] scan obtain ctx' where
    ex: "extract_request_frame ctx adu 256 0 =
      (case fo of None \<Rightarrow> Some (0, ctx', adu, 0) | Some f \<Rightarrow> Some (1, ctx', blit adu 0 f, length f))"
    and ctx': "rx_ok ctx'" "buffered ctx' = r" by auto
  have room: "rs_rx_len ctx' < 256"
    using next_request_rest[OF scan] assms(1) ctx' length_buffered[OF ctx'(1)] by (simp add: rx_ok_def)
  show ?thesis
  proof (cases fo)
    case None
    with scan obtain i where "i \<le> length ?bs" "\<forall>j<i. head_of (drop j ?bs) = Skip" "head_of (drop i ?bs) = More" "r = drop i ?bs"
      using next_request_None_iff[of ?bs r] by auto
    then show ?thesis using None ex ctx' room by (intro exI[of _ ctx'] exI[of _ 0] exI[of _ adu]) auto
  next
    case (Some f)
    with scan obtain i where "\<forall>j<i. head_of (drop j ?bs) = Skip" "head_of (drop i ?bs) = Frame (length f)" "drop i ?bs = f @ r"
      by (auto simp: next_request_Some)
    then show ?thesis using Some ex ctx' room
      by (intro exI[of _ ctx'] exI[of _ 1] exI[of _ "blit adu 0 f"] exI[of _ "length f"]) auto
  qed
qed

theorem extract_request_frame_search_witness:
  "\<exists>ctx'. extract_request_frame (took rtu_bank_ctx 7 [9, 1]) (replicate 256 0) 256 0 = Some (0, ctx', replicate 256 0, 0) \<and>
     buffered ctx' = [9, 1]"
proof -
  let ?c = "took rtu_bank_ctx 7 [9, 1]"
  have ok: "rx_ok ?c" "buffered ?c = [9, 1]"
    using took_ok[OF rtu_bank_ok(1), of "[9, 1]" 7] buffered_took[OF rtu_bank_ok(1), of "[9, 1]" 7] by (simp_all add: rtu_bank_ok)
  have more: "head_of (drop j [9, 1]) = More" for j by (cases j; cases "j - 1") (simp_all add: head_of_def checked_def)
  from extract_request_frame_search[OF ok(1), of "replicate 256 0"] obtain ctx' i where
    "extract_request_frame ?c (replicate 256 0) 256 0 = Some (0, ctx', replicate 256 0, 0)" "buffered ctx' = drop i [9, 1]"
    "\<forall>j<i. head_of (drop j [9, 1]) = Skip" unfolding ok(2) by (auto simp: more)
  moreover from this(3) have "i = 0" using more by (cases i) auto
  ultimately show ?thesis by simp
qed

section \<open>Answers\<close>

text \<open>
  C29. A request is answered: when the bytes in the buffer and the bytes on the line, in any
  segmentation, hold a request for this unit behind bytes that are none, one call takes the request
  out, leaves the bytes behind it in the buffer and the application in the state of the abstract
  server, waits until the line has been silent for the inter-frame delay since the request was
  read, and puts exactly the framed reply of the abstract server on the bus, between the two calls
  of the transmit-enable hook; when writing fails a part of the frame is on the bus and the call
  returns -1.
\<close>

theorem rtu_server_answers:
  assumes "device_ok I (rs_handlers (rs_cfg ctx)) d" and "I u" and "rx_ok ctx" and "fd_ok fd" and "echo_ends ctx s"
    and "\<not> stale ctx (now s)" and "rs_rx_len ctx + length (rx_bytes (line s)) < 256" and "read_rc (rx_stop (line s)) = 0"
    and "next_request (buffered ctx @ rx_bytes (line s)) = (Some (rtu_adu (uid # pdu)), later)"
    and "unit_id_matches ctx uid" and "uid \<noteq> 0"
  shows "\<exists>rc ctx' s'. rtu_server_on_process J ctx u fd s = Some (rc, ctx', snd (serve d u pdu), s') \<and>
    rx_ok ctx' \<and> buffered ctx' = later \<and>
    sends ctx (if rx_bytes (line s) = [] then rs_last_rx_us ctx else now s)
      (rtu_adu (uid # reply_pdu (fst (serve d u pdu)))) (s\<lparr>line_ticks := Suc (line_ticks s), line := rx_rest (line s)\<rparr>) rc s'"
  using on_process_serves[OF assms] .

text \<open>A read of two registers at address 0 from unit 1, in two segments with an interrupted call between.\<close>

definition rtu_split_read :: "rx_event list" where
  "rtu_split_read = [Seg 1 [3, 0], RxErr EINTR, Seg 0 [0, 2, 0xC4, 0x0B]]"

lemma rtu_read_frame: "rtu_adu [1, 3, 0, 0, 0, 2] = [1, 3, 0, 0, 0, 2, 0xC4, 0x0B]"
  by code_simp

lemma rtu_read_found: "next_request [1, 3, 0, 0, 0, 2, 0xC4, 0x0B] = (Some [1, 3, 0, 0, 0, 2, 0xC4, 0x0B], [])"
proof -
  have "crc_of [1, 3, 0, 0, 0, 2, 0xC4, 0x0B] = 0" using crc_of_rtu_adu[of "[1, 3, 0, 0, 0, 2]"] by (simp add: rtu_read_frame)
  then have "head_of [1, 3, 0, 0, 0, 2, 0xC4, 0x0B] = Frame 8" by (simp add: head_of_def checked_def)
  then show ?thesis by (simp add: next_request.simps)
qed

lemma rtu_bank_device: "device_ok bank_ok (rs_handlers (rs_cfg rtu_bank_ctx)) bank_device"
  using bank.ok by (simp add: rtu_bank_ok rtu_bank_config_def)

lemma rtu_bank_line: "fd_ok 5" "echo_ends rtu_bank_ctx s" "unit_id_matches rtu_bank_ctx 1"
  by (simp_all add: fd_ok_def echo_ends_def rtu_bank_ok rtu_bank_config_def unit_id_matches_def)

theorem rtu_server_answers_witness:
  "\<exists>rc ctx' s'. rtu_server_on_process zero_stack rtu_bank_ctx None 5 (serial_line rtu_split_read) = Some (rc, ctx', None, s') \<and>
     rx_ok ctx' \<and> buffered ctx' = [] \<and>
     sends rtu_bank_ctx 5000000 (rtu_adu [1, 0x83, 2])
       ((serial_line rtu_split_read)\<lparr>line_ticks := 1, line := []\<rparr>) rc s'"
proof -
  let ?s = "serial_line rtu_split_read"
  have bytes: "rx_bytes (line ?s) = [1, 3, 0, 0, 0, 2, 0xC4, 0x0B]" by (simp add: serial_line_def rtu_split_read_def)
  have now: "now ?s = 5000000" by (simp add: serial_line_def now_at_def)
  have serve: "serve bank_device None [3, 0, 0, 0, 2] = (ExcReply 3 2, None)"
    by (simp add: serve_read_regs_def bank_device_def bank_read_def of_be16_def valid_qty_def in_range_def exception_from_callback_rc_def)
  have "read_rc (rx_stop (line ?s)) = 0" "rx_rest (line ?s) = []" "line_ticks ?s = 0" by (simp_all add: serial_line_def rtu_split_read_def read_rc_def)
  then show ?thesis
    using rtu_server_answers[OF rtu_bank_device _ rtu_bank_ok(1) rtu_bank_line(1,2) rtu_bank_ok(5), of None ?s 1 "[3, 0, 0, 0, 2]" "[]" zero_stack]
      rtu_read_found rtu_bank_line(3) serve now
    by (simp add: bytes rtu_bank_ok rtu_read_frame bank_ok_def)
qed

text \<open>
  C30. Broadcasts: a write to unit 0 is carried out exactly as by the abstract server and any other
  request to unit 0 has no effect; neither is answered, so nothing at all appears on the bus.
\<close>

theorem rtu_broadcast_never_answered:
  assumes "device_ok I (rs_handlers (rs_cfg ctx)) d" and "I u" and "rx_ok ctx" and "fd_ok fd"
    and "\<not> stale ctx (now s)" and "rs_rx_len ctx + length (rx_bytes (line s)) < 256" and "read_rc (rx_stop (line s)) = 0"
    and "next_request (buffered ctx @ rx_bytes (line s)) = (Some (rtu_adu (0 # pdu)), later)"
  shows "\<exists>ctx' s'. rtu_server_on_process J ctx u fd s =
      Some (0, ctx', if mb_pdu_is_write (hd pdu) then snd (serve d u pdu) else u, s') \<and>
    rx_ok ctx' \<and> buffered ctx' = later \<and> bus s' = bus s"
proof -
  let ?bs = "rx_bytes (line s)" and ?s = "s\<lparr>line_ticks := Suc (line_ticks s), line := rx_rest (line s)\<rparr>"
  note rec = received_fresh[OF assms(5,6), unfolded assms(7)]
  have buf: "buffered (took ctx (now s) ?bs) = buffered ctx @ ?bs" using buffered_took[OF assms(3)] assms(6) by simp
  obtain fc pdu' where pdu: "pdu = fc # pdu'" by (rule next_request_adu[OF assms(8)]) auto
  note scan = assms(8)[folded buf, unfolded pdu]
  show ?thesis
  proof (cases "mb_pdu_is_write fc")
    case False
    then have "\<not> serves ctx 0 fc" by (simp add: serves_def)
    with on_process_ignores[OF assms(3) rec, of later 0 fc pdu' J u fd] scan False show ?thesis by (auto simp: pdu)
  next
    case True
    have "unit_id_matches ctx 0" by (simp add: unit_id_matches_def)
    note len = next_request_pdu_length[OF scan]
    let ?rest = "crc_bytes (crc_of (0 # fc # pdu')) @ drop (length pdu' + 4) (local8 J 256)"
    let ?resp = "local8 (stack_above 256 J) 256"
    have "yields (mb_pdu_handle_request (stack_above 512 J) (rs_handlers (rs_cfg ctx)) u (fc # pdu' @ ?rest) (Suc (length pdu')) (drop 1 ?resp))
        (drop 1 ?resp) (serve d u pdu)"
      using handle_request_serve[OF assms(1,2), of "Suc (length pdu')" "fc # pdu' @ ?rest" "drop 1 ?resp" "stack_above 512 J"] pdu by simp
    note h = this[unfolded yields_def]
    from serve_reply_length[OF assms(1,2), of pdu] pdu have l: "length (reply_pdu (fst (serve d u pdu))) \<le> 252" by simp
    from on_process_received(3)[OF assms(3) rec refl scan len, of J u fd, unfolded respond_frame[OF h l length_local8]] True
      \<open>unit_id_matches ctx 0\<close> show ?thesis by (auto simp: serves_def pdu)
  qed
qed

theorem rtu_broadcast_never_answered_witness:
  "\<exists>ctx' s'. rtu_server_on_process zero_stack rtu_bank_ctx None 5 (serial_line [Seg 0 [3, 0, 0, 0, 2, 0xC5, 0xDA]]) =
     Some (0, ctx', None, s') \<and> rx_ok ctx' \<and> buffered ctx' = [] \<and> bus s' = []"
proof -
  let ?s = "serial_line [Seg 0 [3, 0, 0, 0, 2, 0xC5, 0xDA]]"
  have f: "rtu_adu [0, 3, 0, 0, 0, 2] = [0, 3, 0, 0, 0, 2, 0xC5, 0xDA]" by code_simp
  then have "crc_of [0, 3, 0, 0, 0, 2, 0xC5, 0xDA] = 0" using crc_of_rtu_adu[of "[0, 3, 0, 0, 0, 2]"] by simp
  then have "head_of [0, 3, 0, 0, 0, 2, 0xC5, 0xDA] = Frame 8" by (simp add: head_of_def checked_def)
  then have "next_request [0, 3, 0, 0, 0, 2, 0xC5, 0xDA] = (Some [0, 3, 0, 0, 0, 2, 0xC5, 0xDA], [])" by (simp add: next_request.simps)
  moreover have "rx_bytes (line ?s) = [0, 3, 0, 0, 0, 2, 0xC5, 0xDA]" "read_rc (rx_stop (line ?s)) = 0" "bus ?s = []"
    by (simp_all add: serial_line_def read_rc_def)
  moreover have "\<not> mb_pdu_is_write 3" by (simp add: mb_pdu_is_write_def)
  ultimately show ?thesis
    using rtu_broadcast_never_answered[OF rtu_bank_device _ rtu_bank_ok(1) rtu_bank_line(1) rtu_bank_ok(5), of None ?s "[3, 0, 0, 0, 2]" "[]" zero_stack] f
    by (simp add: rtu_bank_ok bank_ok_def)
qed

text \<open>
  Requests in pieces: while the bytes received so far hold no complete request, a call answers
  nothing and leaves the application alone, and it loses nothing: whatever arrives afterwards, the
  search on the buffer and the new bytes ends as the search on all the bytes.
\<close>

theorem rtu_server_waits:
  assumes "rx_ok ctx" and "\<not> stale ctx (now s)" and "rs_rx_len ctx + length (rx_bytes (line s)) < 256"
    and "read_rc (rx_stop (line s)) = 0" and "fst (next_request (buffered ctx @ rx_bytes (line s))) = None"
  shows "\<exists>ctx' s'. rtu_server_on_process J ctx u fd s = Some (0, ctx', u, s') \<and> rx_ok ctx' \<and> bus s' = bus s \<and>
    line s' = rx_rest (line s) \<and>
    (\<forall>more. next_request (buffered ctx' @ more) = next_request (buffered ctx @ rx_bytes (line s) @ more))"
proof -
  let ?bs = "rx_bytes (line s)"
  note rec = received_fresh[OF assms(2,3), unfolded assms(4)]
  have buf: "buffered (took ctx (now s) ?bs) = buffered ctx @ ?bs" using buffered_took[OF assms(1)] assms(3) by simp
  obtain r where scan: "next_request (buffered ctx @ ?bs) = (None, r)" using assms(5) by (cases "next_request (buffered ctx @ ?bs)") auto
  have "next_request (r @ more) = next_request (buffered ctx @ ?bs @ more)" for more
    using next_request_append[of "buffered ctx @ ?bs" more] scan by simp
  with on_process_ignores[OF assms(1) rec, of r undefined undefined undefined J u fd] scan buf show ?thesis by auto
qed

theorem rtu_server_waits_witness:
  "\<exists>ctx' s'. rtu_server_on_process zero_stack rtu_bank_ctx None 5 (serial_line [Seg 1 [3, 0], RxErr EAGAIN]) = Some (0, ctx', None, s') \<and>
     bus s' = [] \<and> next_request (buffered ctx' @ [0, 0, 2, 0xC4, 0x0B]) = (Some [1, 3, 0, 0, 0, 2, 0xC4, 0x0B], [])"
proof -
  let ?s = "serial_line [Seg 1 [3, 0], RxErr EAGAIN]"
  have s: "rx_bytes (line ?s) = [1, 3, 0]" "read_rc (rx_stop (line ?s)) = 0" "bus ?s = []" by (simp_all add: serial_line_def read_rc_def)
  have "head_of [1, 3, 0] = More" by (simp add: head_of_def checked_def)
  then have n: "fst (next_request [1, 3, 0]) = None" by (simp add: next_request.simps)
  from rtu_server_waits[OF rtu_bank_ok(1,5), of ?s zero_stack None 5] n obtain ctx' s' where
    "rtu_server_on_process zero_stack rtu_bank_ctx None 5 ?s = Some (0, ctx', None, s')" "bus s' = []"
    "\<forall>more. next_request (buffered ctx' @ more) = next_request ([1, 3, 0] @ more)" by (auto simp: s rtu_bank_ok)
  then show ?thesis using rtu_read_found by auto
qed

section \<open>Every script\<close>

text \<open>The possible effects of a call on the bus.\<close>

definition answered :: "'u mb_rtu_server_ctx \<Rightarrow> serial \<Rightarrow> c_int \<Rightarrow> serial \<Rightarrow> bool" where
  "answered ctx s rc s' \<longleftrightarrow>
     (\<exists>c s1 uid fc pdu r rpdu. received ctx s = (0, c, s1) \<and> next_request (buffered c) = (Some (rtu_adu (uid # fc # pdu)), r) \<and>
        uid \<noteq> 0 \<and> unit_id_matches ctx uid \<and> sends ctx (rs_last_rx_us c) (rtu_adu (uid # rpdu)) s1 rc s' \<and>
        2 \<le> length rpdu \<and> length rpdu \<le> 252 \<and> (hd rpdu = fc \<or> hd rpdu = fc OR MODBUS_EXCEPTION_FLAG \<and> length rpdu = 2))"

text \<open>
  What a call needs of the application: in the states \<open>Q\<close> a request is answered with a PDU for its function
  code, in a state that is again one of them.
\<close>

definition replies_within :: "('u \<Rightarrow> bool) \<Rightarrow> 'u mb_pdu_handlers \<Rightarrow> bool" where
  "replies_within Q h \<longleftrightarrow> (\<forall>J u fc pdu rest resp. Q u \<longrightarrow> 252 \<le> length resp \<longrightarrow>
     (\<exists>rpdu u'. Q u' \<and> 2 \<le> length rpdu \<and> (hd rpdu = fc \<or> hd rpdu = fc OR 0x80 \<and> length rpdu = 2) \<and> length rpdu \<le> 252 \<and>
        mb_pdu_handle_request J h u (fc # pdu @ rest) (Suc (length pdu)) resp = Some ((length rpdu, u'), blit resp 0 rpdu)))"

lemma keeps_arrays_replies: "keeps_arrays h \<Longrightarrow> replies_within (\<lambda>_. True) h"
  unfolding replies_within_def
proof (intro allI impI)
  fix J u fc pdu rest and resp :: "u8 list" assume "keeps_arrays h" "252 \<le> length resp"
  from handle_request_stores[OF this(1), of "Suc (length pdu)" "fc # pdu @ rest" resp J u] this(2)
  show "\<exists>rpdu u'. True \<and> 2 \<le> length rpdu \<and> (hd rpdu = fc \<or> hd rpdu = fc OR 0x80 \<and> length rpdu = 2) \<and> length rpdu \<le> 252 \<and>
        mb_pdu_handle_request J h u (fc # pdu @ rest) (Suc (length pdu)) resp = Some ((length rpdu, u'), blit resp 0 rpdu)"
    by (auto simp: stores_reply_def)
qed

lemma serve_reply_starts:
  "hd (reply_pdu (fst (serve d u (fc # pdu)))) = fc \<or>
   hd (reply_pdu (fst (serve d u (fc # pdu)))) = fc OR 0x80 \<and> length (reply_pdu (fst (serve d u (fc # pdu)))) = 2"
proof -
  let ?P = "\<lambda>ru. hd (reply_pdu (fst ru)) = fc \<or> hd (reply_pdu (fst ru)) = fc OR 0x80 \<and> length (reply_pdu (fst ru)) = 2"
  have exc: "?P (ExcReply fc ex, u)" for ex and u :: 'a by simp
  have wr: "?P (write_result fc addr v res)" for addr v and res :: "c_int \<times> 'a" by (simp add: write_result_def read_req_def)
  have regs: "?P (serve_read_regs d u fc addr n)" for addr n
    by (simp add: serve_read_regs_def split: option.split prod.split)
  have bits: "?P (serve_read_bits d u fc addr n)" for addr n
    by (simp add: serve_read_bits_def split: option.split prod.split)
  have writes: "?P (serve_write_coil d u fc addr v)" "?P (serve_write_reg d u fc addr v)" "?P (serve_write_coils d u fc addr v body)"
    "?P (serve_write_regs d u fc addr v body)" for addr v body
    using wr exc
    by (simp_all only: serve_write_coil_def serve_write_reg_def serve_write_coils_def serve_write_regs_def split: option.split if_split) blast+
  show ?thesis
    using regs bits writes exc by (cases "(d, u, fc # pdu)" rule: serve.cases) (simp_all only: serve.simps Let_def list.inject prod.inject split: if_split, blast+)
qed

lemma device_replies: "device_ok I h d \<Longrightarrow> replies_within I h"
  unfolding replies_within_def
proof (intro allI impI)
  fix J u fc pdu rest and resp :: "u8 list" assume ok: "device_ok I h d" "I u" "252 \<le> length resp"
  obtain r u' where r: "serve d u (fc # pdu) = (r, u')" by fastforce
  have "yields (mb_pdu_handle_request J h u (fc # pdu @ rest) (Suc (length pdu)) resp) resp (r, u')"
    using handle_request_serve[OF ok(1,2), of "Suc (length pdu)" "fc # pdu @ rest" resp J] ok(3) r by simp
  moreover have "I u'" using serve_keeps[OF ok(1,2), of "fc # pdu"] r by simp
  moreover have "2 \<le> length (reply_pdu r)" "length (reply_pdu r) \<le> 252" using serve_reply_length[OF ok(1,2), of "fc # pdu"] r by simp_all
  moreover have "hd (reply_pdu r) = fc \<or> hd (reply_pdu r) = fc OR 0x80 \<and> length (reply_pdu r) = 2"
    using serve_reply_starts[of d u fc pdu] r by simp
  ultimately show "\<exists>rpdu u'. I u' \<and> 2 \<le> length rpdu \<and> (hd rpdu = fc \<or> hd rpdu = fc OR 0x80 \<and> length rpdu = 2) \<and> length rpdu \<le> 252 \<and>
        mb_pdu_handle_request J h u (fc # pdu @ rest) (Suc (length pdu)) resp = Some ((length rpdu, u'), blit resp 0 rpdu)"
    unfolding yields_def fst_conv snd_conv by blast
qed

lemma rtu_server_call_within:
  assumes "rx_ok ctx" and "fd_ok fd" and "echo_ends ctx s" and h: "replies_within Q (rs_handlers (rs_cfg ctx))" "Q u"
  shows "\<exists>rc ctx' u' s'. rtu_server_on_process J ctx u fd s = Some (rc, ctx', u', s') \<and> (rc = 0 \<or> rc = - 1) \<and> Q u' \<and>
    rx_ok ctx' \<and> rs_rx_len ctx' < 256 \<and> rs_cfg ctx' = rs_cfg ctx \<and> rs_t35_us ctx' = rs_t35_us ctx \<and> rs_transport ctx' = rs_transport ctx \<and> line_clk s' = line_clk s \<and>
    (bus s' = bus s \<or> answered ctx s rc s')"
proof -
  obtain rc c s1 where rec: "received ctx s = (rc, c, s1)" by (cases "received ctx s") auto
  note keeps = received_keeps[OF rec assms(1)]
  obtain fo r where scan: "next_request (buffered c) = (fo, r)" by fastforce
  have r: "length r < 256" using next_request_rest[OF scan] keeps by (simp add: rx_ok_def)
  show ?thesis
  proof (cases "rc = 0 \<and> fo \<noteq> None")
    case False
    then have "rc \<noteq> 0 \<or> next_request (buffered c) = (None, r)" using scan by auto
    with on_process_ignores[OF assms(1) rec, of r undefined undefined undefined J u fd] keeps h(2) show ?thesis by auto
  next
    case True
    then obtain f where f: "fo = Some f" "rc = 0" by auto
    from next_request_adu[OF scan[unfolded f(1)]] obtain uid fc pdu where adu: "f = rtu_adu (uid # fc # pdu)" by metis
    note scan' = scan[unfolded f(1) adu] and rec' = rec[unfolded f(2)]
    show ?thesis
    proof (cases "serves ctx uid fc")
      case False
      with on_process_ignores[OF assms(1) rec', of r uid fc pdu J u fd] scan' keeps f(2) h(2) show ?thesis by auto
    next
      case True
      let ?P = "\<lambda>rpdu u'. Q u' \<and> 2 \<le> length rpdu \<and> (hd rpdu = fc \<or> hd rpdu = fc OR 0x80 \<and> length rpdu = 2)"
      have h: "\<exists>rpdu u'. ?P rpdu u' \<and> length rpdu \<le> 252 \<and>
          mb_pdu_handle_request J' (rs_handlers (rs_cfg ctx)) u (fc # pdu @ rest) (Suc (length pdu)) resp =
            Some ((length rpdu, u'), blit resp 0 rpdu)" if "252 \<le> length resp" for J' rest resp
        using h[unfolded replies_within_def] that by blast
      from on_process_answers[OF assms(1-3) rec' scan' True h, where J = J] obtain rc ctx' s' rpdu u' where
        call: "rtu_server_on_process J ctx u fd s = Some (rc, ctx', u', s')" and
        ctx': "rx_ok ctx'" "buffered ctx' = r" "rs_cfg ctx' = rs_cfg ctx" "rs_t35_us ctx' = rs_t35_us ctx \<and> rs_transport ctx' = rs_transport ctx" "line_clk s' = line_clk s" and
        rpdu: "?P rpdu u'" "length rpdu \<le> 252" and
        out: "if uid = 0 then rc = 0 \<and> bus s' = bus s else sends ctx (rs_last_rx_us c) (rtu_adu (uid # rpdu)) s1 rc s'"
        by blast
      have "rs_rx_len ctx' < 256" using r ctx'(2) length_buffered[OF ctx'(1)] by simp
      moreover have "rc = 0 \<or> rc = - 1" using out by (auto simp: sends_def split: if_splits)
      moreover have "bus s' = bus s \<or> answered ctx s rc s'"
      proof (cases "uid = 0")
        case False
        then have "answered ctx s rc s'" unfolding answered_def using rec' scan' True rpdu out
          by (intro exI[of _ c] exI[of _ s1] exI[of _ uid] exI[of _ fc] exI[of _ pdu] exI[of _ r] exI[of _ rpdu])
             (simp add: serves_def)
        then show ?thesis ..
      qed (use out in simp)
      ultimately show ?thesis using call ctx' rpdu(1) by blast
    qed
  qed
qed

lemmas rtu_server_call = rtu_server_call_within[OF _ _ _ keeps_arrays_replies TrueI]

text \<open>The callback as the transport's thread calls it.\<close>

definition rtu_server_round :: "stack \<Rightarrow> c_int \<Rightarrow> 'u mb_rtu_server_ctx \<times> 'u \<times> serial \<Rightarrow> (c_int \<times> 'u mb_rtu_server_ctx \<times> 'u \<times> serial) option" where
  "rtu_server_round J fd w = (case w of (ctx, u, s) \<Rightarrow> rtu_server_on_process J ctx u fd s)"



section \<open>Starting, running and stopping\<close>

text \<open>What a successful start leaves, and a failed one.\<close>

lemma mb_rtu_start_cases:
  assumes "mb_rtu_start P (Some c) (Some g) h = (rc, tr, h')" and "rt_initialized c = 0"
  shows "rc = - 1 \<and> fds h' = fds h \<and> links h' = links h \<and> (\<exists>t. tr = Some t \<and> rt_initialized t = 0) \<or>
    rc = 0 \<and> 0 \<le> p_open P \<and> fds h' = p_open P # fds h \<and> links h' = links h @ [(p_open P, 1)] \<and>
      (\<exists>t. tr = Some t \<and> rt_initialized t = 1 \<and> rt_keep_running t = 1 \<and> rt_serial_fd t = p_open P) \<and>
      (\<exists>t. attrs h' = (p_open P, t) # attrs h \<and> framed_as (rt_serial g) t)"
proof (cases "device (rt_serial g) = None \<or> device (rt_serial g) = Some [] \<or> p_mutex P \<noteq> 0")
  case True
  with assms have "rc = - 1 \<and> h' = h \<and> (\<exists>t. tr = Some t \<and> rt_initialized t = 0)"
    by (auto simp: mb_rtu_start_def Let_def split: if_splits)
  then show ?thesis by blast
next
  case False
  let ?g = "if rt_recv_timeout_ms g = 0 then g\<lparr>rt_recv_timeout_ms := 1000\<rparr> else g"
  have sg: "rt_serial ?g = rt_serial g" by simp
  obtain orc fo h1 where op: "mb_rtu_open P (Some (- 1)) (Some (rt_serial g)) h = (orc, fo, h1)" by (cases "mb_rtu_open P (Some (- 1)) (Some (rt_serial g)) h") auto
  from False obtain x xs where "device (rt_serial g) = Some (x # xs)" "p_mutex P = 0"
    by (cases "device (rt_serial g)"; cases "the (device (rt_serial g))") auto
  with assms(2) have st: "mb_rtu_start P (Some c) (Some g) h =
      (let c = \<lparr>rt_keep_running = 0, rt_cfg = ?g, rt_serial_fd = the fo, rt_initialized = 0\<rparr> in
       if orc \<noteq> 0 then (- 1, Some c, h1)
       else if p_getfl P < 0 \<or> p_setfl P < 0 then
         (case mb_rtu_close (Some (the fo)) h1 of (fd, h) \<Rightarrow> (- 1, Some (c\<lparr>rt_serial_fd := the fd\<rparr>), h))
       else if p_thread P \<noteq> 0 then
         (case mb_rtu_close (Some (the fo)) h1 of (fd, h) \<Rightarrow> (- 1, Some (c\<lparr>rt_serial_fd := the fd, rt_keep_running := 0\<rparr>), h))
       else (0, Some (c\<lparr>rt_keep_running := 1, rt_initialized := 1\<rparr>), h1\<lparr>links := links h1 @ [(the fo, 1)]\<rparr>))"
    using op by (simp add: mb_rtu_start_def Let_def)
  from mb_rtu_open_fds[OF op] st assms(1) show ?thesis
    by (auto simp: mb_rtu_close_def Let_def split: if_splits)
qed


lemma mb_rtu_server_start_cases:
  assumes "mb_rtu_server_start P (Some c) (Some g) h = (rc, Some ctx, h')"
  shows "rc = - 1 \<and> fds h' = fds h \<and> links h' = links h \<or>
    rc = 0 \<and> 0 \<le> p_open P \<and> fds h' = p_open P # fds h \<and> links h' = links h @ [(p_open P, 1)] \<and>
      rt_initialized (rs_transport ctx) = 1 \<and> rt_serial_fd (rs_transport ctx) = p_open P \<and>
      rx_ok ctx \<and> rs_rx_len ctx = 0 \<and>
      rs_cfg ctx = g\<lparr>rs_recv_timeout_ms := (if rs_recv_timeout_ms g = 0 then 1000 else rs_recv_timeout_ms g)\<rparr> \<and>
      (\<exists>sc t. attrs h' = (p_open P, t) # attrs h \<and> framed_as sc t \<and> rs_t35_us ctx = mb_rtu_t35_us (Some sc))"
proof (cases "rs_device g = None \<or> rs_device g = Some [] \<or> rt_initialized (rs_transport c) \<noteq> 0")
  case True
  with assms have "rc = - 1 \<and> h' = h" by (auto simp: mb_rtu_server_start_def split: if_splits)
  then show ?thesis by simp
next
  case False
  let ?g = "if rs_recv_timeout_ms g = 0 then g\<lparr>rs_recv_timeout_ms := 1000\<rparr> else g"
  let ?sc = "\<lparr>device = rs_device g, baud_rate = rs_baud_rate g, data_bits = rs_data_bits g,
    stop_bits = rs_stop_bits g, parity = rs_parity g, rs485_mode = rs_rs485_mode g\<rparr>"
  let ?tc = "\<lparr>rt_serial = ?sc, rt_recv_timeout_ms = rs_recv_timeout_ms ?g\<rparr>"
  obtain trc tr th where st: "mb_rtu_start P (Some blank_transport) (Some ?tc) h = (trc, tr, th)"
    by (cases "mb_rtu_start P (Some blank_transport) (Some ?tc) h") auto
  have "rt_initialized blank_transport = 0" by (simp add: blank_transport_def)
  note cases = mb_rtu_start_cases[OF st this]
  from False obtain x xs where "rs_device g = Some (x # xs)" "rt_initialized (rs_transport c) = 0"
    by (cases "rs_device g"; cases "the (rs_device g)") auto
  with assms st have e: "rc = trc" "h' = th" "ctx = \<lparr>rs_transport = the tr, rs_cfg = ?g, rs_rx_buffer = replicate 256 0,
      rs_rx_len = 0, rs_last_rx_us = 0, rs_t35_us = mb_rtu_t35_us (Some ?sc)\<rparr>"
    by (simp_all add: mb_rtu_server_start_def Let_def blank_transport_def[symmetric])
  show ?thesis
  proof (cases "rc = 0")
    case False
    with cases e show ?thesis by simp
  next
    case True
    with cases e obtain t a where t: "tr = Some t" "rt_initialized t = 1" "rt_serial_fd t = p_open P"
      "attrs h' = (p_open P, a) # attrs h" "framed_as ?sc a" by auto
    have "rx_ok ctx" "rs_rx_len ctx = 0" "rs_t35_us ctx = mb_rtu_t35_us (Some ?sc)" "rs_transport ctx = t"
      "rs_cfg ctx = g\<lparr>rs_recv_timeout_ms := (if rs_recv_timeout_ms g = 0 then 1000 else rs_recv_timeout_ms g)\<rparr>"
      using e(3) t(1) by (simp_all add: rx_ok_def)
    then show ?thesis using cases e(1,2) True t by auto
  qed
qed


definition no_host :: host where
  "no_host = \<lparr>fds = [], attrs = [], flushes = [], rs485s = [], links = []\<rparr>"

text \<open>A server without callbacks.\<close>

definition quiet_config :: "server_app_ctx option mb_rtu_server_config" where
  "quiet_config = rtu_bank_config\<lparr>rs_handlers := \<lparr>read_registers = None, write_registers = None, read_bits = None, write_bits = None\<rparr>\<rparr>"

lemma quiet_started: "\<exists>ctx h'. mb_rtu_server_start good_port (Some rtu_bank_ctx) (Some quiet_config) no_host = (0, Some ctx, h')"
  by (simp add: mb_rtu_server_start_def quiet_config_def rtu_bank_config_def rtu_bank_ctx_def blank_transport_def mb_rtu_start_def
      mb_rtu_open_def configure_serial_def configure_rs485_def baud_to_speed_def effective_data_bits_def effective_stop_bits_def
      good_port_def no_host_def Let_def)


lemma rtu_server_lifecycle:
  assumes "mb_rtu_server_start P (Some c) (Some g) h = (rc, Some ctx, h')"
    and "replies_within Q (rs_handlers g)" and "Q u" and "p_open P < 1024"
    and "rs_local_echo g = 0 \<or> (\<forall>T. clock_passes s T)"
  shows "if rc \<noteq> 0 then rc = - 1 \<and> fds h' = fds h
    else \<exists>ctx' u' s' stopped h''. mb_rtu_thread (Some (rtu_server_round J)) (rt_serial_fd (rs_transport ctx)) rounds (ctx, u, s) = Some (ctx', u', s') \<and> Q u' \<and>
      rs_rx_len ctx' < 256 \<and> mb_rtu_server_stop (Some ctx') h' = (stopped, h'') \<and>
      fds h'' = fds h \<and> links h'' = links h @ [(p_open P, 1), (p_open P, 0)]"
proof (cases "rc = 0")
  case False
  with mb_rtu_server_start_cases[OF assms(1)] show ?thesis by auto
next
  case True
  with mb_rtu_server_start_cases[OF assms(1)] have st: "0 \<le> p_open P" "fds h' = p_open P # fds h" "links h' = links h @ [(p_open P, 1)]"
      "rt_initialized (rs_transport ctx) = 1" "rt_serial_fd (rs_transport ctx) = p_open P" "rx_ok ctx" "rs_rx_len ctx = 0"
      "rs_cfg ctx = g\<lparr>rs_recv_timeout_ms := (if rs_recv_timeout_ms g = 0 then 1000 else rs_recv_timeout_ms g)\<rparr>" by auto
  let ?I = "\<lambda>(c, v, r). Q v \<and> rx_ok c \<and> rs_rx_len c < 256 \<and> rs_cfg c = rs_cfg ctx \<and> rs_transport c = rs_transport ctx \<and> line_clk r = line_clk s"
  have fd: "fd_ok (p_open P)" using st(1) assms(4) by (simp add: fd_ok_def)
  have step: "\<exists>rc w'. rtu_server_round J (p_open P) w = Some (rc, w') \<and> ?I w'" if I: "?I w" for w
  proof -
    obtain c1 u1 r where w: "w = (c1, u1, r)" by (cases w)
    have "echo_ends c1 r" using I assms(5) st(8) clock_passes_cong[of r s] by (auto simp: w echo_ends_def)
    moreover have "replies_within Q (rs_handlers (rs_cfg c1))" "Q u1" using I assms(2) st(8) by (simp_all add: w)
    ultimately show ?thesis using rtu_server_call_within[of c1 "p_open P" r Q u1 J] I fd by (auto simp: w rtu_server_round_def)
  qed
  from mb_rtu_thread_invariant[of ?I "rtu_server_round J" "p_open P", OF step] st(6,7) assms(3)
  obtain ctx' u' s' where run: "mb_rtu_thread (Some (rtu_server_round J)) (p_open P) rounds (ctx, u, s) = Some (ctx', u', s')"
    "Q u'" "rs_rx_len ctx' < 256" "rs_transport ctx' = rs_transport ctx" by fastforce
  obtain x h'' where stop: "mb_rtu_server_stop (Some ctx') h' = (x, h'')" by (cases "mb_rtu_server_stop (Some ctx') h'") auto
  then have "fds h'' = fds h \<and> links h'' = links h @ [(p_open P, 1), (p_open P, 0)]"
    using st run(4) by (auto simp: mb_rtu_server_stop_def mb_rtu_stop_def mb_rtu_close_def)
  with run stop st(5) True show ?thesis by auto
qed



end
