(* ===== verification/Rtu_Bus.thy ===== *)
theory Rtu_Bus
  imports Rtu_Transport "HOL-Library.Multiset"
begin

text \<open>
  The registry of shared serial buses of \<^verbatim>\<open>src/src/modbus_rtu_client.c\<close>, and connecting and
  disconnecting a client. Client contexts hold pointers to bus records they share, so the records
  live in an explicit heap: a pointer is an address, and an access to an address that is not
  allocated has no defined outcome. The list that starts at \<open>shared_buses\<close> is the list of its
  addresses, in order. \<open>realpath\<close> is a parameter, and so is how \<open>calloc\<close>, the initialisation of a mutex
  and the calls on the port end. Each operation on the registry runs under the registry lock and
  is one step here. The registry is proved free of leaks and dangling pointers, for every run of
  connects and disconnects.
\<close>

section \<open>Records\<close>

abbreviation (input) PATH_MAX :: nat where "PATH_MAX \<equiv> 4096"

record mb_rtu_shared_bus =
  sb_path :: string
  sb_fd :: c_int
  sb_refcnt :: u32
  sb_baud_rate :: u32
  sb_data_bits :: u8
  sb_stop_bits :: u8
  sb_parity :: c_int
  sb_rs485_mode :: c_int
  sb_t35_us :: u32
  sb_has_last_transaction :: bool
  sb_last_unit_id :: u8
  sb_last_release_time :: "u64 \<times> u64"

record mb_rtu_client_config =
  rc_device :: "string option"
  rc_baud_rate :: u32
  rc_data_bits :: u8
  rc_stop_bits :: u8
  rc_parity :: c_int
  rc_unit_id :: u8
  rc_response_timeout_ms :: u32
  rc_inter_frame_delay_us :: u32
  rc_bus_handoff_silence_ms :: u32
  rc_rs485_mode :: c_int
  rc_local_echo :: u8
  rc_tx_hook :: bool

record mb_rtu_client_ctx =
  rc_cfg :: mb_rtu_client_config
  rc_fd :: c_int
  rc_shared_bus :: "nat option"
  rc_initialized :: c_int

text \<open>The heap of bus records, the list of the registry, and the descriptors of the process.\<close>

record registry =
  bus_heap :: "nat \<Rightarrow> mb_rtu_shared_bus option"
  shared_buses :: "nat list"
  reg_host :: host

text \<open>How the calls of one operation end: the address \<open>calloc\<close> returns, if any, whether the mutex of
  the client and of the bus can be initialised, and the port.\<close>

record bus_env =
  e_calloc :: "nat option"
  e_ctx_mutex :: c_int
  e_bus_mutex :: c_int
  e_port :: port
  e_realpath :: "string \<Rightarrow> string option"

section \<open>The registry\<close>

definition effective_baud_rate :: "u32 \<Rightarrow> u32" where
  "effective_baud_rate b = (if b = 0 then 9600 else b)"

definition resolve_bus_key :: "bus_env \<Rightarrow> string \<Rightarrow> c_int \<times> string" where
  "resolve_bus_key E dev =
     (case e_realpath E dev of
        Some key \<Rightarrow> (0, key)
      | None \<Rightarrow> if length dev \<ge> PATH_MAX then (- 1, []) else (0, dev))"

fun find_bus_locked :: "(nat \<Rightarrow> mb_rtu_shared_bus option) \<Rightarrow> nat list \<Rightarrow> string \<Rightarrow> nat option option" where
  "find_bus_locked H [] key = Some None"
| "find_bus_locked H (a # as) key =
     (case H a of
        None \<Rightarrow> None
      | Some b \<Rightarrow> if sb_path b = key then Some (Some a) else find_bus_locked H as key)"

definition bus_settings_match :: "mb_rtu_shared_bus \<Rightarrow> mb_rtu_serial_config \<Rightarrow> bool" where
  "bus_settings_match b serial \<longleftrightarrow>
     sb_baud_rate b = effective_baud_rate (baud_rate serial) \<and>
     sb_data_bits b = effective_data_bits (data_bits serial) \<and>
     sb_stop_bits b = effective_stop_bits (stop_bits serial) \<and>
     sb_parity b = parity serial \<and>
     sb_rs485_mode b = rs485_mode serial"

definition open_bus_locked :: "bus_env \<Rightarrow> string \<Rightarrow> mb_rtu_serial_config \<Rightarrow> registry \<Rightarrow> nat option \<times> registry" where
  "open_bus_locked E key serial R =
     (case e_calloc E of
        None \<Rightarrow> (None, R)
      | Some a \<Rightarrow>
          (case mb_rtu_open (e_port E) (Some (- 1)) (Some serial) (reg_host R) of (rc, fd, h) \<Rightarrow>
             if rc \<noteq> 0 then (None, R\<lparr>reg_host := h\<rparr>)
             else if e_bus_mutex E \<noteq> 0 then (None, R\<lparr>reg_host := snd (mb_rtu_close fd h)\<rparr>)
             else
               let b = \<lparr>sb_path = key, sb_fd = the fd, sb_refcnt = 0, sb_baud_rate = effective_baud_rate (baud_rate serial),
                 sb_data_bits = effective_data_bits (data_bits serial), sb_stop_bits = effective_stop_bits (stop_bits serial),
                 sb_parity = parity serial, sb_rs485_mode = rs485_mode serial, sb_t35_us = mb_rtu_t35_us (Some serial),
                 sb_has_last_transaction = False, sb_last_unit_id = 0, sb_last_release_time = (0, 0)\<rparr>
               in (Some a, R\<lparr>bus_heap := (bus_heap R)(a \<mapsto> b), shared_buses := a # shared_buses R, reg_host := h\<rparr>)))"

definition shared_bus_attach :: "bus_env \<Rightarrow> mb_rtu_serial_config \<Rightarrow> registry \<Rightarrow> (nat option \<times> registry) option" where
  "shared_bus_attach E serial R =
     (case resolve_bus_key E (the (device serial)) of (krc, key) \<Rightarrow>
        if krc \<noteq> 0 then Some (None, R)
        else do {
          found \<leftarrow> find_bus_locked (bus_heap R) (shared_buses R) key;
          (b, R) \<leftarrow> (case found of
              Some a \<Rightarrow> do {
                r \<leftarrow> bus_heap R a;
                Some (if bus_settings_match r serial then Some a else None, R) }
            | None \<Rightarrow> Some (open_bus_locked E key serial R));
          case b of
            None \<Rightarrow> Some (None, R)
          | Some a \<Rightarrow> do {
              r \<leftarrow> bus_heap R a;
              Some (Some a, R\<lparr>bus_heap := (bus_heap R)(a \<mapsto> r\<lparr>sb_refcnt := sb_refcnt r + 1\<rparr>)\<rparr>) } })"

definition shared_bus_detach :: "nat \<Rightarrow> registry \<Rightarrow> registry option" where
  "shared_bus_detach a R = do {
     r \<leftarrow> bus_heap R a;
     let r = (if sb_refcnt r > 0 then r\<lparr>sb_refcnt := sb_refcnt r - 1\<rparr> else r);
     if sb_refcnt r = 0 then
       Some (R\<lparr>shared_buses := remove1 a (shared_buses R), reg_host := snd (mb_rtu_close (Some (sb_fd r)) (reg_host R)),
               bus_heap := (bus_heap R)(a := None)\<rparr>)
     else Some (R\<lparr>bus_heap := (bus_heap R)(a \<mapsto> r)\<rparr>) }"

section \<open>Connecting and disconnecting\<close>

definition mb_rtu_client_connect ::
    "bus_env \<Rightarrow> mb_rtu_client_ctx option \<Rightarrow> mb_rtu_client_config option \<Rightarrow> registry \<Rightarrow>
     (c_int \<times> mb_rtu_client_ctx option \<times> registry) option" where
  "mb_rtu_client_connect E ctx conf R =
     (case (ctx, conf) of
        (Some c, Some g) \<Rightarrow>
          if rc_device g = None \<or> rc_device g = Some [] then Some (- 1, ctx, R)
          else if rc_initialized c \<noteq> 0 then Some (- 1, ctx, R)
          else do {
            let c = \<lparr>rc_cfg = g, rc_fd = - 1, rc_shared_bus = None, rc_initialized = 0\<rparr>;
            if e_ctx_mutex E \<noteq> 0 then Some (- 1, Some c, R)
            else do {
              let serial = \<lparr>device = rc_device g, baud_rate = rc_baud_rate g, data_bits = rc_data_bits g,
                stop_bits = rc_stop_bits g, parity = rc_parity g, rs485_mode = rc_rs485_mode g\<rparr>;
              (b, R) \<leftarrow> shared_bus_attach E serial R;
              case b of
                None \<Rightarrow> Some (- 1, Some c, R)
              | Some a \<Rightarrow> do {
                  r \<leftarrow> bus_heap R a;
                  Some (0, Some (c\<lparr>rc_shared_bus := Some a, rc_fd := sb_fd r, rc_initialized := 1\<rparr>), R) } } }
      | _ \<Rightarrow> Some (- 1, ctx, R))"

definition mb_rtu_client_disconnect ::
    "mb_rtu_client_ctx option \<Rightarrow> registry \<Rightarrow> (mb_rtu_client_ctx option \<times> registry) option" where
  "mb_rtu_client_disconnect ctx R =
     (case ctx of
        None \<Rightarrow> Some (ctx, R)
      | Some c \<Rightarrow>
          if rc_initialized c = 0 then Some (ctx, R)
          else do {
            a \<leftarrow> rc_shared_bus c;
            R \<leftarrow> shared_bus_detach a R;
            Some (Some (c\<lparr>rc_shared_bus := None, rc_fd := - 1, rc_initialized := 0\<rparr>), R) })"

definition mb_rtu_client_set_unit_id :: "mb_rtu_client_ctx option \<Rightarrow> u8 \<Rightarrow> c_int \<times> mb_rtu_client_ctx option" where
  "mb_rtu_client_set_unit_id ctx unit_id =
     (case ctx of
        None \<Rightarrow> (- 1, ctx)
      | Some c \<Rightarrow>
          if rc_initialized c = 0 then (- 2, ctx)
          else (0, Some (c\<lparr>rc_cfg := (rc_cfg c)\<lparr>rc_unit_id := unit_id\<rparr>\<rparr>)))"

section \<open>Runs\<close>

text \<open>
  An application with a number of client contexts: each step connects, disconnects or re-addresses
  one of them. \<open>calloc\<close> returns memory that is not in use.
\<close>

inductive client_step :: "mb_rtu_client_ctx list \<times> registry \<Rightarrow> mb_rtu_client_ctx list \<times> registry \<Rightarrow> bool" where
  connect: "i < length cs \<Longrightarrow> pred_option (\<lambda>a. bus_heap R a = None) (e_calloc E) \<Longrightarrow>
    mb_rtu_client_connect E (Some (cs ! i)) conf R = Some (rc, Some c, R') \<Longrightarrow> client_step (cs, R) (cs[i := c], R')"
| disconnect: "i < length cs \<Longrightarrow> mb_rtu_client_disconnect (Some (cs ! i)) R = Some (Some c, R') \<Longrightarrow>
    client_step (cs, R) (cs[i := c], R')"
| set_unit_id: "i < length cs \<Longrightarrow> mb_rtu_client_set_unit_id (Some (cs ! i)) unit_id = (rc, Some c) \<Longrightarrow>
    client_step (cs, R) (cs[i := c], R)"

inductive_cases client_stepE: "client_step (cs, R) (cs', R')"

definition uses :: "nat \<Rightarrow> mb_rtu_client_ctx \<Rightarrow> bool" where
  "uses a c \<longleftrightarrow> rc_initialized c \<noteq> 0 \<and> rc_shared_bus c = Some a"

definition users :: "nat \<Rightarrow> mb_rtu_client_ctx list \<Rightarrow> nat" where
  "users a cs = length (filter (uses a) cs)"

text \<open>
  The state of the registry: it lists exactly the allocated records, one for each path, with as many
  references as there are connected clients, at least one; a connected client points to an
  allocated record and has its descriptor; and the descriptors of the process are those of the
  records and the ones it had before.
\<close>

definition bus_of_client :: "registry \<Rightarrow> mb_rtu_client_ctx \<Rightarrow> bool" where
  "bus_of_client R c \<longleftrightarrow> (\<exists>a b. rc_shared_bus c = Some a \<and> bus_heap R a = Some b \<and> rc_fd c = sb_fd b)"

definition record_ok :: "mb_rtu_client_ctx list \<Rightarrow> nat \<Rightarrow> mb_rtu_shared_bus \<Rightarrow> bool" where
  "record_ok cs a b \<longleftrightarrow> unat (sb_refcnt b) = users a cs \<and> 0 < users a cs \<and> 0 \<le> sb_fd b"

definition bus_fds :: "registry \<Rightarrow> c_int multiset" where
  "bus_fds R = image_mset (\<lambda>a. sb_fd (the (bus_heap R a))) (mset (shared_buses R))"

definition registry_ok :: "c_int multiset \<Rightarrow> mb_rtu_client_ctx list \<Rightarrow> registry \<Rightarrow> bool" where
  "registry_ok base cs R \<longleftrightarrow>
     distinct (shared_buses R) \<and> (\<forall>a. bus_heap R a \<noteq> None \<longleftrightarrow> a \<in> set (shared_buses R)) \<and>
     (\<forall>a b. bus_heap R a = Some b \<longrightarrow> record_ok cs a b) \<and>
     (\<forall>a b a' b'. bus_heap R a = Some b \<longrightarrow> bus_heap R a' = Some b' \<longrightarrow> sb_path b = sb_path b' \<longrightarrow> a = a') \<and>
     (\<forall>c \<in> set cs. rc_initialized c \<noteq> 0 \<longrightarrow> bus_of_client R c) \<and>
     mset (fds (reg_host R)) = base + bus_fds R"

lemma registry_okD:
  assumes "registry_ok base cs R"
  shows "distinct (shared_buses R)" "bus_heap R a \<noteq> None \<longleftrightarrow> a \<in> set (shared_buses R)" "bus_heap R a = Some b \<Longrightarrow> record_ok cs a b"
    "bus_heap R a = Some b \<Longrightarrow> bus_heap R a' = Some b' \<Longrightarrow> sb_path b = sb_path b' \<Longrightarrow> a = a'"
    "c \<in> set cs \<Longrightarrow> rc_initialized c \<noteq> 0 \<Longrightarrow> bus_of_client R c" "mset (fds (reg_host R)) = base + bus_fds R"
  using assms unfolding registry_ok_def by blast+

lemma registry_okI:
  assumes "distinct (shared_buses R)" and "\<And>a. bus_heap R a \<noteq> None \<longleftrightarrow> a \<in> set (shared_buses R)"
    and "\<And>a b. bus_heap R a = Some b \<Longrightarrow> record_ok cs a b"
    and "\<And>a b a' b'. bus_heap R a = Some b \<Longrightarrow> bus_heap R a' = Some b' \<Longrightarrow> sb_path b = sb_path b' \<Longrightarrow> a = a'"
    and "\<And>c. c \<in> set cs \<Longrightarrow> rc_initialized c \<noteq> 0 \<Longrightarrow> bus_of_client R c" and "mset (fds (reg_host R)) = base + bus_fds R"
  shows "registry_ok base cs R"
  using assms unfolding registry_ok_def by blast

lemma bus_fds_eq:
  "shared_buses R = xs \<Longrightarrow> (\<And>a. a \<in> set xs \<Longrightarrow> sb_fd (the (bus_heap R a)) = f a) \<Longrightarrow> bus_fds R = image_mset f (mset xs)"
  unfolding bus_fds_def by (auto intro!: image_mset_cong)

lemma users_simps [simp]: "users a [] = 0" "users a (c # cs) = of_bool (uses a c) + users a cs"
  "users a (cs @ ds) = users a cs + users a ds"
  by (simp_all add: users_def)

lemma users_update:
  assumes "i < length cs"
  shows "users a (cs[i := c]) + of_bool (uses a (cs ! i)) = users a cs + of_bool (uses a c)"
proof -
  have "users a cs = users a (take i cs @ cs ! i # drop (Suc i) cs)" using id_take_nth_drop[OF assms] by simp
  then show ?thesis using assms by (simp add: upd_conv_take_nth_drop)
qed

lemma find_bus_cases:
  assumes "\<forall>a \<in> set as. H a \<noteq> None"
  shows "find_bus_locked H as key = Some None \<and> (\<forall>a \<in> set as. \<forall>b. H a = Some b \<longrightarrow> sb_path b \<noteq> key) \<or>
    (\<exists>a b. a \<in> set as \<and> H a = Some b \<and> sb_path b = key \<and> find_bus_locked H as key = Some (Some a))"
  using assms
proof (induction as)
  case (Cons a as)
  then obtain b where b: "H a = Some b" by auto
  show ?case
  proof (cases "sb_path b = key")
    case True
    then show ?thesis using b by (intro disjI2 exI[of _ a] exI[of _ b]) simp
  next
    case False
    have "find_bus_locked H (a # as) key = find_bus_locked H as key" using b False by simp
    moreover have "\<forall>x \<in> set as. H x \<noteq> None" using Cons.prems by simp
    ultimately show ?thesis using Cons.IH b False by (simp only: list.set ball_simps) fastforce
  qed
qed simp

text \<open>What attaching does: nothing, one more reference to a record, or a new record with one.\<close>

lemma attach_cases:
  assumes ok: "registry_ok base cs R" and "pred_option (\<lambda>a. bus_heap R a = None) (e_calloc E)"
  shows "(\<exists>h. shared_bus_attach E serial R = Some (None, R\<lparr>reg_host := h\<rparr>) \<and> fds h = fds (reg_host R)) \<or>
    (\<exists>a b. bus_heap R a = Some b \<and> shared_bus_attach E serial R =
       Some (Some a, R\<lparr>bus_heap := (bus_heap R)(a \<mapsto> b\<lparr>sb_refcnt := sb_refcnt b + 1\<rparr>)\<rparr>)) \<or>
    (\<exists>a b h. bus_heap R a = None \<and> sb_refcnt b = 1 \<and> 0 \<le> sb_fd b \<and> fds h = sb_fd b # fds (reg_host R) \<and>
       (\<forall>a' b'. bus_heap R a' = Some b' \<longrightarrow> sb_path b' \<noteq> sb_path b) \<and> shared_bus_attach E serial R =
       Some (Some a, R\<lparr>bus_heap := (bus_heap R)(a \<mapsto> b), shared_buses := a # shared_buses R, reg_host := h\<rparr>))"
proof -
  obtain krc key where key: "resolve_bus_key E (the (device serial)) = (krc, key)" by fastforce
  have "\<forall>a \<in> set (shared_buses R). bus_heap R a \<noteq> None" using registry_okD(2)[OF ok] by blast
  note find = find_bus_cases[OF this, of key]
  show ?thesis
  proof (cases "krc = 0")
    case False
    then show ?thesis using key by (intro disjI1 exI[of _ "reg_host R"]) (simp add: shared_bus_attach_def)
  next
    case True
    from find show ?thesis
    proof (elim disjE exE conjE)
      fix a b assume "a \<in> set (shared_buses R)" "bus_heap R a = Some b" "sb_path b = key"
        "find_bus_locked (bus_heap R) (shared_buses R) key = Some (Some a)"
      then show ?thesis using True key
        by (cases "bus_settings_match b serial") (auto simp: shared_bus_attach_def intro!: exI[of _ "reg_host R"])
    next
      assume none: "find_bus_locked (bus_heap R) (shared_buses R) key = Some None"
        "\<forall>a \<in> set (shared_buses R). \<forall>b. bus_heap R a = Some b \<longrightarrow> sb_path b \<noteq> key"
      have paths: "sb_path b' \<noteq> key" if "bus_heap R a' = Some b'" for a' b' using that none(2) registry_okD(2)[OF ok, of a'] by auto
      obtain orc fo h where op: "mb_rtu_open (e_port E) (Some (- 1)) (Some serial) (reg_host R) = (orc, fo, h)"
        by (cases "mb_rtu_open (e_port E) (Some (- 1)) (Some serial) (reg_host R)") auto
      note fds = mb_rtu_open_fds[OF op]
      have attach: "shared_bus_attach E serial R = (case open_bus_locked E key serial R of
          (None, R) \<Rightarrow> Some (None, R)
        | (Some a, R) \<Rightarrow> do { r \<leftarrow> bus_heap R a; Some (Some a, R\<lparr>bus_heap := (bus_heap R)(a \<mapsto> r\<lparr>sb_refcnt := sb_refcnt r + 1\<rparr>)\<rparr>) })"
        using True key none(1) by (simp add: shared_bus_attach_def split: prod.split)
      show ?thesis
      proof (cases "e_calloc E = None \<or> orc \<noteq> 0 \<or> e_bus_mutex E \<noteq> 0")
        case True
        have "\<exists>h. open_bus_locked E key serial R = (None, R\<lparr>reg_host := h\<rparr>) \<and> fds h = fds (reg_host R)"
        proof (cases "e_calloc E")
          case None
          then show ?thesis by (intro exI[of _ "reg_host R"]) (simp add: open_bus_locked_def)
        next
          case (Some a)
          show ?thesis
          proof (cases "orc = 0")
            case False
            then show ?thesis using Some op fds by (intro exI[of _ h]) (auto simp: open_bus_locked_def)
          next
            case orc: True
            then show ?thesis using Some True op fds
              by (intro exI[of _ "snd (mb_rtu_close fo h)"]) (auto simp: open_bus_locked_def mb_rtu_close_def)
          qed
        qed
        then show ?thesis using attach by auto
      next
        case False
        then obtain a where a: "e_calloc E = Some a" "orc = 0" "e_bus_mutex E = 0" by auto
        then have fo: "fo = Some (p_open (e_port E))" "0 \<le> p_open (e_port E)" "fds h = p_open (e_port E) # fds (reg_host R)"
          using fds by auto
        define b where "b = \<lparr>sb_path = key, sb_fd = p_open (e_port E), sb_refcnt = 1, sb_baud_rate = effective_baud_rate (baud_rate serial),
                 sb_data_bits = effective_data_bits (data_bits serial), sb_stop_bits = effective_stop_bits (stop_bits serial),
                 sb_parity = parity serial, sb_rs485_mode = rs485_mode serial, sb_t35_us = mb_rtu_t35_us (Some serial),
                 sb_has_last_transaction = False, sb_last_unit_id = 0, sb_last_release_time = (0, 0)\<rparr>"
        have "shared_bus_attach E serial R =
            Some (Some a, R\<lparr>bus_heap := (bus_heap R)(a \<mapsto> b), shared_buses := a # shared_buses R, reg_host := h\<rparr>)"
          using attach a op fo by (simp add: open_bus_locked_def Let_def b_def)
        then show ?thesis using a(1) assms(2) fo paths
          by (intro disjI2 exI[of _ a] exI[of _ b] exI[of _ h]) (auto simp: b_def)
      qed
    qed
  qed
qed

text \<open>The changes to the registry that the operations make keep it in order.\<close>

lemma users_le: "users a cs \<le> length cs"
  by (simp add: users_def)

lemma users_pos: "c \<in> set cs \<Longrightarrow> uses a c \<Longrightarrow> 0 < users a cs"
  by (induction cs) auto

lemma set_updateE: "x \<in> set (cs[i := c]) \<Longrightarrow> x = c \<or> x \<in> set cs"
  using set_update_subset_insert by fastforce

lemma registry_ok_frame:
  assumes ok: "registry_ok base cs R" and i: "i < length cs" and "\<And>a. uses a c = uses a (cs ! i)"
    and "rc_initialized c \<noteq> 0 \<Longrightarrow> bus_of_client R c" and "fds h = fds (reg_host R)"
  shows "registry_ok base (cs[i := c]) (R\<lparr>reg_host := h\<rparr>)"
proof -
  have "users a (cs[i := c]) = users a cs" for a using users_update[OF i, of a c] assms(3) by simp
  then have "record_ok (cs[i := c]) = record_ok cs" by (intro ext) (simp add: record_ok_def)
  moreover have "bus_of_client (R\<lparr>reg_host := h\<rparr>) = bus_of_client R" by (intro ext) (simp add: bus_of_client_def)
  moreover have "bus_of_client R x" if "x \<in> set (cs[i := c])" "rc_initialized x \<noteq> 0" for x
    using set_updateE[OF that(1)] that(2) assms(4) registry_okD(5)[OF ok] by blast
  ultimately show ?thesis using registry_okD[OF ok] assms(5) by (intro registry_okI) (simp_all add: bus_fds_def)
qed

text \<open>One more or one fewer reference to a record that keeps its descriptor and path.\<close>

lemma registry_ok_record:
  assumes ok: "registry_ok base cs R" and i: "i < length cs" and b: "bus_heap R a = Some b"
    and r: "sb_path r = sb_path b" "sb_fd r = sb_fd b" "record_ok (cs[i := c]) a r"
    and other: "\<And>a'. a' \<noteq> a \<Longrightarrow> uses a' c = uses a' (cs ! i)"
    and c: "rc_initialized c \<noteq> 0 \<Longrightarrow> rc_shared_bus c = Some a \<and> rc_fd c = sb_fd b"
  shows "registry_ok base (cs[i := c]) (R\<lparr>bus_heap := (bus_heap R)(a \<mapsto> r)\<rparr>)" (is "registry_ok _ ?cs ?R")
proof -
  have mem: "a \<in> set (shared_buses R)" using registry_okD(2)[OF ok, of a] b by simp
  have "users a' ?cs = users a' cs" if "a' \<noteq> a" for a' using users_update[OF i, of a' c] other[OF that] by simp
  then have rec: "record_ok ?cs a' b'" if "bus_heap ?R a' = Some b'" for a' b'
    using that r(3) registry_okD(3)[OF ok, of a' b'] by (auto simp: record_ok_def split: if_splits)
  have cl: "bus_of_client ?R x" if "x \<in> set ?cs" "rc_initialized x \<noteq> 0" for x
  proof (cases "x = c")
    case True
    then show ?thesis using c that(2) r(2) by (simp add: bus_of_client_def)
  next
    case False
    then have "bus_of_client R x" using set_updateE[OF that(1)] that(2) registry_okD(5)[OF ok] by blast
    then obtain a' b' where "rc_shared_bus x = Some a'" "bus_heap R a' = Some b'" "rc_fd x = sb_fd b'" by (auto simp: bus_of_client_def)
    then show ?thesis using b r(2) by (cases "a' = a") (auto simp: bus_of_client_def)
  qed
  have path: "a1 = a2" if p: "bus_heap ?R a1 = Some b1" "bus_heap ?R a2 = Some b2" "sb_path b1 = sb_path b2" for a1 a2 b1 b2
  proof -
    obtain d1 d2 where "bus_heap R a1 = Some d1" "sb_path d1 = sb_path b1" "bus_heap R a2 = Some d2" "sb_path d2 = sb_path b2"
      using p(1,2) b r(1) by (auto split: if_splits)
    then show ?thesis using registry_okD(4)[OF ok, of a1 d1 a2 d2] p(3) by simp
  qed
  have "bus_fds ?R = bus_fds R" unfolding bus_fds_def[of R] using b r(2) by (intro bus_fds_eq) simp_all
  then have fdm: "mset (fds (reg_host ?R)) = base + bus_fds ?R" using registry_okD(6)[OF ok] by simp
  have dom: "bus_heap ?R x \<noteq> None \<longleftrightarrow> x \<in> set (shared_buses ?R)" for x using registry_okD(2)[OF ok, of x] mem by simp
  have dist: "distinct (shared_buses ?R)" using registry_okD(1)[OF ok] by simp
  show ?thesis by (rule registry_okI[OF dist dom rec path cl fdm])
qed

lemma registry_ok_new:
  assumes ok: "registry_ok base cs R" and i: "i < length cs" and "bus_heap R a = None"
    and r: "sb_refcnt r = 1" "0 \<le> sb_fd r" "fds h = sb_fd r # fds (reg_host R)"
    and fresh: "\<And>a' b'. bus_heap R a' = Some b' \<Longrightarrow> sb_path b' \<noteq> sb_path r"
    and c: "rc_initialized c \<noteq> 0" "rc_shared_bus c = Some a" "rc_fd c = sb_fd r" and "rc_initialized (cs ! i) = 0"
  shows "registry_ok base (cs[i := c]) (R\<lparr>bus_heap := (bus_heap R)(a \<mapsto> r), shared_buses := a # shared_buses R, reg_host := h\<rparr>)"
    (is "registry_ok _ ?cs ?R")
proof -
  have out: "a \<notin> set (shared_buses R)" using registry_okD(2)[OF ok, of a] assms(3) by simp
  have none: "users a cs = 0"
  proof (rule ccontr)
    assume "users a cs \<noteq> 0"
    then obtain x where "x \<in> set cs" "uses a x" by (auto simp: users_def filter_empty_conv)
    then show False using registry_okD(5)[OF ok, of x] assms(3) by (auto simp: uses_def bus_of_client_def)
  qed
  have us: "users a' ?cs = (if a' = a then 1 else users a' cs)" for a'
    using users_update[OF i, of a' c] c assms(11) none by (simp add: uses_def split: if_splits)
  have rec: "record_ok ?cs a' b'" if "bus_heap ?R a' = Some b'" for a' b'
    using that r registry_okD(3)[OF ok, of a' b'] us by (auto simp: record_ok_def split: if_splits)
  have cl: "bus_of_client ?R x" if "x \<in> set ?cs" "rc_initialized x \<noteq> 0" for x
  proof (cases "x = c")
    case False
    then have "bus_of_client R x" using set_updateE[OF that(1)] that(2) registry_okD(5)[OF ok] by blast
    then show ?thesis using assms(3) by (auto simp: bus_of_client_def)
  qed (use c in \<open>simp add: bus_of_client_def\<close>)
  have path: "a1 = a2" if "bus_heap ?R a1 = Some b1" "bus_heap ?R a2 = Some b2" "sb_path b1 = sb_path b2" for a1 a2 b1 b2
    using that fresh registry_okD(4)[OF ok, of a1 b1 a2 b2] by (auto split: if_splits)
  have "image_mset (\<lambda>x. sb_fd (the (bus_heap ?R x))) (mset (shared_buses R)) = bus_fds R"
    unfolding bus_fds_def using out by (intro image_mset_cong) auto
  then have fdm: "mset (fds (reg_host ?R)) = base + bus_fds ?R" using registry_okD(6)[OF ok] r(3) by (simp add: bus_fds_def)
  have dom: "bus_heap ?R x \<noteq> None \<longleftrightarrow> x \<in> set (shared_buses ?R)" for x using registry_okD(2)[OF ok, of x] by simp
  have dist: "distinct (shared_buses ?R)" using registry_okD(1)[OF ok] out by simp
  show ?thesis by (rule registry_okI[OF dist dom rec path cl fdm])
qed

lemma registry_ok_free:
  assumes ok: "registry_ok base cs R" and i: "i < length cs" and b: "bus_heap R a = Some b"
    and last: "users a cs = 1" "uses a (cs ! i)" and c: "rc_initialized c = 0"
  shows "registry_ok base (cs[i := c]) (R\<lparr>shared_buses := remove1 a (shared_buses R),
      reg_host := snd (mb_rtu_close (Some (sb_fd b)) (reg_host R)), bus_heap := (bus_heap R)(a := None)\<rparr>)"
    (is "registry_ok _ ?cs ?R")
proof -
  note D = registry_okD[OF ok]
  have mem: "a \<in> set (shared_buses R)" using D(2)[of a] b by simp
  have us: "users a' ?cs = (if a' = a then 0 else users a' cs)" for a'
    using users_update[OF i, of a' c] c last by (auto simp: uses_def)
  have rec: "record_ok ?cs a' b'" if "bus_heap ?R a' = Some b'" for a' b'
    using that D(3)[of a' b'] us by (auto simp: record_ok_def split: if_splits)
  have cl: "bus_of_client ?R x" if x: "x \<in> set ?cs" "rc_initialized x \<noteq> 0" for x
  proof -
    have "\<not> uses a x" using users_pos[OF x(1), of a] us[of a] by auto
    moreover have "bus_of_client R x" using set_updateE[OF x(1)] x(2) c D(5) by auto
    ultimately show ?thesis using x(2) by (auto simp: bus_of_client_def uses_def)
  qed
  have "0 \<le> sb_fd b" using D(3)[OF b] by (simp add: record_ok_def)
  then have h: "fds (reg_host ?R) = remove1 (sb_fd b) (fds (reg_host R))" by (simp add: mb_rtu_close_def)
  have "mset (shared_buses R) = add_mset a (mset (remove1 a (shared_buses R)))" using mem by simp
  then have "bus_fds R = add_mset (sb_fd b) (image_mset (\<lambda>x. sb_fd (the (bus_heap R x))) (mset (remove1 a (shared_buses R))))"
    unfolding bus_fds_def using b by (metis (no_types, lifting) image_mset_add_mset option.sel)
  also have "image_mset (\<lambda>x. sb_fd (the (bus_heap R x))) (mset (remove1 a (shared_buses R))) = bus_fds ?R"
    using D(1) by (intro bus_fds_eq[symmetric]) (auto simp: set_remove1_eq)
  finally have fdm: "mset (fds (reg_host ?R)) = base + bus_fds ?R" using D(6) h by (simp add: ac_simps)
  have dist: "distinct (shared_buses ?R)" using D(1) by simp
  have dom: "bus_heap ?R x \<noteq> None \<longleftrightarrow> x \<in> set (shared_buses ?R)" for x using D(1) D(2)[of x] by (auto simp: set_remove1_eq)
  have path: "a1 = a2" if "bus_heap ?R a1 = Some b1" "bus_heap ?R a2 = Some b2" "sb_path b1 = sb_path b2" for a1 a2 b1 b2
    using that D(4)[of a1 b1 a2 b2] by (auto split: if_splits)
  show ?thesis by (rule registry_okI[OF dist dom rec path cl fdm])
qed

end
