(* ===== verification/Rtu_Bus_Properties.thy ===== *)
theory Rtu_Bus_Properties
  imports Rtu_Bus
begin

text \<open>
  The registry of shared buses (\<^verbatim>\<open>src/src/modbus_rtu_client.c\<close>) under every run of connects and
  disconnects.
\<close>

section \<open>Single operations\<close>

lemma connect_ok:
  assumes ok: "registry_ok base cs R" and i: "i < length cs" and "length cs < 2 ^ 32"
    and "pred_option (\<lambda>a. bus_heap R a = None) (e_calloc E)"
  shows "\<exists>rc c R'. mb_rtu_client_connect E (Some (cs ! i)) conf R = Some (rc, Some c, R') \<and> registry_ok base (cs[i := c]) R'"
proof (cases "\<exists>g. conf = Some g \<and> rc_device g \<noteq> None \<and> rc_device g \<noteq> Some [] \<and> rc_initialized (cs ! i) = 0 \<and> e_ctx_mutex E = 0")
  case False
  then have "\<exists>c. mb_rtu_client_connect E (Some (cs ! i)) conf R = Some (- 1, Some c, R) \<and>
      (c = cs ! i \<or> rc_initialized (cs ! i) = 0 \<and> rc_initialized c = 0)"
    by (auto simp: mb_rtu_client_connect_def Let_def split: option.split)
  then obtain c where c: "mb_rtu_client_connect E (Some (cs ! i)) conf R = Some (- 1, Some c, R)"
    "c = cs ! i \<or> rc_initialized (cs ! i) = 0 \<and> rc_initialized c = 0" by blast
  have "registry_ok base (cs[i := c]) (R\<lparr>reg_host := reg_host R\<rparr>)"
    using c(2) registry_okD(5)[OF ok, of "cs ! i"] i by (intro registry_ok_frame[OF ok i]) (auto simp: uses_def)
  with c(1) show ?thesis by simp
next
  case True
  then obtain g where g: "conf = Some g" "rc_device g \<noteq> None" "rc_device g \<noteq> Some []" "rc_initialized (cs ! i) = 0" "e_ctx_mutex E = 0" by blast
  let ?sc = "\<lparr>device = rc_device g, baud_rate = rc_baud_rate g, data_bits = rc_data_bits g,
    stop_bits = rc_stop_bits g, parity = rc_parity g, rs485_mode = rc_rs485_mode g\<rparr>"
  let ?c = "\<lparr>rc_cfg = g, rc_fd = - 1, rc_shared_bus = None, rc_initialized = 0\<rparr>"
  have call: "mb_rtu_client_connect E (Some (cs ! i)) conf R = do {
      (b, R) \<leftarrow> shared_bus_attach E ?sc R;
      case b of None \<Rightarrow> Some (- 1, Some ?c, R)
      | Some a \<Rightarrow> do { r \<leftarrow> bus_heap R a; Some (0, Some (?c\<lparr>rc_shared_bus := Some a, rc_fd := sb_fd r, rc_initialized := 1\<rparr>), R) } }"
    using g by (auto simp: mb_rtu_client_connect_def Let_def)
  from attach_cases[OF ok assms(4), of ?sc] show ?thesis
  proof (elim disjE exE conjE)
    fix h assume "shared_bus_attach E ?sc R = Some (None, R\<lparr>reg_host := h\<rparr>)" "fds h = fds (reg_host R)"
    then show ?thesis using call g(4) by (auto simp: uses_def intro!: registry_ok_frame[OF ok i])
  next
    fix a b assume b: "bus_heap R a = Some b" and
      at: "shared_bus_attach E ?sc R = Some (Some a, R\<lparr>bus_heap := (bus_heap R)(a \<mapsto> b\<lparr>sb_refcnt := sb_refcnt b + 1\<rparr>)\<rparr>)"
    let ?d = "?c\<lparr>rc_shared_bus := Some a, rc_fd := sb_fd b, rc_initialized := 1\<rparr>" and ?r = "b\<lparr>sb_refcnt := sb_refcnt b + 1\<rparr>"
    have us: "users a (cs[i := ?d]) = Suc (users a cs)" using users_update[OF i, of a ?d] g(4) by (simp add: uses_def)
    have "Suc (users a cs) < 2 ^ 32" using users_le[of a "cs[i := ?d]"] us assms(3) by simp
    then have "unat (sb_refcnt b + 1) = Suc (users a cs)"
      using registry_okD(3)[OF ok b] by (simp add: record_ok_def unat_word_ariths)
    then have "record_ok (cs[i := ?d]) a ?r" using us registry_okD(3)[OF ok b] by (simp add: record_ok_def)
    then have "registry_ok base (cs[i := ?d]) (R\<lparr>bus_heap := (bus_heap R)(a \<mapsto> ?r)\<rparr>)"
      using g(4) by (intro registry_ok_record[OF ok i b]) (auto simp: uses_def)
    then show ?thesis using call at by (intro exI[of _ 0] exI[of _ ?d]) simp
  next
    fix a b h assume new: "bus_heap R a = None" "sb_refcnt b = 1" "0 \<le> sb_fd b" "fds h = sb_fd b # fds (reg_host R)"
      "\<forall>a' b'. bus_heap R a' = Some b' \<longrightarrow> sb_path b' \<noteq> sb_path b" and
      at: "shared_bus_attach E ?sc R = Some (Some a, R\<lparr>bus_heap := (bus_heap R)(a \<mapsto> b), shared_buses := a # shared_buses R, reg_host := h\<rparr>)"
    let ?d = "?c\<lparr>rc_shared_bus := Some a, rc_fd := sb_fd b, rc_initialized := 1\<rparr>"
    have "registry_ok base (cs[i := ?d]) (R\<lparr>bus_heap := (bus_heap R)(a \<mapsto> b), shared_buses := a # shared_buses R, reg_host := h\<rparr>)"
      using new g(4) by (intro registry_ok_new[OF ok i]) auto
    then show ?thesis using call at by (intro exI[of _ 0] exI[of _ ?d]) simp
  qed
qed

lemma disconnect_ok:
  assumes ok: "registry_ok base cs R" and i: "i < length cs"
  shows "\<exists>c R'. mb_rtu_client_disconnect (Some (cs ! i)) R = Some (Some c, R') \<and> rc_initialized c = 0 \<and> registry_ok base (cs[i := c]) R'"
proof (cases "rc_initialized (cs ! i) = 0")
  case True
  then show ?thesis using ok by (simp add: mb_rtu_client_disconnect_def)
next
  case False
  from registry_okD(5)[OF ok _ False] i obtain a b where
    b: "rc_shared_bus (cs ! i) = Some a" "bus_heap R a = Some b" by (auto simp: bus_of_client_def)
  let ?d = "(cs ! i)\<lparr>rc_shared_bus := None, rc_fd := - 1, rc_initialized := 0\<rparr>"
  have rec: "unat (sb_refcnt b) = users a cs" "0 < users a cs" "0 \<le> sb_fd b" using registry_okD(3)[OF ok b(2)] by (simp_all add: record_ok_def)
  then have pos: "sb_refcnt b > 0" by (simp add: word_less_nat_alt)
  have us: "users a (cs[i := ?d]) + 1 = users a cs" using users_update[OF i, of a ?d] False b(1) by (simp add: uses_def)
  have dec: "unat (sb_refcnt b - 1) = users a cs - 1" using rec pos by (simp add: unat_sub word_le_nat_alt)
  let ?r = "b\<lparr>sb_refcnt := sb_refcnt b - 1\<rparr>"
  show ?thesis
  proof (cases "sb_refcnt b - 1 = 0")
    case True
    then have one: "users a cs = 1" using dec rec(2) by simp
    have "registry_ok base (cs[i := ?d]) (R\<lparr>shared_buses := remove1 a (shared_buses R),
        reg_host := snd (mb_rtu_close (Some (sb_fd b)) (reg_host R)), bus_heap := (bus_heap R)(a := None)\<rparr>)"
      using False b by (intro registry_ok_free[OF ok i b(2) one]) (simp_all add: uses_def)
    then show ?thesis using False b pos True by (simp add: mb_rtu_client_disconnect_def shared_bus_detach_def)
  next
    case nz: False
    then have "0 < users a cs - 1" using dec by (metis neq0_conv unsigned_eq_0_iff)
    then have "record_ok (cs[i := ?d]) a ?r" using us dec rec by (simp add: record_ok_def)
    then have "registry_ok base (cs[i := ?d]) (R\<lparr>bus_heap := (bus_heap R)(a \<mapsto> ?r)\<rparr>)"
      using False b by (intro registry_ok_record[OF ok i b(2)]) (auto simp: uses_def)
    then show ?thesis using False b pos nz by (simp add: mb_rtu_client_disconnect_def shared_bus_detach_def)
  qed
qed

lemma set_unit_id_ok:
  assumes ok: "registry_ok base cs R" and i: "i < length cs" and "mb_rtu_client_set_unit_id (Some (cs ! i)) unit_id = (rc, Some c)"
  shows "registry_ok base (cs[i := c]) R"
proof -
  have "registry_ok base (cs[i := c]) (R\<lparr>reg_host := reg_host R\<rparr>)"
    using assms(3) registry_okD(5)[OF ok, of "cs ! i"] i
    by (intro registry_ok_frame[OF ok i]) (auto simp: uses_def mb_rtu_client_set_unit_id_def bus_of_client_def split: if_splits)
  then show ?thesis by simp
qed

lemma client_step_ok:
  assumes "client_step (cs, R) (cs', R')" and ok: "registry_ok base cs R" and "length cs < 2 ^ 32"
  shows "registry_ok base cs' R' \<and> length cs' = length cs"
  using assms(1)
proof (rule client_stepE)
  fix i E conf rc c assume "cs' = cs[i := c]" "i < length cs" "pred_option (\<lambda>a. bus_heap R a = None) (e_calloc E)"
    "mb_rtu_client_connect E (Some (cs ! i)) conf R = Some (rc, Some c, R')"
  then show ?thesis using connect_ok[OF ok _ assms(3), of i E conf] by auto
next
  fix i c assume "cs' = cs[i := c]" "i < length cs" "mb_rtu_client_disconnect (Some (cs ! i)) R = Some (Some c, R')"
  then show ?thesis using disconnect_ok[OF ok, of i] by auto
next
  fix i unit_id rc c assume "cs' = cs[i := c]" "R' = R" "i < length cs" "mb_rtu_client_set_unit_id (Some (cs ! i)) unit_id = (rc, Some c)"
  then show ?thesis using set_unit_id_ok[OF ok] by simp
qed

lemma client_steps_ok:
  assumes "client_step\<^sup>*\<^sup>* (cs, R) (cs', R')" and "registry_ok base cs R" and "length cs < 2 ^ 32"
  shows "registry_ok base cs' R' \<and> length cs' = length cs"
  using assms
proof (induction "(cs, R)" arbitrary: cs R rule: converse_rtranclp_induct)
  case (step y)
  obtain cs1 R1 where y: "y = (cs1, R1)" by fastforce
  from client_step_ok[OF step.hyps(1)[unfolded y] step.prems] step.hyps(3)[OF y] step.prems show ?case by simp
qed simp

section \<open>Every run\<close>

definition no_buses :: "host \<Rightarrow> registry" where
  "no_buses h = \<lparr>bus_heap = (\<lambda>_. None), shared_buses = [], reg_host = h\<rparr>"

lemma no_buses_ok: "\<forall>c \<in> set cs. rc_initialized c = 0 \<Longrightarrow> registry_ok (mset (fds h)) cs (no_buses h)"
  by (simp add: registry_ok_def no_buses_def bus_fds_def)

text \<open>
  C34. The registry of shared buses: in every run of connects, disconnects and changes of the unit
  identifier on fewer than \<open>2\<^sup>3\<^sup>2\<close> contexts, all disconnected at the start, no operation follows a dangling
  pointer, each path has one record, which counts exactly the connected clients that point to it,
  every connected client has the descriptor of its record, two clients whose records have the
  same path share record and descriptor, and the process holds the descriptors of the records and
  those it had before and no other. So a port is closed exactly when its last client disconnects.
\<close>

theorem shared_bus_registry_invariant:
  assumes "client_step\<^sup>*\<^sup>* (cs, no_buses h) (cs', R)" and "\<forall>c \<in> set cs. rc_initialized c = 0" and "length cs < 2 ^ 32"
  shows "registry_ok (mset (fds h)) cs' R \<and>
    (\<forall>i < length cs'. mb_rtu_client_disconnect (Some (cs' ! i)) R \<noteq> None \<and>
       (\<forall>E conf. pred_option (\<lambda>a. bus_heap R a = None) (e_calloc E) \<longrightarrow> mb_rtu_client_connect E (Some (cs' ! i)) conf R \<noteq> None)) \<and>
    ((\<forall>c \<in> set cs'. rc_initialized c = 0) \<longrightarrow> mset (fds (reg_host R)) = mset (fds h) \<and> (\<forall>a. bus_heap R a = None))"
proof -
  have "registry_ok (mset (fds h)) cs' R \<and> length cs' = length cs" using client_steps_ok[OF assms(1) no_buses_ok[OF assms(2)] assms(3)] .
  then have ok: "registry_ok (mset (fds h)) cs' R" and len: "length cs' < 2 ^ 32" using assms(3) by simp_all
  have "mset (fds (reg_host R)) = mset (fds h) \<and> (\<forall>a. bus_heap R a = None)" if off: "\<forall>c \<in> set cs'. rc_initialized c = 0"
  proof -
    have "users a cs' = 0" for a using off by (simp add: users_def filter_empty_conv uses_def)
    then have none: "bus_heap R a = None" for a using registry_okD(3)[OF ok, of a] by (cases "bus_heap R a") (auto simp: record_ok_def)
    then have "shared_buses R = []" using registry_okD(2)[OF ok, of "hd (shared_buses R)"] by (cases "shared_buses R") auto
    then show ?thesis using none registry_okD(6)[OF ok] by (simp add: bus_fds_def)
  qed
  moreover have "mb_rtu_client_disconnect (Some (cs' ! i)) R \<noteq> None" if "i < length cs'" for i using disconnect_ok[OF ok that] by auto
  moreover have "mb_rtu_client_connect E (Some (cs' ! i)) conf R \<noteq> None"
    if "i < length cs'" "pred_option (\<lambda>a. bus_heap R a = None) (e_calloc E)" for i E conf using connect_ok[OF ok that(1) len that(2), of conf] by auto
  ultimately show ?thesis using ok by blast
qed

definition demo_client_config :: mb_rtu_client_config where
  "demo_client_config = \<lparr>rc_device = Some ''/dev/ttyS0'', rc_baud_rate = 0, rc_data_bits = 0, rc_stop_bits = 0, rc_parity = 0,
     rc_unit_id = 1, rc_response_timeout_ms = 0, rc_inter_frame_delay_us = 0, rc_bus_handoff_silence_ms = 0, rc_rs485_mode = 0,
     rc_local_echo = 0, rc_tx_hook = False\<rparr>"

definition demo_bus_env :: bus_env where
  "demo_bus_env = \<lparr>e_calloc = Some 4096, e_ctx_mutex = 0, e_bus_mutex = 0,
     e_port = \<lparr>p_mutex = 0, p_open = 5, p_cfsetspeed = True, p_tcsetattr = 0, p_rs485 = 0, p_getfl = 0, p_setfl = 0, p_thread = 0\<rparr>,
     e_realpath = (\<lambda>_. None)\<rparr>"

definition off_ctx :: mb_rtu_client_ctx where
  "off_ctx = \<lparr>rc_cfg = demo_client_config, rc_fd = - 1, rc_shared_bus = None, rc_initialized = 0\<rparr>"

definition demo_host :: host where
  "demo_host = \<lparr>fds = [], attrs = [], flushes = [], rs485s = [], links = []\<rparr>"

lemma demo_connect:
  "\<exists>R. mb_rtu_client_connect demo_bus_env (Some off_ctx) (Some demo_client_config) (no_buses demo_host) =
     Some (0, Some (off_ctx\<lparr>rc_shared_bus := Some 4096, rc_fd := 5, rc_initialized := 1\<rparr>), R) \<and> fds (reg_host R) = [5]"
  by (simp add: mb_rtu_client_connect_def off_ctx_def demo_client_config_def demo_bus_env_def no_buses_def demo_host_def Let_def
      shared_bus_attach_def resolve_bus_key_def open_bus_locked_def mb_rtu_open_def configure_serial_def configure_rs485_def
      baud_to_speed_def effective_data_bits_def effective_stop_bits_def)

theorem shared_bus_registry_invariant_witness:
  "\<exists>cs R. client_step\<^sup>*\<^sup>* ([off_ctx, off_ctx], no_buses demo_host) (cs, R) \<and> registry_ok {#} cs R \<and> fds (reg_host R) = [5]"
proof -
  let ?on = "off_ctx\<lparr>rc_shared_bus := Some 4096, rc_fd := 5, rc_initialized := 1\<rparr>"
  from demo_connect obtain R where R: "mb_rtu_client_connect demo_bus_env (Some off_ctx) (Some demo_client_config) (no_buses demo_host) =
      Some (0, Some ?on, R)" "fds (reg_host R) = [5]" by blast
  have "client_step ([off_ctx, off_ctx], no_buses demo_host) ([off_ctx, off_ctx][0 := ?on], R)"
    using R(1) by (intro client_step.connect[where E = demo_bus_env]) (simp_all add: demo_bus_env_def no_buses_def)
  then have run: "client_step\<^sup>*\<^sup>* ([off_ctx, off_ctx], no_buses demo_host) ([?on, off_ctx], R)" by simp
  from shared_bus_registry_invariant[OF run] have "registry_ok {#} [?on, off_ctx] R" by (simp add: off_ctx_def demo_host_def)
  with run R(2) show ?thesis by blast
qed

end
