(* ===== verification/Rtu_Client.thy ===== *)
theory Rtu_Client
  imports Pdu_Client Rtu_Bus "HOL-Library.Signed_Division"
begin

text \<open>
  The RTU client, \<^verbatim>\<open>src/src/modbus_rtu_client.c\<close>: bus timing, receiving one response, the
  transaction, and the public read and write functions. A transaction runs under the locks of the
  context and of its bus, so it is one step on the bus record in the heap of \<open>Rtu_Bus\<close> and on the
  line of \<open>Serial_Io\<close>. The code does not check whether \<open>clock_gettime\<close> succeeds: where
  it would go on with an indeterminate value, the outcome is undefined. Logging and
  the formatting of bytes for it are left out.
\<close>

section \<open>Timing\<close>

abbreviation (input) MB_RTU_CLIENT_OK :: c_int where "MB_RTU_CLIENT_OK \<equiv> 0"
abbreviation (input) MB_RTU_CLIENT_ERR_ARG :: c_int where "MB_RTU_CLIENT_ERR_ARG \<equiv> - 1"
abbreviation (input) MB_RTU_CLIENT_ERR_NOT_CONNECTED :: c_int where "MB_RTU_CLIENT_ERR_NOT_CONNECTED \<equiv> - 2"
abbreviation (input) MB_RTU_CLIENT_ERR_TRANSPORT :: c_int where "MB_RTU_CLIENT_ERR_TRANSPORT \<equiv> - 3"
abbreviation (input) MB_RTU_CLIENT_ERR_TIMEOUT :: c_int where "MB_RTU_CLIENT_ERR_TIMEOUT \<equiv> - 4"
abbreviation (input) MB_RTU_CLIENT_ERR_FRAME :: c_int where "MB_RTU_CLIENT_ERR_FRAME \<equiv> - 5"
abbreviation (input) MB_RTU_CLIENT_ERR_UNIT_ID :: c_int where "MB_RTU_CLIENT_ERR_UNIT_ID \<equiv> - 6"
abbreviation (input) MB_RTU_CLIENT_ERR_CRC :: c_int where "MB_RTU_CLIENT_ERR_CRC \<equiv> - 7"
abbreviation (input) RTU_IO_FRAME_ERROR :: c_int where "RTU_IO_FRAME_ERROR \<equiv> - 10"
abbreviation (input) RTU_IO_CRC_ERROR :: c_int where "RTU_IO_CRC_ERROR \<equiv> - 11"
abbreviation (input) RTU_IO_UNIT_ID_ERROR :: c_int where "RTU_IO_UNIT_ID_ERROR \<equiv> - 12"
abbreviation (input) MB_RTU_CLIENT_DEFAULT_HANDOFF_SILENCE_MS :: u32 where "MB_RTU_CLIENT_DEFAULT_HANDOFF_SILENCE_MS \<equiv> 30"
abbreviation (input) RTU_EXCEPTION_LEN :: nat where "RTU_EXCEPTION_LEN \<equiv> 5"
abbreviation (input) RTU_WRITE_RESPONSE_LEN :: nat where "RTU_WRITE_RESPONSE_LEN \<equiv> 8"

definition effective_handoff_silence_ms :: "mb_rtu_client_ctx \<Rightarrow> u32" where
  "effective_handoff_silence_ms ctx =
     mb_rtu_effective_timing (rc_bus_handoff_silence_ms (rc_cfg ctx)) MB_RTU_CLIENT_DEFAULT_HANDOFF_SILENCE_MS"

definition effective_inter_frame_us :: "mb_rtu_client_ctx \<Rightarrow> mb_rtu_shared_bus \<Rightarrow> u32" where
  "effective_inter_frame_us ctx b = mb_rtu_effective_timing (rc_inter_frame_delay_us (rc_cfg ctx)) (sb_t35_us b)"

text \<open>The signed arithmetic on the elapsed time; a result outside \<open>int64_t\<close> is undefined.\<close>

definition elapsed_us :: "u64 \<times> u64 \<Rightarrow> u64 \<times> u64 \<Rightarrow> int option" where
  "elapsed_us t released =
     (let d = sint (fst t) - sint (fst released);
          e = d * 1000000 + (sint (snd t) - sint (snd released)) sdiv 1000
      in if \<bar>d\<bar> < 2 ^ 63 \<and> \<bar>d * 1000000\<bar> < 2 ^ 63 \<and> \<bar>e\<bar> < 2 ^ 63 then Some e else None)"

definition wait_bus_silence :: "mb_rtu_shared_bus \<Rightarrow> u8 \<Rightarrow> u32 \<Rightarrow> u32 \<Rightarrow> serial \<Rightarrow> serial option" where
  "wait_bus_silence b unit_id inter_frame_us handoff_ms s =
     (if \<not> sb_has_last_transaction b then Some s
      else
        let required_us = ucast inter_frame_us;
            required_us = (if sb_last_unit_id b \<noteq> unit_id \<and> (ucast handoff_ms :: u64) * 1000 > required_us
                           then ucast handoff_ms * 1000 else required_us)
        in
          if required_us = 0 then Some s
          else
            (case sys_time s of
               (None, s) \<Rightarrow> None
             | (Some t, s) \<Rightarrow> do {
                 e \<leftarrow> elapsed_us t (sb_last_release_time b);
                 if 0 \<le> e \<and> (word_of_int e :: u64) < required_us
                 then Some (sleep_us (required_us - word_of_int e) s) else Some s }))"

definition mark_bus_transaction_done :: "mb_rtu_shared_bus \<Rightarrow> u8 \<Rightarrow> serial \<Rightarrow> mb_rtu_shared_bus \<times> serial" where
  "mark_bus_transaction_done b unit_id s =
     (case sys_time s of (t, s) \<Rightarrow>
        (b\<lparr>sb_last_release_time := (case t of None \<Rightarrow> sb_last_release_time b | Some t \<Rightarrow> t),
           sb_last_unit_id := unit_id, sb_has_last_transaction := True\<rparr>, s))"

definition monotonic_us :: "serial \<Rightarrow> (u64 \<times> serial) option" where
  "monotonic_us s =
     (case sys_time s of
        (None, s) \<Rightarrow> None
      | (Some (sec, nsec), s) \<Rightarrow> Some (sec * 1000000 + nsec div 1000, s))"

definition frame_wire_time_us :: "mb_rtu_shared_bus \<Rightarrow> nat \<Rightarrow> u64 option" where
  "frame_wire_time_us b nbytes =
     (let char_bits = 1 + ucast (sb_data_bits b) + ucast (sb_stop_bits b) + (if sb_parity b \<noteq> MB_RTU_PARITY_NONE then 1 else 0) in
      if sb_baud_rate b = 0 then None
      else Some ((char_bits * of_nat nbytes * 1000000 + ucast (sb_baud_rate b) - 1) div ucast (sb_baud_rate b)))"

definition response_deadline_us :: "mb_rtu_client_ctx \<Rightarrow> mb_rtu_shared_bus \<Rightarrow> serial \<Rightarrow> (u64 \<times> serial) option" where
  "response_deadline_us ctx b s = do {
     let timeout_ms = (if rc_response_timeout_ms (rc_cfg ctx) \<noteq> 0 then rc_response_timeout_ms (rc_cfg ctx)
                       else MODBUS_RTU_DEFAULT_TIMEOUT_MS);
     (t, s) \<leftarrow> monotonic_us s;
     wire_us \<leftarrow> frame_wire_time_us b MODBUS_RTU_MAX_ADU_LENGTH;
     Some (t + ucast timeout_ms * 1000 + wire_us, s) }"

section \<open>Receiving\<close>

function rtu_wait_readable :: "c_int \<Rightarrow> u64 \<Rightarrow> serial \<Rightarrow> (c_int \<times> serial) option" where
  "rtu_wait_readable fd deadline_us s =
     (case monotonic_us s of
        None \<Rightarrow> None
      | Some (now_us, s1) \<Rightarrow>
          if now_us \<ge> deadline_us then Some (- 2, s1)
          else if \<not> fd_ok fd then None
          else (case sys_select s1 of
                  (Inr n, s2) \<Rightarrow> if n > 0 then Some (0, s2) else Some (- 2, s2)
                | (Inl e, s2) \<Rightarrow> if e \<noteq> EINTR then Some (- 1, s2) else rtu_wait_readable fd deadline_us s2))"
  by pat_completeness auto

lemma monotonic_us_selects: "monotonic_us s = Some (t, s') \<Longrightarrow> selects s' = selects s \<and> line s' = line s"
  by (auto simp: monotonic_us_def sys_time_def split: option.splits)

lemma sys_select_selects: "sys_select s = (Inl e, s') \<Longrightarrow> length (selects s') < length (selects s)"
  by (auto simp: sys_select_def split: list.splits poll_event.splits)

termination rtu_wait_readable
  by (relation "measure (\<lambda>(fd, d, s). length (selects s))") (auto dest!: monotonic_us_selects dest: sys_select_selects[OF sym])

declare rtu_wait_readable.simps [simp del]

text \<open>Waiting changes the clock reading and the script of \<open>select\<close> only.\<close>

definition waited :: "serial \<Rightarrow> serial \<Rightarrow> bool" where
  "waited s s' \<longleftrightarrow> line s' = line s \<and> bus s' = bus s \<and> line_clk s' = line_clk s \<and> nonblock s' = nonblock s"

lemma waited_trans: "waited s s1 \<Longrightarrow> waited s1 s2 \<Longrightarrow> waited s s2"
  by (simp add: waited_def)

lemma monotonic_us_waited: "monotonic_us s = Some (t, s') \<Longrightarrow> waited s s'"
  by (auto simp: monotonic_us_def sys_time_def waited_def split: option.splits)

lemma sys_select_waited: "sys_select s = (x, s') \<Longrightarrow> waited s s'"
  by (auto simp: sys_select_def waited_def split: list.splits poll_event.splits)

lemma rtu_wait_readable_waited:
  "rtu_wait_readable fd d s = Some (rc, s') \<Longrightarrow> waited s s' \<and> rc \<in> {0, - 1, - 2}"
proof (induction fd d s rule: rtu_wait_readable.induct)
  case (1 fd d s)
  note unf = rtu_wait_readable.simps[of fd d s]
  from "1.prems" obtain t s1 where m: "monotonic_us s = Some (t, s1)" by (auto simp: unf split: option.splits)
  note w1 = monotonic_us_waited[OF m]
  show ?case
  proof (cases "t \<ge> d")
    case True
    then show ?thesis using "1.prems" m w1 by (simp add: unf)
  next
    case late: False
    then have fd: "\<not> \<not> fd_ok fd" using "1.prems" m by (auto simp: unf split: if_splits)
    obtain x s2 where x: "sys_select s1 = (x, s2)" by fastforce
    note w2 = waited_trans[OF w1 sys_select_waited[OF x]]
    show ?thesis
    proof (cases "x = Inl EINTR")
      case True
      then have "rtu_wait_readable fd d s2 = Some (rc, s')" using "1.prems" m late fd x by (simp add: unf)
      then have "waited s2 s' \<and> rc \<in> {0, - 1, - 2}" using "1.IH"[OF m refl late fd x[symmetric] True] by simp
      then show ?thesis using waited_trans[OF w2] by blast
    next
      case False
      then have "s' = s2 \<and> rc \<in> {0, - 1, - 2}" using "1.prems" m late fd x by (cases x) (auto simp: unf split: if_splits)
      then show ?thesis using w2 by simp
    qed
  qed
qed

lemma rtu_wait_readable_line: "rtu_wait_readable fd d s = Some (rc, s') \<Longrightarrow> line s' = line s"
  using rtu_wait_readable_waited by (auto simp: waited_def)

text \<open>The loop of \<open>read_exact_timeout\<close>: \<open>off\<close> and \<open>len\<close> are the place and the number of the bytes still to come.\<close>

function read_exact_timeout ::
    "c_int \<Rightarrow> u8 list \<Rightarrow> nat \<Rightarrow> nat \<Rightarrow> u64 \<Rightarrow> serial \<Rightarrow> (c_int \<times> u8 list \<times> serial) option" where
  "read_exact_timeout fd buf off len deadline_us s =
     (if len = 0 then Some (0, buf, s)
      else (case rtu_wait_readable fd deadline_us s of
              None \<Rightarrow> None
            | Some (ready, s1) \<Rightarrow>
                if ready \<noteq> 0 then Some (ready, buf, s1)
                else (case sys_read len s1 of
                        (Inl e, s2) \<Rightarrow> if e = EINTR then read_exact_timeout fd buf off len deadline_us s2 else Some (- 1, buf, s2)
                      | (Inr bs, s2) \<Rightarrow>
                          if bs = [] then Some (- 2, buf, s2)
                          else (case memcpy_to buf off bs (length bs) of
                                  None \<Rightarrow> None
                                | Some buf \<Rightarrow> read_exact_timeout fd buf (off + length bs) (len - length bs) deadline_us s2))))"
  by pat_completeness auto

lemma sys_read_shorter:
  "sys_read n s = (Inl EINTR, s') \<Longrightarrow> length (line s') < length (line s)"
  "sys_read n s = (Inr bs, s') \<Longrightarrow> length (line s') \<le> length (line s)"
  by (auto simp: sys_read_def split: list.splits rx_event.splits if_splits)

termination read_exact_timeout
proof (relation "measure (\<lambda>(fd, buf, off, len, d, s). len + length (line s))", goal_cases)
  case (2 fd buf off len d s)
  then show ?case by (auto dest!: sys_read_shorter(1)[OF sym] rtu_wait_readable_line)
next
  case (3 fd buf off len d s)
  then show ?case by (auto dest!: sys_read_shorter(2)[OF sym] rtu_wait_readable_line simp: neq_Nil_conv)
qed simp

declare read_exact_timeout.simps [simp del]

definition rtu_recv_response ::
    "mb_rtu_client_ctx \<Rightarrow> mb_rtu_shared_bus \<Rightarrow> u8 \<Rightarrow> u8 \<Rightarrow> u8 list \<Rightarrow> serial \<Rightarrow> (c_int \<times> u8 list \<times> nat \<times> serial) option" where
  "rtu_recv_response ctx b unit_id expected_fc buf s = do {
     (deadline_us, s) \<leftarrow> response_deadline_us ctx b s;
     (rc, buf, s) \<leftarrow> read_exact_timeout (rc_fd ctx) buf 0 2 deadline_us s;
     if rc \<noteq> 0 then Some (rc, buf, 0, s)
     else do {
       resp_fc \<leftarrow> rd buf RTU_OFFSET_FC;
       (rc, buf, total_len, frame_len, s) \<leftarrow>
         (if resp_fc = expected_fc OR MODBUS_EXCEPTION_FLAG then Some (0, buf, 2, RTU_EXCEPTION_LEN, s)
          else if resp_fc \<noteq> expected_fc then Some (RTU_IO_FRAME_ERROR, buf, 2, 0, s)
          else if expected_fc \<le> MODBUS_FUNC_READ_INPUT_REGISTERS then do {
            (rc, buf, s) \<leftarrow> read_exact_timeout (rc_fd ctx) buf 2 1 deadline_us s;
            if rc \<noteq> 0 then Some (rc, buf, 2, 0, s)
            else do {
              n \<leftarrow> rd buf 2;
              let frame_len = 3 + unat n + MODBUS_RTU_CRC_LEN;
              Some (if frame_len > MODBUS_RTU_MAX_ADU_LENGTH then RTU_IO_FRAME_ERROR else 0, buf, 3, frame_len, s) } }
          else Some (0, buf, 2, RTU_WRITE_RESPONSE_LEN, s));
       if rc \<noteq> 0 then Some (rc, buf, total_len, s)
       else do {
         (rc, buf, s) \<leftarrow> read_exact_timeout (rc_fd ctx) buf total_len (frame_len - total_len) deadline_us s;
         if rc \<noteq> 0 then Some (rc, buf, total_len, s)
         else do {
           valid \<leftarrow> mb_rtu_validate_crc (Some buf) frame_len;
           if valid \<noteq> 0 then Some (RTU_IO_CRC_ERROR, buf, frame_len, s)
           else do {
             uid \<leftarrow> rd buf RTU_OFFSET_UNIT_ID;
             Some (if uid \<noteq> unit_id then RTU_IO_UNIT_ID_ERROR else 0, buf, frame_len, s) } } } } }"

definition io_err_to_client_err :: "c_int \<Rightarrow> c_int" where
  "io_err_to_client_err rc =
     (if rc = - 2 then MB_RTU_CLIENT_ERR_TIMEOUT
      else if rc = RTU_IO_CRC_ERROR then MB_RTU_CLIENT_ERR_CRC
      else if rc = RTU_IO_FRAME_ERROR then MB_RTU_CLIENT_ERR_FRAME
      else if rc = RTU_IO_UNIT_ID_ERROR then MB_RTU_CLIENT_ERR_UNIT_ID
      else MB_RTU_CLIENT_ERR_TRANSPORT)"

section \<open>The transaction\<close>

type_synonym bus_store = "nat \<Rightarrow> mb_rtu_shared_bus option"

definition bus_transaction_begin :: "mb_rtu_client_ctx \<Rightarrow> mb_rtu_shared_bus \<Rightarrow> serial \<Rightarrow> serial option" where
  "bus_transaction_begin ctx b s =
     wait_bus_silence b (rc_unit_id (rc_cfg ctx)) (effective_inter_frame_us ctx b) (effective_handoff_silence_ms ctx) s"

definition bus_transaction_end :: "mb_rtu_client_ctx \<Rightarrow> nat \<Rightarrow> bus_store \<Rightarrow> serial \<Rightarrow> (bus_store \<times> serial) option" where
  "bus_transaction_end ctx a H s = do {
     b \<leftarrow> H a;
     let (b, s) = mark_bus_transaction_done b (rc_unit_id (rc_cfg ctx)) s;
     Some (H(a \<mapsto> b), s) }"

definition rtu_transact ::
    "stack \<Rightarrow> mb_rtu_client_ctx \<Rightarrow> u8 list \<Rightarrow> nat \<Rightarrow> u8 list \<Rightarrow> bus_store \<Rightarrow> serial \<Rightarrow>
     (c_int \<times> u8 list \<times> bus_store \<times> serial) option" where
  "rtu_transact J ctx pdu pdu_len resp H s = do {
     let req = local8 J MODBUS_RTU_MAX_ADU_LENGTH;
     let echo = local8 (stack_above 256 J) MODBUS_RTU_MAX_ADU_LENGTH;
     fc \<leftarrow> rd pdu 0;
     if rc_initialized ctx = 0 then Some (MB_RTU_CLIENT_ERR_NOT_CONNECTED, resp, H, s)
     else do {
       let unit_id = rc_unit_id (rc_cfg ctx);
       let is_broadcast = (unit_id = 0);
       if is_broadcast \<and> \<not> mb_pdu_is_write fc then Some (MB_RTU_CLIENT_ERR_ARG, resp, H, s)
       else do {
         req \<leftarrow> wr req RTU_OFFSET_UNIT_ID unit_id;
         req \<leftarrow> memcpy_to req 1 pdu pdu_len;
         (_, req) \<leftarrow> mb_rtu_append_crc (Some req) (1 + pdu_len) MODBUS_RTU_MAX_ADU_LENGTH;
         let req = the req;
         let req_len = 1 + pdu_len + MODBUS_RTU_CRC_LEN;
         a \<leftarrow> rc_shared_bus ctx;
         b \<leftarrow> H a;
         s \<leftarrow> bus_transaction_begin ctx b s;
         let s = sys_flush s;
         (sent, s) \<leftarrow> send_frame (rc_tx_hook (rc_cfg ctx)) False (rc_fd ctx) req req_len s;
         if sent \<noteq> 0 then do {
           (H, s) \<leftarrow> bus_transaction_end ctx a H s;
           Some (MB_RTU_CLIENT_ERR_TRANSPORT, resp, H, s) }
         else do {
           (echo_ok, s) \<leftarrow>
             (if rc_local_echo (rc_cfg ctx) \<noteq> 0 then do {
                (deadline_us, s) \<leftarrow> response_deadline_us ctx b s;
                (rc, echo, s) \<leftarrow> read_exact_timeout (rc_fd ctx) echo 0 req_len deadline_us s;
                if rc \<noteq> 0 then Some (False, s)
                else do { same \<leftarrow> memcmp_eq echo req req_len; Some (same, s) } }
              else Some (True, s));
           if \<not> echo_ok then do {
             (H, s) \<leftarrow> bus_transaction_end ctx a H s;
             Some (MB_RTU_CLIENT_ERR_TRANSPORT, resp, H, s) }
           else if is_broadcast then do {
             (H, s) \<leftarrow> bus_transaction_end ctx a H s;
             Some (MB_RTU_CLIENT_OK, resp, H, s) }
           else do {
             (rc, resp, resp_len, s) \<leftarrow> rtu_recv_response ctx b unit_id fc resp s;
             (H, s) \<leftarrow> bus_transaction_end ctx a H s;
             if rc \<noteq> 0 then Some (io_err_to_client_err rc, resp, H, s)
             else do {
               rc \<leftarrow> mb_pdu_check_response pdu (ptr resp 1) (resp_len - 1 - MODBUS_RTU_CRC_LEN);
               Some (if rc = MB_PDU_ERR_FRAME then MB_RTU_CLIENT_ERR_FRAME else rc, resp, H, s) } } } } } }"

section \<open>The public interface\<close>

definition rtu_read_registers ::
    "stack \<Rightarrow> mb_rtu_client_ctx option \<Rightarrow> u8 \<Rightarrow> u16 \<Rightarrow> u16 \<Rightarrow> u16 list option \<Rightarrow> bus_store \<Rightarrow> serial \<Rightarrow>
     (c_int \<times> u16 list option \<times> bus_store \<times> serial) option" where
  "rtu_read_registers J ctx fc addr qty out H s =
     (case (ctx, out) of
        (Some c, Some dst) \<Rightarrow>
          if qty = 0 \<or> unat qty > MODBUS_MAX_READ_REGISTERS then Some (MB_RTU_CLIENT_ERR_ARG, out, H, s)
          else do {
            let pdu = local8 J MODBUS_MAX_PDU_LENGTH;
            let resp = local8 (stack_above 253 J) MODBUS_RTU_MAX_ADU_LENGTH;
            (pdu_len, pdu) \<leftarrow> mb_pdu_build_read pdu fc addr qty;
            (rc, resp, H, s) \<leftarrow> rtu_transact (stack_above 509 J) c pdu pdu_len resp H s;
            if rc = MB_RTU_CLIENT_OK then do {
              dst \<leftarrow> mb_pdu_get_registers (ptr resp 1) qty dst;
              Some (rc, Some dst, H, s) }
            else Some (rc, out, H, s) }
      | _ \<Rightarrow> Some (MB_RTU_CLIENT_ERR_ARG, out, H, s))"

definition rtu_read_bits ::
    "stack \<Rightarrow> mb_rtu_client_ctx option \<Rightarrow> u8 \<Rightarrow> u16 \<Rightarrow> u16 \<Rightarrow> u8 list option \<Rightarrow> bus_store \<Rightarrow> serial \<Rightarrow>
     (c_int \<times> u8 list option \<times> bus_store \<times> serial) option" where
  "rtu_read_bits J ctx fc addr qty out H s =
     (case (ctx, out) of
        (Some c, Some dst) \<Rightarrow>
          if qty = 0 \<or> unat qty > MODBUS_MAX_READ_BITS then Some (MB_RTU_CLIENT_ERR_ARG, out, H, s)
          else do {
            let pdu = local8 J MODBUS_MAX_PDU_LENGTH;
            let resp = local8 (stack_above 253 J) MODBUS_RTU_MAX_ADU_LENGTH;
            (pdu_len, pdu) \<leftarrow> mb_pdu_build_read pdu fc addr qty;
            (rc, resp, H, s) \<leftarrow> rtu_transact (stack_above 509 J) c pdu pdu_len resp H s;
            if rc = MB_RTU_CLIENT_OK then do {
              dst \<leftarrow> mb_pdu_get_bits (ptr resp 1) qty dst;
              Some (rc, Some dst, H, s) }
            else Some (rc, out, H, s) }
      | _ \<Rightarrow> Some (MB_RTU_CLIENT_ERR_ARG, out, H, s))"

definition mb_rtu_client_read_holding_registers ::
    "stack \<Rightarrow> mb_rtu_client_ctx option \<Rightarrow> u16 \<Rightarrow> u16 \<Rightarrow> u16 list option \<Rightarrow> bus_store \<Rightarrow> serial \<Rightarrow>
     (c_int \<times> u16 list option \<times> bus_store \<times> serial) option" where
  "mb_rtu_client_read_holding_registers J ctx = rtu_read_registers J ctx MODBUS_FUNC_READ_HOLDING_REGISTERS"

definition mb_rtu_client_read_input_registers ::
    "stack \<Rightarrow> mb_rtu_client_ctx option \<Rightarrow> u16 \<Rightarrow> u16 \<Rightarrow> u16 list option \<Rightarrow> bus_store \<Rightarrow> serial \<Rightarrow>
     (c_int \<times> u16 list option \<times> bus_store \<times> serial) option" where
  "mb_rtu_client_read_input_registers J ctx = rtu_read_registers J ctx MODBUS_FUNC_READ_INPUT_REGISTERS"

definition mb_rtu_client_read_coils ::
    "stack \<Rightarrow> mb_rtu_client_ctx option \<Rightarrow> u16 \<Rightarrow> u16 \<Rightarrow> u8 list option \<Rightarrow> bus_store \<Rightarrow> serial \<Rightarrow>
     (c_int \<times> u8 list option \<times> bus_store \<times> serial) option" where
  "mb_rtu_client_read_coils J ctx = rtu_read_bits J ctx MODBUS_FUNC_READ_COILS"

definition mb_rtu_client_read_discrete_inputs ::
    "stack \<Rightarrow> mb_rtu_client_ctx option \<Rightarrow> u16 \<Rightarrow> u16 \<Rightarrow> u8 list option \<Rightarrow> bus_store \<Rightarrow> serial \<Rightarrow>
     (c_int \<times> u8 list option \<times> bus_store \<times> serial) option" where
  "mb_rtu_client_read_discrete_inputs J ctx = rtu_read_bits J ctx MODBUS_FUNC_READ_DISCRETE_INPUTS"

text \<open>The four write functions build their PDU in a local array and run one transaction on it.\<close>

definition rtu_write_transact ::
    "stack \<Rightarrow> mb_rtu_client_ctx \<Rightarrow> (u8 list \<Rightarrow> (nat \<times> u8 list) option) \<Rightarrow> bus_store \<Rightarrow> serial \<Rightarrow>
     (c_int \<times> bus_store \<times> serial) option" where
  "rtu_write_transact J c build H s = do {
     (pdu_len, pdu) \<leftarrow> build (local8 J MODBUS_MAX_PDU_LENGTH);
     (rc, resp, H, s) \<leftarrow> rtu_transact (stack_above 509 J) c pdu pdu_len
       (local8 (stack_above 253 J) MODBUS_RTU_MAX_ADU_LENGTH) H s;
     Some (rc, H, s) }"

definition mb_rtu_client_write_single_register ::
    "stack \<Rightarrow> mb_rtu_client_ctx option \<Rightarrow> u16 \<Rightarrow> u16 \<Rightarrow> bus_store \<Rightarrow> serial \<Rightarrow> (c_int \<times> bus_store \<times> serial) option" where
  "mb_rtu_client_write_single_register J ctx addr value H s =
     (case ctx of
        None \<Rightarrow> Some (MB_RTU_CLIENT_ERR_ARG, H, s)
      | Some c \<Rightarrow> rtu_write_transact J c
          (\<lambda>pdu. mb_pdu_build_write_single pdu MODBUS_FUNC_WRITE_SINGLE_REGISTER addr value) H s)"

definition mb_rtu_client_write_single_coil ::
    "stack \<Rightarrow> mb_rtu_client_ctx option \<Rightarrow> u16 \<Rightarrow> u8 \<Rightarrow> bus_store \<Rightarrow> serial \<Rightarrow> (c_int \<times> bus_store \<times> serial) option" where
  "mb_rtu_client_write_single_coil J ctx addr value H s =
     (case ctx of
        None \<Rightarrow> Some (MB_RTU_CLIENT_ERR_ARG, H, s)
      | Some c \<Rightarrow> rtu_write_transact J c
          (\<lambda>pdu. mb_pdu_build_write_single pdu MODBUS_FUNC_WRITE_SINGLE_COIL addr
             (if value \<noteq> 0 then MODBUS_COIL_ON else MODBUS_COIL_OFF)) H s)"

definition mb_rtu_client_write_multiple_registers ::
    "stack \<Rightarrow> mb_rtu_client_ctx option \<Rightarrow> u16 \<Rightarrow> u16 \<Rightarrow> u16 list option \<Rightarrow> bus_store \<Rightarrow> serial \<Rightarrow>
     (c_int \<times> bus_store \<times> serial) option" where
  "mb_rtu_client_write_multiple_registers J ctx addr qty data H s =
     (case (ctx, data) of
        (Some c, Some vs) \<Rightarrow>
          if qty = 0 \<or> unat qty > MODBUS_MAX_WRITE_REGISTERS then Some (MB_RTU_CLIENT_ERR_ARG, H, s)
          else rtu_write_transact J c (\<lambda>pdu. mb_pdu_build_write_registers pdu addr qty vs) H s
      | _ \<Rightarrow> Some (MB_RTU_CLIENT_ERR_ARG, H, s))"

definition mb_rtu_client_write_multiple_coils ::
    "stack \<Rightarrow> mb_rtu_client_ctx option \<Rightarrow> u16 \<Rightarrow> u16 \<Rightarrow> u8 list option \<Rightarrow> bus_store \<Rightarrow> serial \<Rightarrow>
     (c_int \<times> bus_store \<times> serial) option" where
  "mb_rtu_client_write_multiple_coils J ctx addr qty values H s =
     (case (ctx, values) of
        (Some c, Some vs) \<Rightarrow>
          if qty = 0 \<or> unat qty > MODBUS_MAX_WRITE_BITS then Some (MB_RTU_CLIENT_ERR_ARG, H, s)
          else rtu_write_transact J c (\<lambda>pdu. mb_pdu_build_write_coils pdu addr qty vs) H s
      | _ \<Rightarrow> Some (MB_RTU_CLIENT_ERR_ARG, H, s))"

definition mb_rtu_client_probe_device ::
    "stack \<Rightarrow> mb_rtu_client_ctx option \<Rightarrow> u16 \<Rightarrow> u16 \<Rightarrow> bus_store \<Rightarrow> serial \<Rightarrow> (c_int \<times> bus_store \<times> serial) option" where
  "mb_rtu_client_probe_device J ctx addr qty H s =
     (if qty = 0 \<or> unat qty > MODBUS_MAX_READ_REGISTERS then Some (MB_RTU_CLIENT_ERR_ARG, H, s)
      else do {
        (rc, probe_buf, H, s) \<leftarrow> mb_rtu_client_read_holding_registers J ctx addr qty
          (Some (local16 J MODBUS_MAX_READ_REGISTERS)) H s;
        Some (rc, H, s) })"

end
