(* ===== verification/Rtu_Client_Facts.thy ===== *)
theory Rtu_Client_Facts
  imports Rtu_Client
begin

text \<open>
  Lemmas about how the RTU client waits and reads: for every script of the line, and for one that
  delivers in time.
\<close>

section \<open>Reading exactly\<close>

text \<open>A clock that does not fail and shows plausible values: below \<open>2\<^sup>4\<^sup>0\<close> seconds and \<open>10\<^sup>9\<close> nanoseconds.\<close>

definition sane_time :: "u64 \<times> u64 \<Rightarrow> bool" where
  "sane_time t \<longleftrightarrow> unat (fst t) < 2 ^ 40 \<and> unat (snd t) < 10 ^ 9"

definition sane_clock :: "serial \<Rightarrow> bool" where
  "sane_clock s \<longleftrightarrow> (\<forall>k. pred_option sane_time (line_clk s k) \<and> line_clk s k \<noteq> None)"

lemma sane_clock_cong: "line_clk s' = line_clk s \<Longrightarrow> sane_clock s' = sane_clock s"
  by (simp add: sane_clock_def)

lemma sane_clock_Some: "sane_clock s \<Longrightarrow> \<exists>t. line_clk s k = Some t \<and> sane_time t"
  by (metis option.exhaust option.pred_inject(2) sane_clock_def)

lemma monotonic_us_now: "sane_clock s \<Longrightarrow> monotonic_us s = Some (now s, s\<lparr>line_ticks := Suc (line_ticks s)\<rparr>)"
  using sane_clock_Some[of s "line_ticks s"] by (auto simp: monotonic_us_def sys_time_def now_at_def split: prod.split)

lemma waited_clock: "waited s s' \<Longrightarrow> sane_clock s' = sane_clock s"
  by (simp add: waited_def sane_clock_def)

lemma rtu_wait_readable_total:
  assumes "fd_ok fd" and "sane_clock s"
  shows "\<exists>rc s'. rtu_wait_readable fd d s = Some (rc, s')"
  using assms(2)
proof (induction "length (selects s)" arbitrary: s rule: less_induct)
  case less
  let ?s = "s\<lparr>line_ticks := Suc (line_ticks s)\<rparr>"
  note unf = rtu_wait_readable.simps[of fd d s] monotonic_us_now[OF less.prems]
  obtain x s2 where x: "sys_select ?s = (x, s2)" by fastforce
  show ?case
  proof (cases "x = Inl EINTR")
    case True
    have "length (selects s2) < length (selects s)" using sys_select_selects[of ?s EINTR s2] x True by simp
    moreover have "sane_clock s2" using waited_clock[OF sys_select_waited[OF x]] less.prems by (simp add: sane_clock_def)
    ultimately have "\<exists>rc s'. rtu_wait_readable fd d s2 = Some (rc, s')" by (rule less.hyps)
    then show ?thesis using True x assms(1) by (simp add: unf)
  next
    case False
    then show ?thesis using x assms(1) by (cases x) (simp_all add: unf)
  qed
qed

text \<open>How reading ends: with all the bytes asked for, which come next on the line, or with a code.\<close>

definition read_all :: "u8 list \<Rightarrow> nat \<Rightarrow> nat \<Rightarrow> serial \<Rightarrow> (c_int \<times> u8 list \<times> serial) option \<Rightarrow> bool" where
  "read_all buf off len s res \<longleftrightarrow>
     (\<exists>rc buf' s'. res = Some (rc, buf', s') \<and> rc \<in> {0, - 1, - 2} \<and> length buf' = length buf \<and>
        bus s' = bus s \<and> line_clk s' = line_clk s \<and>
        (rc = 0 \<longrightarrow> len \<le> length (rx_bytes (line s)) \<and> buf' = blit buf off (take len (rx_bytes (line s))) \<and>
           line s' = rx_drop len (line s)))"

lemma read_all_code: "rc \<in> {- 1, - 2} \<Longrightarrow> bus s' = bus s \<Longrightarrow> line_clk s' = line_clk s \<Longrightarrow> read_all buf off len s (Some (rc, buf, s'))"
  by (auto simp: read_all_def)

lemma read_all_cong: "read_all buf off len s1 res \<Longrightarrow> line s1 = line s \<Longrightarrow> bus s1 = bus s \<Longrightarrow> line_clk s1 = line_clk s \<Longrightarrow> read_all buf off len s res"
  by (simp add: read_all_def)

lemma read_all_EINTR:
  "read_all buf off len (s\<lparr>line := r\<rparr>) res \<Longrightarrow> line s = RxErr EINTR # r \<Longrightarrow> 0 < len \<Longrightarrow> read_all buf off len s res"
  unfolding read_all_def by (cases len) auto

lemma read_all_more:
  assumes "read_all (blit buf off bs) (off + length bs) (len - length bs) (s\<lparr>line := rx_drop (length bs) (line s)\<rparr>) res"
    and bs: "length bs \<le> len" "length bs \<le> length (rx_bytes (line s))" "bs = take (length bs) (rx_bytes (line s))" "off + len \<le> length buf"
  shows "read_all buf off len s res"
proof -
  let ?all = "rx_bytes (line s)"
  from assms(1) obtain rc buf' s' where r: "res = Some (rc, buf', s')" "rc \<in> {0, - 1, - 2}" "length buf' = length (blit buf off bs)"
    "bus s' = bus s" "line_clk s' = line_clk s" "rc = 0 \<longrightarrow> len - length bs \<le> length (rx_bytes (rx_drop (length bs) (line s))) \<and>
      buf' = blit (blit buf off bs) (off + length bs) (take (len - length bs) (rx_bytes (rx_drop (length bs) (line s)))) \<and>
      line s' = rx_drop (len - length bs) (rx_drop (length bs) (line s))"
    unfolding read_all_def by auto
  have drop: "rx_bytes (rx_drop (length bs) (line s)) = drop (length bs) ?all" using rx_bytes_drop[OF bs(2)] .
  have tk: "bs @ take (len - length bs) (drop (length bs) ?all) = take len ?all"
    using bs(1,3) by (metis le_add_diff_inverse take_add)
  have "rc = 0 \<longrightarrow> len \<le> length ?all \<and> buf' = blit buf off (take len ?all) \<and> line s' = rx_drop len (line s)"
  proof
    assume "rc = 0"
    then have z: "len - length bs \<le> length ?all - length bs"
      "buf' = blit (blit buf off bs) (off + length bs) (take (len - length bs) (drop (length bs) ?all))"
      "line s' = rx_drop (len - length bs) (rx_drop (length bs) (line s))" using r(6) drop by simp_all
    have le: "len \<le> length ?all" using z(1) bs(1,2) by linarith
    then have "rx_drop (len - length bs) (rx_drop (length bs) (line s)) = rx_drop len (line s)"
      using rx_drop_add[of "length bs" "len - length bs" "line s"] bs(1) by simp
    moreover have "blit (blit buf off bs) (off + length bs) (take (len - length bs) (drop (length bs) ?all)) = blit buf off (take len ?all)"
      using blit_append[where b = buf and off = off and xs = bs] bs(1,4) le tk by simp
    ultimately show "len \<le> length ?all \<and> buf' = blit buf off (take len ?all) \<and> line s' = rx_drop len (line s)" using z le by simp
  qed
  then show ?thesis using r bs(1,4) unfolding read_all_def by (intro exI[of _ rc] exI[of _ buf'] exI[of _ s']) simp
qed

lemma read_exact_all:
  assumes "fd_ok fd" and "sane_clock s" and "off + len \<le> length buf"
  shows "read_all buf off len s (read_exact_timeout fd buf off len d s)"
  using assms(2,3)
proof (induction "len + length (line s)" arbitrary: buf off len s rule: less_induct)
  case less
  note unf = read_exact_timeout.simps[of fd buf off len d s]
  show ?case
  proof (cases "len = 0")
    case True
    then show ?thesis by (simp add: read_exact_timeout.simps[of fd buf off 0] read_all_def)
  next
    case False
    from rtu_wait_readable_total[OF assms(1) less.prems(1), of d] obtain ready s1 where
      w: "rtu_wait_readable fd d s = Some (ready, s1)" by blast
    from rtu_wait_readable_waited[OF w] have s1: "line s1 = line s" "bus s1 = bus s" "line_clk s1 = line_clk s" "ready \<in> {0, - 1, - 2}"
      by (simp_all add: waited_def)
    have clk: "sane_clock s1" using less.prems(1) s1(3) by (simp add: sane_clock_def)
    show ?thesis
    proof (cases "ready = 0")
      case ne: False
      then show ?thesis using False w s1 by (auto simp: unf intro!: read_all_code)
    next
      case ready: True
      obtain x s2 where x: "sys_read len s1 = (x, s2)" by fastforce
      note k = sys_read_keeps[OF x]
      have body: "read_exact_timeout fd buf off len d s = (case x of
          Inl e \<Rightarrow> if e = EINTR then read_exact_timeout fd buf off len d s2 else Some (- 1, buf, s2)
        | Inr bs \<Rightarrow> if bs = [] then Some (- 2, buf, s2)
            else (case memcpy_to buf off bs (length bs) of None \<Rightarrow> None
                  | Some buf \<Rightarrow> read_exact_timeout fd buf (off + length bs) (len - length bs) d s2))"
        using False w ready x by (simp add: unf)
      have code: "read_all buf off len s (Some (rc, buf, s2))" if "rc \<in> {- 1, - 2}" for rc
        using that k s1 by (intro read_all_code) auto
      have intr: ?thesis if "x = Inl EINTR" "s2 = s1\<lparr>line := r\<rparr>" "line s1 = RxErr EINTR # r" for r
      proof -
        have "read_all buf off len s2 (read_exact_timeout fd buf off len d s2)"
          using that s1 clk less.prems(2) by (intro less.hyps) (simp_all add: sane_clock_def)
        then have "read_all buf off len s1 (read_exact_timeout fd buf off len d s2)"
          using that False by (intro read_all_EINTR[where s = s1 and r = r]) auto
        then show ?thesis using body that(1) s1 by (simp add: read_all_cong)
      qed
      show ?thesis
      proof (cases "rx_bytes (line s1) = []")
        case True
        show ?thesis
        proof (cases "line s1" rule: rx_bytes.cases)
          case (2 r)
          then show ?thesis using intr[of r] x by (simp add: sys_read_def)
        qed (use True x code body in \<open>auto simp: sys_read_def split: if_splits errno.splits\<close>)
      next
        case nonempty: False
        have "0 < len" using False by simp
        from sys_read_bytes[OF nonempty this] show ?thesis
        proof (elim disjE exE conjE)
          fix r assume "sys_read len s1 = (Inl EINTR, s1\<lparr>line := r\<rparr>)" "line s1 = RxErr EINTR # r"
          then show ?thesis using intr x by simp
        next
          fix bs assume bs: "bs \<noteq> []" "length bs \<le> len" "length bs \<le> length (rx_bytes (line s1))" "bs = take (length bs) (rx_bytes (line s1))"
            "sys_read len s1 = (Inr bs, s1\<lparr>line := rx_drop (length bs) (line s1)\<rparr>)"
          have s2: "s2 = s1\<lparr>line := rx_drop (length bs) (line s1)\<rparr>" "x = Inr bs" using x bs(5) by auto
          have pos: "0 < length bs" using bs(1) unfolding length_greater_0_conv .
          have "length (line s2) \<le> length (line s)" using sys_read_shorter(2)[OF bs(5)] s1(1) s2(1) by simp
          then have less: "len - length bs + length (line s2) < len + length (line s)" using pos bs(2) by linarith
          have fit: "off + length bs + (len - length bs) \<le> length (blit buf off bs)" using bs(2) less.prems(2) by simp
          have "sane_clock s2" using clk s2(1) by (simp add: sane_clock_def)
          from less.hyps[OF less this fit] have "read_all buf off len s1
              (read_exact_timeout fd (blit buf off bs) (off + length bs) (len - length bs) d s2)"
            unfolding s2(1) by (rule read_all_more[OF _ bs(2-4) less.prems(2)])
          moreover have "memcpy_to buf off bs (length bs) = Some (blit buf off bs)" using bs(2) less.prems(2) by (simp add: buf_simps)
          ultimately show ?thesis using body s2(2) bs(1) s1 by (simp add: read_all_cong)
        qed
      qed
    qed
  qed
qed

text \<open>A line that is ready whenever it is asked, before the deadline: then reading what arrives succeeds.\<close>

definition rtu_prompt :: "u64 \<Rightarrow> serial \<Rightarrow> bool" where
  "rtu_prompt d s \<longleftrightarrow> (\<forall>k. now_at s k < d) \<and> set (selects s) \<subseteq> {PollReady} \<and> rx_weight (line s) \<le> length (selects s)"

lemma sys_read_weight:
  "sys_read n s = (x, s') \<Longrightarrow> line s \<noteq> [] \<Longrightarrow> 0 < n \<Longrightarrow> rx_weight (line s') < rx_weight (line s)"
  by (auto simp: sys_read_def split: list.splits rx_event.splits dest!: arg_cong[of "drop n _" _ length])

lemma sys_read_selects: "sys_read n s = (x, s') \<Longrightarrow> selects s' = selects s"
  by (auto simp: sys_read_def split: list.splits rx_event.splits if_splits)

lemma wait_prompt:
  assumes "rtu_prompt d s" and "fd_ok fd" and "sane_clock s" and "line s \<noteq> []"
  shows "rtu_wait_readable fd d s = Some (0, s\<lparr>line_ticks := Suc (line_ticks s), selects := tl (selects s)\<rparr>) \<and> selects s \<noteq> []"
proof -
  have "0 < rx_weight (line s)" using assms(4) by (cases "line s" rule: rx_weight.cases) auto
  then have "selects s \<noteq> []" using assms(1) by (auto simp: rtu_prompt_def)
  then obtain r where "selects s = PollReady # r" using assms(1) by (cases "selects s") (auto simp: rtu_prompt_def)
  moreover have "\<not> d \<le> now s" using assms(1) by (simp add: rtu_prompt_def not_le)
  ultimately show ?thesis using assms(2) monotonic_us_now[OF assms(3)]
    by (simp add: rtu_wait_readable.simps[of fd d s] sys_select_def)
qed

lemma read_exact_prompt:
  assumes "fd_ok fd" and "sane_clock s" and "off + len \<le> length buf" and "rtu_prompt d s" and "len \<le> length (rx_bytes (line s))"
  shows "\<exists>s'. read_exact_timeout fd buf off len d s = Some (0, blit buf off (take len (rx_bytes (line s))), s') \<and>
    rtu_prompt d s' \<and> line s' = rx_drop len (line s) \<and> bus s' = bus s \<and> line_clk s' = line_clk s"
proof -
  have "\<exists>buf' s'. read_exact_timeout fd buf off len d s = Some (0, buf', s') \<and> rtu_prompt d s'"
    using assms(2-5)
  proof (induction "len + length (line s)" arbitrary: buf off len s rule: less_induct)
    case less
    show ?case
    proof (cases "len = 0")
      case True
      then show ?thesis using less.prems(3) by (simp add: read_exact_timeout.simps[of fd buf off 0])
    next
      case False
      have nonempty: "rx_bytes (line s) \<noteq> []" "line s \<noteq> []" using less.prems(4) False by auto
      let ?s = "s\<lparr>line_ticks := Suc (line_ticks s), selects := tl (selects s)\<rparr>"
      note w = wait_prompt[OF less.prems(3) assms(1) less.prems(1) nonempty(2)]
      have pr: "rtu_prompt d s2" if "sys_read len ?s = (x, s2)" for x s2
      proof -
        have "rx_weight (line s2) < rx_weight (line s)" using sys_read_weight[OF that] nonempty(2) False by simp
        moreover have "now_at s2 = now_at s" using sys_read_keeps[OF that] by (intro now_at_cong) simp
        moreover have "selects s2 = tl (selects s)" using sys_read_selects[OF that] by simp
        moreover have "set (tl (selects s)) \<subseteq> set (selects s)" by (cases "selects s") auto
        ultimately show ?thesis using less.prems(3) w by (auto simp: rtu_prompt_def)
      qed
      have ne: "rx_bytes (line ?s) \<noteq> []" "0 < len" using nonempty False by simp_all
      from sys_read_bytes[OF ne] show ?thesis
      proof (elim disjE exE conjE)
        fix r assume r: "sys_read len ?s = (Inl EINTR, ?s\<lparr>line := r\<rparr>)" "line ?s = RxErr EINTR # r"
        have "\<exists>buf' s'. read_exact_timeout fd buf off len d (?s\<lparr>line := r\<rparr>) = Some (0, buf', s') \<and> rtu_prompt d s'"
          using r less.prems pr[OF r(1)] by (intro less.hyps) (simp_all add: sane_clock_def)
        then show ?thesis using False w r by (simp add: read_exact_timeout.simps[of fd buf off len])
      next
        fix bs assume bs: "bs \<noteq> []" "length bs \<le> len" "length bs \<le> length (rx_bytes (line ?s))" "bs = take (length bs) (rx_bytes (line ?s))"
          "sys_read len ?s = (Inr bs, ?s\<lparr>line := rx_drop (length bs) (line ?s)\<rparr>)"
        let ?t = "?s\<lparr>line := rx_drop (length bs) (line ?s)\<rparr>"
        have pos: "0 < length bs" using bs(1) unfolding length_greater_0_conv .
        have "length (line ?t) \<le> length (line s)" using sys_read_shorter(2)[OF bs(5)] by simp
        then have lt: "len - length bs + length (line ?t) < len + length (line s)" using pos bs(2) by linarith
        have fit: "off + length bs + (len - length bs) \<le> length (blit buf off bs)" using bs(2) less.prems(2) by simp
        have clk: "sane_clock ?t" using less.prems(1) by (simp add: sane_clock_def)
        have rest: "len - length bs \<le> length (rx_bytes (line ?t))" using rx_bytes_drop[OF bs(3)] less.prems(4) by simp
        have "memcpy_to buf off bs (length bs) = Some (blit buf off bs)" using bs(2) less.prems(2) by (simp add: buf_simps)
        then have "read_exact_timeout fd buf off len d s =
            read_exact_timeout fd (blit buf off bs) (off + length bs) (len - length bs) d ?t"
          using False w bs(1) bs(5) by (simp add: read_exact_timeout.simps[of fd buf off len])
        then show ?thesis using less.hyps[OF lt clk fit pr[OF bs(5)] rest] by simp
      qed
    qed
  qed
  then obtain buf' s' where r: "read_exact_timeout fd buf off len d s = Some (0, buf', s')" "rtu_prompt d s'" by blast
  from read_exact_all[OF assms(1-3), of d] r show ?thesis by (auto simp: read_all_def)
qed

end
