(* ===== verification/Rtu_Transaction.thy ===== *)
theory Rtu_Transaction
  imports Rtu_Client_Facts
begin

text \<open>
  Lemmas about the two ends of a transaction of the RTU client: the silence before the request, and
  one response.
\<close>

section \<open>The silence before a request\<close>

text \<open>The silence a request has to keep since the last transaction on the bus, in microseconds.\<close>

definition silence_due :: "mb_rtu_shared_bus \<Rightarrow> u8 \<Rightarrow> u32 \<Rightarrow> u32 \<Rightarrow> nat" where
  "silence_due b unit_id inter_frame_us handoff_ms =
     (if \<not> sb_has_last_transaction b then 0
      else max (unat inter_frame_us) (if sb_last_unit_id b \<noteq> unit_id then unat handoff_ms * 1000 else 0))"

text \<open>The time between two clock readings, in microseconds.\<close>

definition elapsed :: "u64 \<times> u64 \<Rightarrow> u64 \<times> u64 \<Rightarrow> int" where
  "elapsed t t' = (uint (fst t) - uint (fst t')) * 1000000 + (uint (snd t) - uint (snd t')) sdiv 1000"

lemma sint_small: "uint (w :: u64) < 2 ^ 63 \<Longrightarrow> sint w = uint w"
proof -
  assume "uint w < 2 ^ 63"
  moreover have "- (2 ^ 63) \<le> uint w" by (rule order_trans[OF _ uint_ge_0]) simp
  ultimately have "signed_take_bit 63 (uint w) = uint w" by (intro signed_take_bit_int_eq_self)
  then show ?thesis by (simp add: sint_uint)
qed

lemma sdiv_abs: "\<bar>(x :: int) sdiv 1000\<bar> \<le> \<bar>x\<bar>"
proof -
  have "\<bar>x\<bar> div 1000 \<le> \<bar>x\<bar>" "0 \<le> \<bar>x\<bar> div 1000" by simp_all
  then show ?thesis by (simp add: signed_divide_int_def abs_mult abs_sgn_eq)
qed

lemma uint_less_nat: "unat (w :: u64) < n \<Longrightarrow> uint w < int n"
  by (metis of_nat_less_iff uint_nat)

lemma sane_time_uint:
  assumes "sane_time t"
  shows "uint (fst t) < 2 ^ 40" "uint (snd t) < 10 ^ 9"
  using assms uint_less_nat[of "fst t" "2 ^ 40"] uint_less_nat[of "snd t" "10 ^ 9"] by (simp_all add: sane_time_def)

lemma elapsed_range:
  "\<bar>x\<bar> < 2 ^ 40 \<Longrightarrow> \<bar>y\<bar> < 10 ^ 9 \<Longrightarrow> \<bar>x * 1000000 + y\<bar> < 2 ^ 62 \<and> \<bar>x * 1000000\<bar> < 2 ^ 62 \<and> \<bar>x\<bar> < 2 ^ 62" for x y :: int
  by (auto simp: abs_less_iff)

lemma elapsed_us_eq:
  assumes "sane_time t" and "sane_time t'"
  shows "elapsed_us t t' = Some (elapsed t t') \<and> \<bar>elapsed t t'\<bar> < 2 ^ 62"
proof -
  note b = sane_time_uint[OF assms(1)] sane_time_uint[OF assms(2)]
  have pos: "0 \<le> uint (fst t)" "0 \<le> uint (fst t')" "0 \<le> uint (snd t)" "0 \<le> uint (snd t')" by simp_all
  have s: "sint (fst t) = uint (fst t)" "sint (snd t) = uint (snd t)" "sint (fst t') = uint (fst t')" "sint (snd t') = uint (snd t')"
    by (rule sint_small, use b in simp)+
  have "\<bar>uint (snd t) - uint (snd t')\<bar> < 10 ^ 9" "\<bar>uint (fst t) - uint (fst t')\<bar> < 2 ^ 40" using b pos by linarith+
  then have d: "\<bar>(uint (snd t) - uint (snd t')) sdiv 1000\<bar> < 10 ^ 9" "\<bar>uint (fst t) - uint (fst t')\<bar> < 2 ^ 40"
    using sdiv_abs[of "uint (snd t) - uint (snd t')"] by linarith+
  note elapsed_range[OF d(2,1), folded elapsed_def]
  then show ?thesis unfolding elapsed_us_def Let_def s elapsed_def[symmetric] by simp
qed

text \<open>
  Waiting out the silence only pauses, and for long enough: the pause and the time since the bus was
  released together reach the silence due, unless the clock ran backwards.
\<close>

definition required_us :: "mb_rtu_shared_bus \<Rightarrow> u8 \<Rightarrow> u32 \<Rightarrow> u32 \<Rightarrow> u64" where
  "required_us b uid us ms =
     (if sb_last_unit_id b \<noteq> uid \<and> (ucast ms :: u64) * 1000 > ucast us then ucast ms * 1000 else ucast us)"

lemma unat_ms_us: "unat ((ucast (ms :: u32) :: u64) * 1000) = unat ms * 1000"
proof -
  have "unat ms < 2 ^ LENGTH(32)" by (rule unsigned_less)
  then have "unat ms * 1000 < 2 ^ 64" by simp
  then show ?thesis by (simp add: unat_word_ariths)
qed

lemma unat_required_us:
  "sb_has_last_transaction b \<Longrightarrow> unat (required_us b uid us ms) = silence_due b uid us ms"
  by (cases "sb_last_unit_id b = uid") (simp_all add: required_us_def silence_due_def unat_ms_us word_less_nat_alt max_def)

lemma wait_bus_silence_pause:
  assumes "sane_clock s" and rel: "sb_has_last_transaction b \<longrightarrow> sane_time (sb_last_release_time b)"
  shows "\<exists>p k. wait_bus_silence b uid us ms s = Some (s\<lparr>line_ticks := k, bus := bus s @ pauses p\<rparr>) \<and>
    (\<forall>t. line_clk s (line_ticks s) = Some t \<longrightarrow> 0 \<le> elapsed t (sb_last_release_time b) \<longrightarrow>
       int (silence_due b uid us ms) \<le> uint p + elapsed t (sb_last_release_time b))"
proof (cases "silence_due b uid us ms = 0")
  case True
  then have "wait_bus_silence b uid us ms s = Some s"
    using unat_required_us[of b uid us ms]
    by (cases "sb_has_last_transaction b") (simp_all add: wait_bus_silence_def required_us_def[symmetric] unsigned_eq_0_iff)
  then show ?thesis using True by (intro exI[of _ 0] exI[of _ "line_ticks s"]) (simp add: pauses_def)
next
  case False
  then have last: "sb_has_last_transaction b" unfolding silence_due_def by presburger
  let ?R = "required_us b uid us ms"
  have R: "unat ?R = silence_due b uid us ms" "?R \<noteq> 0" using unat_required_us[OF last, of uid us ms] False by auto
  from sane_clock_Some[OF assms(1), of "line_ticks s"] obtain t where t: "line_clk s (line_ticks s) = Some t" "sane_time t" by blast
  let ?e = "elapsed t (sb_last_release_time b)"
  have e: "elapsed_us t (sb_last_release_time b) = Some ?e" "\<bar>?e\<bar> < 2 ^ 62" using elapsed_us_eq[OF t(2)] rel last by simp_all
  have w: "wait_bus_silence b uid us ms s = (let s' = s\<lparr>line_ticks := Suc (line_ticks s)\<rparr> in
      if 0 \<le> ?e \<and> (word_of_int ?e :: u64) < ?R then Some (sleep_us (?R - word_of_int ?e) s') else Some s')"
    using last R(2) e(1) t(1) by (simp add: wait_bus_silence_def required_us_def[symmetric] sys_time_def Let_def)
  have ue: "uint (word_of_int ?e :: u64) = ?e" if "0 \<le> ?e"
    using e(2) that by (simp add: uint_word_of_int)
  have Ru: "uint ?R = int (silence_due b uid us ms)" using R(1) by (simp add: uint_nat)
  show ?thesis
  proof (cases "0 \<le> ?e \<and> (word_of_int ?e :: u64) < ?R")
    case True
    then have "uint (?R - word_of_int ?e) = uint ?R - ?e"
      using uint_sub_lem[of "word_of_int ?e" ?R] ue by (simp add: word_less_def)
    moreover have "?R - word_of_int ?e \<noteq> 0" using True by auto
    ultimately show ?thesis using w True Ru t(1)
      by (intro exI[of _ "?R - word_of_int ?e"] exI[of _ "Suc (line_ticks s)"]) (simp add: sleep_us_def pauses_def)
  next
    case late: False
    then have "0 \<le> ?e \<longrightarrow> int (silence_due b uid us ms) \<le> ?e" using ue Ru by (auto simp: word_less_def)
    then show ?thesis using w late t(1)
      by (intro exI[of _ 0] exI[of _ "Suc (line_ticks s)"]) (simp add: pauses_def)
  qed
qed

section \<open>One response\<close>

text \<open>The first \<open>k\<close> bytes of the line are read into the front of the buffer.\<close>

definition got :: "u8 list \<Rightarrow> nat \<Rightarrow> serial \<Rightarrow> u8 list \<Rightarrow> serial \<Rightarrow> bool" where
  "got buf k s buf' s' \<longleftrightarrow>
     k \<le> length (rx_bytes (line s)) \<and> buf' = blit buf 0 (take k (rx_bytes (line s))) \<and> line s' = rx_drop k (line s)"

lemma got_0: "line s' = line s \<Longrightarrow> got buf 0 s buf s'"
  by (simp add: got_def)

lemma got_rd: "got buf k s buf' s' \<Longrightarrow> i < k \<Longrightarrow> k \<le> length buf \<Longrightarrow> rd buf' i = Some (rx_bytes (line s) ! i)"
  by (simp add: got_def buf_simps nth_blit)

definition same_bus :: "serial \<Rightarrow> serial \<Rightarrow> bool" where
  "same_bus s s' \<longleftrightarrow> bus s' = bus s \<and> line_clk s' = line_clk s"

lemma same_bus_refl [simp]: "same_bus s s"
  by (simp add: same_bus_def)

lemma same_bus_trans: "same_bus s s1 \<Longrightarrow> same_bus s1 s2 \<Longrightarrow> same_bus s s2"
  by (simp add: same_bus_def)

lemma same_bus_clock: "same_bus s s' \<Longrightarrow> sane_clock s' = sane_clock s"
  by (simp add: same_bus_def sane_clock_def)

lemma got_more:
  assumes "got buf k s buf1 s1" and "fd_ok fd" and "sane_clock s1" and "k + len \<le> length buf"
  shows "\<exists>rc buf2 s2. read_exact_timeout fd buf1 k len d s1 = Some (rc, buf2, s2) \<and> rc \<in> {0, - 1, - 2} \<and>
    length buf2 = length buf \<and> same_bus s1 s2 \<and> (rc = 0 \<longrightarrow> got buf (k + len) s buf2 s2) \<and>
    (rtu_prompt d s1 \<longrightarrow> k + len \<le> length (rx_bytes (line s)) \<longrightarrow> rc = 0 \<and> rtu_prompt d s2)"
proof -
  let ?rx = "rx_bytes (line s)"
  have g: "k \<le> length ?rx" "buf1 = blit buf 0 (take k ?rx)" "line s1 = rx_drop k (line s)" using assms(1) by (simp_all add: got_def)
  have fit: "k + len \<le> length buf1" using g assms(4) by simp
  have rx1: "rx_bytes (line s1) = drop k ?rx" using g(1,3) rx_bytes_drop by simp
  from read_exact_all[OF assms(2,3) fit, of d] obtain rc buf2 s2 where
    r: "read_exact_timeout fd buf1 k len d s1 = Some (rc, buf2, s2)" "rc \<in> {0, - 1, - 2}" "length buf2 = length buf1"
      "bus s2 = bus s1" "line_clk s2 = line_clk s1" "rc = 0 \<longrightarrow> len \<le> length (rx_bytes (line s1)) \<and>
        buf2 = blit buf1 k (take len (rx_bytes (line s1))) \<and> line s2 = rx_drop len (line s1)"
    unfolding read_all_def by blast
  have "got buf (k + len) s buf2 s2" if "rc = 0"
  proof -
    have le: "k + len \<le> length ?rx" using r(6) that rx1 g(1) by (auto simp: le_diff_conv2)
    have "blit buf1 k (take len (drop k ?rx)) = blit buf 0 (take k ?rx @ take len (drop k ?rx))"
      using blit_append[where b = buf and off = 0 and xs = "take k ?rx"] g(1,2) le assms(4) by simp
    moreover have "rx_drop len (line s1) = rx_drop (k + len) (line s)" using rx_drop_add[of k len "line s"] g(3) le by simp
    ultimately show ?thesis using r(6) that rx1 le by (simp add: got_def take_add)
  qed
  moreover have "rc = 0 \<and> rtu_prompt d s2" if "rtu_prompt d s1" "k + len \<le> length ?rx"
    using read_exact_prompt[OF assms(2,3) fit that(1)] r(1) rx1 that(2) by auto
  moreover have "length buf2 = length buf" using r(3) g(1,2) assms(4) by simp
  ultimately show ?thesis using r(1,2,4,5) by (intro exI[of _ rc] exI[of _ buf2] exI[of _ s2]) (simp add: same_bus_def)
qed

text \<open>The length of the response that starts with these bytes, as the function code and the byte count give it.\<close>

definition response_len :: "u8 \<Rightarrow> u8 list \<Rightarrow> nat option" where
  "response_len fc bs =
     (if bs ! 1 = fc OR 0x80 then Some 5
      else if bs ! 1 \<noteq> fc then None
      else if fc \<le> 4 then (if 5 + unat (bs ! 2) > 256 then None else Some (5 + unat (bs ! 2)))
      else Some 8)"

text \<open>A response on the line: complete, of the length its header gives, with a valid checksum and from this unit.\<close>

definition response_here :: "u8 \<Rightarrow> u8 \<Rightarrow> u8 list \<Rightarrow> nat \<Rightarrow> bool" where
  "response_here uid fc bs n \<longleftrightarrow> n \<le> length bs \<and> response_len fc bs = Some n \<and> crc_of (take n bs) = 0 \<and> bs ! 0 = uid"

definition finish_response ::
    "c_int \<Rightarrow> u8 \<Rightarrow> nat \<Rightarrow> nat \<Rightarrow> u8 list \<Rightarrow> u64 \<Rightarrow> serial \<Rightarrow> (c_int \<times> u8 list \<times> nat \<times> serial) option" where
  "finish_response fd uid frame_len total_len buf d s = do {
     (rc, buf, s) \<leftarrow> read_exact_timeout fd buf total_len (frame_len - total_len) d s;
     if rc \<noteq> 0 then Some (rc, buf, total_len, s)
     else do {
       valid \<leftarrow> mb_rtu_validate_crc (Some buf) frame_len;
       if valid \<noteq> 0 then Some (RTU_IO_CRC_ERROR, buf, frame_len, s)
       else do {
         u \<leftarrow> rd buf 0;
         Some (if u \<noteq> uid then RTU_IO_UNIT_ID_ERROR else 0, buf, frame_len, s) } } }"

lemma recv_response_alt:
  "rtu_recv_response ctx b uid fc buf s = do {
     (d, s) \<leftarrow> response_deadline_us ctx b s;
     (rc, buf, s) \<leftarrow> read_exact_timeout (rc_fd ctx) buf 0 2 d s;
     if rc \<noteq> 0 then Some (rc, buf, 0, s)
     else do {
       resp_fc \<leftarrow> rd buf 1;
       if resp_fc = fc OR 0x80 then finish_response (rc_fd ctx) uid 5 2 buf d s
       else if resp_fc \<noteq> fc then Some (RTU_IO_FRAME_ERROR, buf, 2, s)
       else if fc \<le> 4 then do {
         (rc, buf, s) \<leftarrow> read_exact_timeout (rc_fd ctx) buf 2 1 d s;
         if rc \<noteq> 0 then Some (rc, buf, 2, s)
         else do {
           n \<leftarrow> rd buf 2;
           if 5 + unat n > 256 then Some (RTU_IO_FRAME_ERROR, buf, 3, s)
           else finish_response (rc_fd ctx) uid (5 + unat n) 3 buf d s } }
       else finish_response (rc_fd ctx) uid 8 2 buf d s } }"
  unfolding rtu_recv_response_def
  by (rule Option.bind_cong[OF refl], clarsimp split: prod.splits, rule Option.bind_cong[OF refl])
     (simp add: finish_response_def Let_def split: option.split prod.split Option.bind_splits)

text \<open>How receiving a response ends.\<close>

definition receives :: "u8 \<Rightarrow> u8 \<Rightarrow> u8 list \<Rightarrow> bool \<Rightarrow> serial \<Rightarrow> serial \<Rightarrow> (c_int \<times> u8 list \<times> nat \<times> serial) option \<Rightarrow> bool" where
  "receives uid fc buf in_time s s1 res \<longleftrightarrow>
     (\<exists>rc buf' n s'. res = Some (rc, buf', n, s') \<and> rc \<in> {0, - 1, - 2, - 10, - 11, - 12} \<and> length buf' = length buf \<and> same_bus s1 s' \<and>
        (rc = 0 \<longrightarrow> response_here uid fc (rx_bytes (line s)) n \<and> got buf n s buf' s') \<and>
        (in_time \<longrightarrow> (\<exists>n. response_here uid fc (rx_bytes (line s)) n) \<longrightarrow> rc = 0))"

lemma receives_code:
  "rc \<in> {- 1, - 2, - 10, - 11, - 12} \<Longrightarrow> length buf' = length buf \<Longrightarrow> same_bus s1 s' \<Longrightarrow>
   in_time \<and> (\<exists>n. response_here uid fc (rx_bytes (line s)) n) \<longrightarrow> False \<Longrightarrow> receives uid fc buf in_time s s1 (Some (rc, buf', n, s'))"
  unfolding receives_def by (intro exI[of _ rc] exI[of _ buf'] exI[of _ n] exI[of _ s']) auto

lemma response_here_unique: "response_here uid fc bs n \<Longrightarrow> response_here uid fc bs m \<Longrightarrow> n = m"
  by (simp add: response_here_def)

lemma finish_response_receives:
  assumes g: "got buf k s buf1 s1" and "fd_ok fd" and "sane_clock s1" and len: "k \<le> n" "5 \<le> n" "n \<le> length buf"
    and rl: "response_len fc (rx_bytes (line s)) = Some n"
  shows "receives uid fc buf (rtu_prompt d s1) s s1 (finish_response fd uid n k buf1 d s1)"
proof -
  let ?rx = "rx_bytes (line s)"
  have kn: "k + (n - k) = n" using len(1) by simp
  have "k + (n - k) \<le> length buf" using len by simp
  from got_more[OF g assms(2,3) this, of d, unfolded kn] obtain rc buf2 s2 where
    r: "read_exact_timeout fd buf1 k (n - k) d s1 = Some (rc, buf2, s2)" "rc \<in> {0, - 1, - 2}" "length buf2 = length buf" "same_bus s1 s2"
      "rc = 0 \<longrightarrow> got buf n s buf2 s2" "rtu_prompt d s1 \<longrightarrow> n \<le> length ?rx \<longrightarrow> rc = 0 \<and> rtu_prompt d s2"
    by (elim exE conjE) (rule that; assumption)
  have only: "\<exists>m. response_here uid fc ?rx m \<Longrightarrow> response_here uid fc ?rx n" using rl by (auto simp: response_here_def)
  have le: "response_here uid fc ?rx n \<Longrightarrow> n \<le> length ?rx" by (simp add: response_here_def)
  show ?thesis
  proof (cases "rc = 0")
    case False
    then have "\<not> (rtu_prompt d s1 \<and> (\<exists>m. response_here uid fc ?rx m))" using only le r(6) by blast
    moreover have "finish_response fd uid n k buf1 d s1 = Some (rc, buf2, k, s2)" using False r(1) by (simp add: finish_response_def)
    moreover have "rc \<in> {- 1, - 2, - 10, - 11, - 12}" using False r(2) by blast
    ultimately show ?thesis using r(3,4) by (simp add: receives_code)
  next
    case True
    then have g2: "got buf n s buf2 s2" using r(5) by simp
    then have n: "n \<le> length ?rx" "take n buf2 = take n ?rx" using len(3) by (auto simp: got_def)
    have "mb_rtu_validate_crc (Some buf2) n = Some (if crc_of (take n ?rx) = 0 then 0 else - 1)"
      using validate_crc_residue[of n buf2] n(2) len r(3) by simp
    moreover have "rd buf2 0 = Some (?rx ! 0)" using got_rd[OF g2, of 0] len by simp
    ultimately have fin: "finish_response fd uid n k buf1 d s1 =
        Some (if crc_of (take n ?rx) \<noteq> 0 then - 11 else if ?rx ! 0 \<noteq> uid then - 12 else 0, buf2, n, s2)"
      using r(1) True by (simp add: finish_response_def)
    show ?thesis
    proof (cases "crc_of (take n ?rx) = 0 \<and> ?rx ! 0 = uid")
      case here: True
      then have "response_here uid fc ?rx n" using n(1) rl by (simp add: response_here_def)
      then show ?thesis using fin here g2 r(3,4) unfolding receives_def
        by (intro exI[of _ 0] exI[of _ buf2] exI[of _ n] exI[of _ s2]) simp
    next
      case False
      then have "\<not> response_here uid fc ?rx n" unfolding response_here_def by blast
      then have "\<not> (\<exists>m. response_here uid fc ?rx m)" using only by blast
      moreover have "\<exists>rc. finish_response fd uid n k buf1 d s1 = Some (rc, buf2, n, s2) \<and> rc \<in> {- 11, - 12}" using fin False by auto
      ultimately show ?thesis using r(3,4) by (elim exE conjE) (simp add: receives_code)
    qed
  qed
qed

text \<open>The time a response may take.\<close>

definition deadline_span :: "mb_rtu_client_ctx \<Rightarrow> mb_rtu_shared_bus \<Rightarrow> u64" where
  "deadline_span ctx b =
     ucast (if rc_response_timeout_ms (rc_cfg ctx) \<noteq> 0 then rc_response_timeout_ms (rc_cfg ctx) else 1000) * 1000 +
     the (frame_wire_time_us b 256)"

lemma response_deadline:
  "sane_clock s \<Longrightarrow> sb_baud_rate b \<noteq> 0 \<Longrightarrow>
   response_deadline_us ctx b s = Some (now s + deadline_span ctx b, s\<lparr>line_ticks := Suc (line_ticks s)\<rparr>)"
  by (simp add: response_deadline_us_def monotonic_us_now deadline_span_def frame_wire_time_us_def Let_def add.assoc)

lemma rtu_prompt_tick: "rtu_prompt d s \<Longrightarrow> rtu_prompt d (s\<lparr>line_ticks := k\<rparr>)"
  using now_at_cong[of "s\<lparr>line_ticks := k\<rparr>" s] by (simp add: rtu_prompt_def)

lemma response_len_range: "response_len fc bs = Some n \<Longrightarrow> 5 \<le> n \<and> n \<le> 256"
  by (auto simp: response_len_def split: if_splits)

lemma response_here_long: "response_here uid fc bs n \<Longrightarrow> 5 \<le> length bs"
  using response_len_range[of fc bs n] by (simp add: response_here_def)

lemma receives_cong: "receives uid fc buf p s s1 res \<Longrightarrow> same_bus s0 s1 \<Longrightarrow> (q \<Longrightarrow> \<exists>n. response_here uid fc (rx_bytes (line s)) n \<Longrightarrow> p) \<Longrightarrow>
   receives uid fc buf q s s0 res"
  unfolding receives_def using same_bus_trans by (elim exE conjE) (rule exI, rule exI, rule exI, rule exI, rule conjI, assumption, blast)

lemma recv_response_receives:
  assumes "fd_ok (rc_fd ctx)" and "sane_clock s" and "sb_baud_rate b \<noteq> 0" and buf: "length buf = 256"
  shows "receives uid fc buf (rtu_prompt (now s + deadline_span ctx b) s) s s (rtu_recv_response ctx b uid fc buf s)"
proof -
  let ?d = "now s + deadline_span ctx b" and ?s = "s\<lparr>line_ticks := Suc (line_ticks s)\<rparr>" and ?rx = "rx_bytes (line s)"
  have s: "same_bus s ?s" "sane_clock ?s" using assms(2) by (simp_all add: same_bus_def sane_clock_def)
  have g: "got buf 0 s buf ?s" by (rule got_0) simp
  have "0 + 2 \<le> length buf" using buf by simp
  from got_more[OF g assms(1) s(2) this, of ?d] obtain rc buf1 s1 where
    r: "read_exact_timeout (rc_fd ctx) buf 0 2 ?d ?s = Some (rc, buf1, s1)" "rc \<in> {0, - 1, - 2}" "length buf1 = length buf" "same_bus ?s s1"
      "rc = 0 \<longrightarrow> got buf (0 + 2) s buf1 s1" "rtu_prompt ?d ?s \<longrightarrow> 0 + 2 \<le> length ?rx \<longrightarrow> rc = 0 \<and> rtu_prompt ?d s1"
    by (elim exE conjE) (rule that; assumption)
  have p: "rtu_prompt ?d s \<Longrightarrow> \<exists>n. response_here uid fc ?rx n \<Longrightarrow> rc = 0 \<and> rtu_prompt ?d s1"
    using r(6) rtu_prompt_tick response_here_long by fastforce
  have code: "receives uid fc buf (rtu_prompt ?d s) s s (Some (c, buf', n, s'))"
    if "c \<in> {- 1, - 2, - 10}" "length buf' = length buf" "same_bus s s'" "\<not> (rtu_prompt ?d s \<and> (\<exists>n. response_here uid fc ?rx n))" for c buf' n s'
    using that by (intro receives_code) auto
  note alt = recv_response_alt[of ctx b uid fc buf s] response_deadline[OF assms(2,3), of ctx] r(1)
  show ?thesis
  proof (cases "rc = 0")
    case False
    then have "rtu_recv_response ctx b uid fc buf s = Some (rc, buf1, 0, s1)" by (simp add: alt)
    moreover have "rc \<in> {- 1, - 2, - 10}" using False r(2) by blast
    moreover have "same_bus s s1" using same_bus_trans[OF s(1) r(4)] .
    moreover have "\<not> (rtu_prompt ?d s \<and> (\<exists>n. response_here uid fc ?rx n))" using False p by blast
    ultimately show ?thesis using code[of rc buf1 s1 0] r(3) by auto
  next
    case rc: True
    then have g: "got buf 2 s buf1 s1" using r(5) by (simp add: numeral_2_eq_2)
    have clk: "sane_clock s1" "same_bus s s1" using same_bus_clock[OF r(4)] s same_bus_trans[OF s(1) r(4)] by auto
    have fc: "rd buf1 1 = Some (?rx ! 1)" using got_rd[OF g, of 1] buf by simp
    have fin: "receives uid fc buf (rtu_prompt ?d s) s s (finish_response (rc_fd ctx) uid n 2 buf1 ?d s1)"
      if "response_len fc ?rx = Some n" for n
    proof -
      have n: "2 \<le> n" "5 \<le> n" "n \<le> length buf" using response_len_range[OF that] buf by auto
      show ?thesis using p by (intro receives_cong[OF finish_response_receives[OF g assms(1) clk(1) n that] clk(2)]) blast
    qed
    consider "?rx ! 1 = fc OR 0x80" | "?rx ! 1 \<noteq> fc OR 0x80" "?rx ! 1 \<noteq> fc" | "?rx ! 1 \<noteq> fc OR 0x80" "?rx ! 1 = fc" "fc \<le> 4"
      | "?rx ! 1 \<noteq> fc OR 0x80" "?rx ! 1 = fc" "\<not> fc \<le> 4" by blast
    then show ?thesis
    proof cases
      case 1
      then show ?thesis using fin[of 5] rc fc by (simp add: alt response_len_def)
    next
      case 2
      then have "rtu_recv_response ctx b uid fc buf s = Some (- 10, buf1, 2, s1)" using rc fc by (simp add: alt)
      moreover have "\<not> response_here uid fc ?rx n" for n using 2 by (simp add: response_here_def response_len_def)
      ultimately show ?thesis using code[of "- 10" buf1 s1 2] r(3) clk(2) by auto
    next
      case 4
      then show ?thesis using fin[of 8] rc fc by (simp add: alt response_len_def)
    next
      case 3
      have "2 + 1 \<le> length buf" using buf by simp
      from got_more[OF g assms(1) clk(1) this, of ?d] obtain rc2 buf2 s2 where
        r2: "read_exact_timeout (rc_fd ctx) buf1 2 1 ?d s1 = Some (rc2, buf2, s2)" "rc2 \<in> {0, - 1, - 2}" "length buf2 = length buf" "same_bus s1 s2"
          "rc2 = 0 \<longrightarrow> got buf (2 + 1) s buf2 s2" "rtu_prompt ?d s1 \<longrightarrow> 2 + 1 \<le> length ?rx \<longrightarrow> rc2 = 0 \<and> rtu_prompt ?d s2"
        by (elim exE conjE) (rule that; assumption)
      have p2: "rtu_prompt ?d s \<Longrightarrow> \<exists>n. response_here uid fc ?rx n \<Longrightarrow> rc2 = 0 \<and> rtu_prompt ?d s2"
        using p r2(6) response_here_long by fastforce
      have sb: "same_bus s s2" "sane_clock s2" using same_bus_trans[OF clk(2) r2(4)] same_bus_clock[OF r2(4)] clk(1) by auto
      have step: "rtu_recv_response ctx b uid fc buf s = (if rc2 \<noteq> 0 then Some (rc2, buf2, 2, s2) else do {
          n \<leftarrow> rd buf2 2;
          if 5 + unat n > 256 then Some (- 10, buf2, 3, s2) else finish_response (rc_fd ctx) uid (5 + unat n) 3 buf2 ?d s2 })"
        using 3 rc fc r2(1) by (simp add: alt)
      show ?thesis
      proof (cases "rc2 = 0")
        case False
        then have "rc2 \<in> {- 1, - 2, - 10}" "\<not> (rtu_prompt ?d s \<and> (\<exists>n. response_here uid fc ?rx n))" using r2(2) p2 by blast+
        then show ?thesis using step False code[of rc2 buf2 s2 2] r2(3) sb(1) by simp
      next
        case True
        then have g2: "got buf 3 s buf2 s2" using r2(5) by simp
        have n: "rd buf2 2 = Some (?rx ! 2)" using got_rd[OF g2, of 2] buf by simp
        show ?thesis
        proof (cases "5 + unat (?rx ! 2) > 256")
          case True
          then have "\<not> response_here uid fc ?rx n" for n using 3 by (simp add: response_here_def response_len_def)
          then show ?thesis using step n \<open>rc2 = 0\<close> True code[of "- 10" buf2 s2 3] r2(3) sb(1) by auto
        next
          case False
          then have "response_len fc ?rx = Some (5 + unat (?rx ! 2))" using 3 by (simp add: response_len_def)
          moreover have "3 \<le> 5 + unat (?rx ! 2)" "5 \<le> 5 + unat (?rx ! 2)" "5 + unat (?rx ! 2) \<le> length buf" using False buf by simp_all
          ultimately have "receives uid fc buf (rtu_prompt ?d s) s s (finish_response (rc_fd ctx) uid (5 + unat (?rx ! 2)) 3 buf2 ?d s2)"
            using p2 by (intro receives_cong[OF finish_response_receives[OF g2 assms(1) sb(2)] sb(1)]) blast+
          then show ?thesis using step n \<open>rc2 = 0\<close> False by simp
        qed
      qed
    qed
  qed
qed

end
