(* ===== verification/Rtu_Exchange.thy ===== *)
theory Rtu_Exchange
  imports Rtu_Transaction
begin

text \<open>
  Lemmas about the whole transaction of the RTU client: what it puts on the bus, and how it ends, for
  every script of the line.
\<close>

section \<open>The parts of a transaction\<close>

text \<open>The request goes out framed; what follows is the echo, the response and the release of the bus.\<close>

definition request_adu :: "mb_rtu_client_ctx \<Rightarrow> u8 list \<Rightarrow> u8 list" where
  "request_adu ctx pdu = rtu_adu (rc_unit_id (rc_cfg ctx) # pdu)"

lemma length_request_adu [simp]: "length (request_adu ctx pdu) = length pdu + 3"
  by (simp add: request_adu_def)

definition read_echo :: "u8 list \<Rightarrow> mb_rtu_client_ctx \<Rightarrow> mb_rtu_shared_bus \<Rightarrow> u8 list \<Rightarrow> nat \<Rightarrow> serial \<Rightarrow> (bool \<times> serial) option" where
  "read_echo echo ctx b req req_len s =
     (if rc_local_echo (rc_cfg ctx) \<noteq> 0 then do {
        (deadline_us, s) \<leftarrow> response_deadline_us ctx b s;
        (rc, echo, s) \<leftarrow> read_exact_timeout (rc_fd ctx) echo 0 req_len deadline_us s;
        if rc \<noteq> 0 then Some (False, s)
        else do { same \<leftarrow> memcmp_eq echo req req_len; Some (same, s) } }
      else Some (True, s))"

definition after_request ::
    "u8 list \<Rightarrow> mb_rtu_client_ctx \<Rightarrow> mb_rtu_shared_bus \<Rightarrow> nat \<Rightarrow> u8 list \<Rightarrow> u8 list \<Rightarrow> nat \<Rightarrow> u8 \<Rightarrow> u8 list \<Rightarrow> bus_store \<Rightarrow> serial \<Rightarrow>
     (c_int \<times> u8 list \<times> bus_store \<times> serial) option" where
  "after_request echo ctx b a pdu req req_len fc resp H s = do {
     (echo_ok, s) \<leftarrow> read_echo echo ctx b req req_len s;
     if \<not> echo_ok then do {
       (H, s) \<leftarrow> bus_transaction_end ctx a H s;
       Some (MB_RTU_CLIENT_ERR_TRANSPORT, resp, H, s) }
     else if rc_unit_id (rc_cfg ctx) = 0 then do {
       (H, s) \<leftarrow> bus_transaction_end ctx a H s;
       Some (MB_RTU_CLIENT_OK, resp, H, s) }
     else do {
       (rc, resp, resp_len, s) \<leftarrow> rtu_recv_response ctx b (rc_unit_id (rc_cfg ctx)) fc resp s;
       (H, s) \<leftarrow> bus_transaction_end ctx a H s;
       if rc \<noteq> 0 then Some (io_err_to_client_err rc, resp, H, s)
       else do {
         rc \<leftarrow> mb_pdu_check_response pdu (ptr resp 1) (resp_len - 1 - MODBUS_RTU_CRC_LEN);
         Some (if rc = MB_PDU_ERR_FRAME then MB_RTU_CLIENT_ERR_FRAME else rc, resp, H, s) } } }"

lemma send_frame_take: "len \<le> length buf \<Longrightarrow> send_frame hook w fd buf len s = send_frame hook w fd (take len buf) len s"
  by (simp add: send_frame_def write_all_def)

lemma rtu_request_buffer:
  assumes "length req = 256" and "1 \<le> n" and "n \<le> 253" and "n \<le> length pdu"
  shows "do { req \<leftarrow> wr req 0 u; req \<leftarrow> memcpy_to req 1 pdu n; mb_rtu_append_crc (Some req) (1 + n) 256 } =
    Some (0, Some (blit req 0 (rtu_adu (u # take n pdu))))"
proof -
  have "wr req 0 u = Some (blit req 0 [u])" using assms(1) by (simp add: buf_simps)
  moreover have "memcpy_to (blit req 0 [u]) 1 pdu n = Some (blit req 0 (u # take n pdu))"
    using assms by (simp add: buf_simps)
  moreover have "mb_rtu_append_crc (Some (blit req 0 (u # take n pdu))) (1 + n) 256 = Some (0, Some (blit req 0 (rtu_adu (u # take n pdu))))"
    using assms by (intro append_crc_frame) simp_all
  ultimately show ?thesis by simp
qed

lemma rtu_transact_parts:
  assumes "rc_initialized ctx \<noteq> 0" and bus: "rc_shared_bus ctx = Some a" "H a = Some b"
    and n: "1 \<le> n" "n \<le> 253" "n \<le> length pdu" and w: "rc_unit_id (rc_cfg ctx) = 0 \<longrightarrow> mb_pdu_is_write (hd pdu)"
  shows "\<exists>echo rest. length echo = 256 \<and> length rest = 253 - n \<and> rtu_transact J ctx pdu n resp H s = do {
     s \<leftarrow> bus_transaction_begin ctx b s;
     (sent, s) \<leftarrow> send_frame (rc_tx_hook (rc_cfg ctx)) False (rc_fd ctx) (request_adu ctx (take n pdu)) (n + 3) (sys_flush s);
     if sent \<noteq> 0 then do {
       (H, s) \<leftarrow> bus_transaction_end ctx a H s;
       Some (MB_RTU_CLIENT_ERR_TRANSPORT, resp, H, s) }
     else after_request echo ctx b a pdu (request_adu ctx (take n pdu) @ rest) (n + 3) (hd pdu) resp H s }"
proof -
  let ?u = "rc_unit_id (rc_cfg ctx)" and ?req = "local8 J 256" and ?adu = "request_adu ctx (take n pdu)"
  have len: "length ?adu = n + 3" using n by simp
  have "length ?req = 256" by simp
  from rtu_request_buffer[OF this n, of ?u] obtain r1 r2 where
    r: "wr ?req 0 ?u = Some r1" "memcpy_to r1 1 pdu n = Some r2"
      "mb_rtu_append_crc (Some r2) (1 + n) 256 = Some (0, Some (blit ?req 0 ?adu))"
    by (auto simp: bind_eq_Some_conv request_adu_def)
  have req: "blit ?req 0 ?adu = ?adu @ drop (n + 3) ?req" using len by (simp add: blit_def)
  have send: "send_frame hook w fd (?adu @ drop (n + 3) ?req) (n + 3) s = send_frame hook w fd ?adu (n + 3) s" for hook w fd s
    using send_frame_take[of "n + 3" "?adu @ drop (n + 3) ?req" hook w fd s] len by simp
  have fc: "rd pdu 0 = Some (hd pdu)" using n by (cases pdu) auto
  have nb: "(?u = 0 \<and> \<not> mb_pdu_is_write (hd pdu)) = False" using w by auto
  have ln: "Suc (Suc (Suc n)) = n + 3" by simp
  have "rtu_transact J ctx pdu n resp H s = do {
     s \<leftarrow> bus_transaction_begin ctx b s;
     (sent, s) \<leftarrow> send_frame (rc_tx_hook (rc_cfg ctx)) False (rc_fd ctx) ?adu (n + 3) (sys_flush s);
     if sent \<noteq> 0 then do {
       (H, s) \<leftarrow> bus_transaction_end ctx a H s;
       Some (MB_RTU_CLIENT_ERR_TRANSPORT, resp, H, s) }
     else after_request (local8 (stack_above 256 J) 256) ctx b a pdu (?adu @ drop (n + 3) ?req) (n + 3) (hd pdu) resp H s }"
    unfolding rtu_transact_def Let_def after_request_def read_echo_def
    using assms(1) by (simp add: fc bus nb r[simplified] send req ln cong: if_cong)
  then show ?thesis using n by (intro exI[of _ "local8 (stack_above 256 J) 256"] exI[of _ "drop (n + 3) ?req"]) simp
qed

section \<open>The echo\<close>

text \<open>
  The bytes of the echo, if the transceiver echoes; and a line that is ready whenever it is asked while
  no two readings of the clock are as far apart as a response may take.
\<close>

definition echoed :: "mb_rtu_client_ctx \<Rightarrow> u8 list \<Rightarrow> u8 list" where
  "echoed ctx adu = (if rc_local_echo (rc_cfg ctx) \<noteq> 0 then adu else [])"

definition in_time :: "mb_rtu_client_ctx \<Rightarrow> mb_rtu_shared_bus \<Rightarrow> serial \<Rightarrow> bool" where
  "in_time ctx b s \<longleftrightarrow> (\<forall>j. rtu_prompt (now_at s j + deadline_span ctx b) s)"

lemma in_time_after:
  "in_time ctx b s \<Longrightarrow> rtu_prompt d s' \<Longrightarrow> line_clk s' = line_clk s \<Longrightarrow> in_time ctx b s'"
  using now_at_cong[of s' s] by (simp add: in_time_def rtu_prompt_def)

lemma read_echo_ends:
  assumes "fd_ok (rc_fd ctx)" and "sane_clock s" and "sb_baud_rate b \<noteq> 0" and len: "length adu = m" "m \<le> 256" "length echo = 256"
  shows "\<exists>ok s1. read_echo echo ctx b (adu @ rest) m s = Some (ok, s1) \<and> same_bus s s1 \<and>
    (ok \<longrightarrow> rx_bytes (line s) = echoed ctx adu @ rx_bytes (line s1)) \<and>
    (in_time ctx b s \<longrightarrow> (\<exists>r. rx_bytes (line s) = echoed ctx adu @ r) \<longrightarrow> ok \<and> in_time ctx b s1)"
proof (cases "rc_local_echo (rc_cfg ctx) = 0")
  case True
  then show ?thesis by (intro exI[of _ True] exI[of _ s]) (simp add: read_echo_def echoed_def)
next
  case echo: False
  let ?d = "now s + deadline_span ctx b" and ?s = "s\<lparr>line_ticks := Suc (line_ticks s)\<rparr>"
  have s: "same_bus s ?s" "sane_clock ?s" using assms(2) by (simp_all add: same_bus_def sane_clock_def)
  have g: "got echo 0 s echo ?s" by (rule got_0) simp
  have "0 + m \<le> length echo" using len by simp
  from got_more[OF g assms(1) s(2) this, of ?d, simplified] obtain rc buf s1 where
    r: "read_exact_timeout (rc_fd ctx) echo 0 m ?d ?s = Some (rc, buf, s1)" "length buf = length echo" "same_bus ?s s1"
      "rc = 0 \<longrightarrow> got echo m s buf s1"
      "rtu_prompt ?d ?s \<longrightarrow> m \<le> length (rx_bytes (line s)) \<longrightarrow> rc = 0 \<and> rtu_prompt ?d s1"
    by (elim exE conjE) (rule that; assumption)
  have sb: "same_bus s s1" using same_bus_trans[OF s(1) r(3)] .
  have "memcmp_eq buf (adu @ rest) m = Some (take m buf = adu)" using r(2) len by (simp add: memcmp_eq_def)
  then have e: "read_echo echo ctx b (adu @ rest) m s = Some (rc = 0 \<and> take m buf = adu, s1)"
    using echo r(1) response_deadline[OF assms(2,3), of ctx] by (simp add: read_echo_def)
  have "rx_bytes (line s) = echoed ctx adu @ rx_bytes (line s1)" if "rc = 0" "take m buf = adu"
  proof -
    have "got echo m s buf s1" using r(4) that(1) by simp
    then have "m \<le> length (rx_bytes (line s))" "take m (rx_bytes (line s)) = adu" "rx_bytes (line s1) = drop m (rx_bytes (line s))"
      using that(2) len rx_bytes_drop by (auto simp: got_def)
    then show ?thesis using echo append_take_drop_id[of m "rx_bytes (line s)"] by (simp add: echoed_def)
  qed
  moreover have "(rc = 0 \<and> take m buf = adu) \<and> in_time ctx b s1"
    if it: "in_time ctx b s" and all: "rx_bytes (line s) = echoed ctx adu @ x" for x
  proof -
    have "rtu_prompt ?d ?s" using it rtu_prompt_tick by (simp add: in_time_def)
    then have z: "rc = 0" "rtu_prompt ?d s1" using r(5) all echo len by (auto simp: echoed_def)
    moreover have "take m buf = adu" using r(4) z(1) all echo len by (auto simp: got_def echoed_def)
    ultimately show ?thesis using in_time_after[OF it] sb by (simp add: same_bus_def)
  qed
  ultimately show ?thesis using e sb by (intro exI[of _ "rc = 0 \<and> take m buf = adu"] exI[of _ s1]) blast
qed

section \<open>After the request\<close>

text \<open>
  The bus is released: its record gets the last reading of the clock and the unit identifier, nothing
  else changes.
\<close>

definition released :: "mb_rtu_client_ctx \<Rightarrow> nat \<Rightarrow> bus_store \<Rightarrow> bus_store \<Rightarrow> serial \<Rightarrow> bool" where
  "released ctx a H H' s' \<longleftrightarrow>
     (\<exists>b t. H a = Some b \<and> sane_time t \<and> line_clk s' (line_ticks s' - 1) = Some t \<and>
        H' = H(a \<mapsto> b\<lparr>sb_last_release_time := t, sb_last_unit_id := rc_unit_id (rc_cfg ctx), sb_has_last_transaction := True\<rparr>))"

lemma bus_transaction_end_released:
  assumes "sane_clock s" and "H a = Some b"
  shows "\<exists>H' s'. bus_transaction_end ctx a H s = Some (H', s') \<and> released ctx a H H' s' \<and> same_bus s s' \<and> line s' = line s"
proof -
  from sane_clock_Some[OF assms(1), of "line_ticks s"] obtain t where t: "line_clk s (line_ticks s) = Some t" "sane_time t" by blast
  let ?H = "H(a \<mapsto> b\<lparr>sb_last_release_time := t, sb_last_unit_id := rc_unit_id (rc_cfg ctx), sb_has_last_transaction := True\<rparr>)"
  have "released ctx a H ?H (s\<lparr>line_ticks := Suc (line_ticks s)\<rparr>)" unfolding released_def using t assms(2) by (intro exI[of _ b] exI[of _ t]) simp
  then show ?thesis using assms(2) t(1)
    by (intro exI[of _ ?H] exI[of _ "s\<lparr>line_ticks := Suc (line_ticks s)\<rparr>"])
       (simp add: bus_transaction_end_def mark_bus_transaction_done_def sys_time_def same_bus_def)
qed

text \<open>A received response is the frame of this unit and a PDU.\<close>

lemma response_adu:
  assumes "response_here uid fc (rx_bytes (line s)) n" and "got buf n s buf' s'" and "length buf = 256"
  shows "\<exists>rpdu. n = length rpdu + 3 \<and> 2 \<le> length rpdu \<and> rx_bytes (line s) = rtu_adu (uid # rpdu) @ rx_bytes (line s') \<and>
    buf' = rtu_adu (uid # rpdu) @ drop n buf"
proof -
  let ?rx = "rx_bytes (line s)"
  let ?f = "take n ?rx"
  have n: "n \<le> length ?rx" "crc_of ?f = 0" "?rx ! 0 = uid" "5 \<le> n" "n \<le> 256"
    using assms(1) response_len_range by (auto simp: response_here_def)
  have len: "length ?f = n" using n(1) by simp
  then have "2 \<le> length ?f" using n(4) by linarith
  from valid_frame_adu[OF n(2) this] have f: "?f = rtu_adu (take (n - 2) ?f)" unfolding len .
  obtain u rpdu where u: "take (n - 2) ?f = u # rpdu" using n(1,4) by (cases "take (n - 2) ?f") auto
  have "length (take (n - 2) ?f) = n - 2" using n(1) by simp
  then have "length (u # rpdu) = n - 2" by (simp only: u)
  then have l: "length rpdu = n - 3" by simp
  have "u = ?rx ! 0" using u n(1,4) by (cases ?rx; cases n) (auto simp: take_Cons split: nat.splits)
  then have "?f = rtu_adu (uid # rpdu)" using f u n(3) by metis
  moreover have "?rx = ?f @ rx_bytes (line s')" using assms(2) rx_bytes_drop[OF n(1)] by (simp add: got_def)
  moreover have "buf' = ?f @ drop n buf" using assms(2) n(1) by (simp add: got_def blit_def)
  ultimately show ?thesis using l n(4) by (intro exI[of _ rpdu]) simp
qed

text \<open>How a transaction ends after its request went out.\<close>

definition response_answers ::
    "mb_rtu_client_ctx \<Rightarrow> u8 list \<Rightarrow> u8 list \<Rightarrow> u8 list \<Rightarrow> c_int \<Rightarrow> u8 list \<Rightarrow> bool" where
  "response_answers ctx pdu inp later rc resp' \<longleftrightarrow>
     (\<exists>rpdu rest. inp = rtu_adu (rc_unit_id (rc_cfg ctx) # rpdu) @ later \<and>
        resp' = rtu_adu (rc_unit_id (rc_cfg ctx) # rpdu) @ rest \<and> response_len (hd pdu) inp = Some (length rpdu + 3) \<and>
        mb_pdu_check_response pdu (tl resp') (length rpdu) = Some rc)"

definition request_ends ::
    "mb_rtu_client_ctx \<Rightarrow> u8 list \<Rightarrow> u8 list \<Rightarrow> c_int \<Rightarrow> u8 list \<Rightarrow> serial \<Rightarrow> serial \<Rightarrow> bool" where
  "request_ends ctx pdu adu rc resp' s s' \<longleftrightarrow>
     rc \<in> {- 3, - 4, - 5, - 6, - 7} \<or>
     0 \<le> rc \<and> rc \<le> 255 \<and> (\<exists>inp. rx_bytes (line s) = echoed ctx adu @ inp \<and>
       (if rc_unit_id (rc_cfg ctx) = 0 then rc = 0 \<and> rx_bytes (line s') = inp
        else response_answers ctx pdu inp (rx_bytes (line s')) rc resp'))"

text \<open>A reply is on the line that the PDU layer gives the code \<open>c\<close>, and the line delivers in time.\<close>

definition reply_waits :: "mb_rtu_client_ctx \<Rightarrow> mb_rtu_shared_bus \<Rightarrow> u8 list \<Rightarrow> u8 list \<Rightarrow> u8 list \<Rightarrow> c_int \<Rightarrow> serial \<Rightarrow> bool" where
  "reply_waits ctx b pdu adu rpdu c s \<longleftrightarrow> in_time ctx b s \<and> rc_unit_id (rc_cfg ctx) \<noteq> 0 \<and> c \<noteq> - 1 \<and>
     (\<exists>later. rx_bytes (line s) = echoed ctx adu @ rtu_adu (rc_unit_id (rc_cfg ctx) # rpdu) @ later) \<and>
     2 \<le> length rpdu \<and> response_len (hd pdu) (rc_unit_id (rc_cfg ctx) # rpdu) = Some (length rpdu + 3) \<and>
     (\<forall>rest. mb_pdu_check_response pdu (rpdu @ rest) (length rpdu) = Some c)"

lemma response_len_append: "3 \<le> length xs \<Longrightarrow> response_len fc (xs @ ys) = response_len fc xs"
  by (simp add: response_len_def nth_append)

lemma reply_waits_here:
  assumes "reply_waits ctx b pdu adu rpdu c s" and "rx_bytes (line s) = echoed ctx adu @ inp"
  shows "response_here (rc_unit_id (rc_cfg ctx)) (hd pdu) inp (length rpdu + 3) \<and>
    take (length rpdu + 3) inp = rtu_adu (rc_unit_id (rc_cfg ctx) # rpdu)"
proof -
  let ?f = "rtu_adu (rc_unit_id (rc_cfg ctx) # rpdu)"
  from assms obtain later where inp: "inp = ?f @ later" by (auto simp: reply_waits_def)
  have "response_len (hd pdu) inp = Some (length rpdu + 3)"
    using assms(1) inp response_len_append[of "rc_unit_id (rc_cfg ctx) # rpdu" "hd pdu"] by (simp add: reply_waits_def rtu_adu_def)
  moreover have "length rpdu + 3 = length ?f" by simp
  then have "take (length rpdu + 3) inp = ?f" unfolding inp by (simp only: append_eq_conv_conj[symmetric] take_append) simp
  moreover have "inp ! 0 = rc_unit_id (rc_cfg ctx)" by (simp add: inp rtu_adu_def)
  ultimately show ?thesis using inp by (simp add: response_here_def crc_of_rtu_adu)
qed

lemma io_err_codes: "rc \<in> {0, - 1, - 2, - 10, - 11, - 12} \<Longrightarrow> io_err_to_client_err rc \<in> {- 3, - 4, - 5, - 6, - 7}"
  by (auto simp: io_err_to_client_err_def)

lemma ptr_1_tl: "ptr xs 1 = tl xs"
  by (simp add: ptr_def drop_Suc)

lemma after_request_ends:
  assumes "fd_ok (rc_fd ctx)" and "sane_clock s" and "sb_baud_rate b \<noteq> 0" and "H a = Some b"
    and len: "length adu = m" "m \<le> 256" "length echo = 256" "length resp = 256" "5 \<le> length pdu"
  shows "\<exists>rc resp' H' s'. after_request echo ctx b a pdu (adu @ rest) m (hd pdu) resp H s = Some (rc, resp', H', s') \<and>
    same_bus s s' \<and> released ctx a H H' s' \<and> length resp' = 256 \<and> request_ends ctx pdu adu rc resp' s s' \<and>
    (\<forall>rpdu c. reply_waits ctx b pdu adu rpdu c s \<longrightarrow> rc = c)"
proof -
  let ?uid = "rc_unit_id (rc_cfg ctx)"
  from read_echo_ends[OF assms(1-3) len(1-3), of rest] obtain ok s1 where
    e: "read_echo echo ctx b (adu @ rest) m s = Some (ok, s1)" "same_bus s s1"
      "ok \<longrightarrow> rx_bytes (line s) = echoed ctx adu @ rx_bytes (line s1)"
      "in_time ctx b s \<longrightarrow> (\<exists>r. rx_bytes (line s) = echoed ctx adu @ r) \<longrightarrow> ok \<and> in_time ctx b s1" by blast
  have wait: "ok \<and> in_time ctx b s1 \<and> ?uid \<noteq> 0 \<and> response_here ?uid (hd pdu) (rx_bytes (line s1)) (length rpdu + 3) \<and>
      take (length rpdu + 3) (rx_bytes (line s1)) = rtu_adu (?uid # rpdu)" if "reply_waits ctx b pdu adu rpdu c s" for rpdu c
    using that e(3,4) reply_waits_here[OF that] by (auto simp: reply_waits_def)
  have clk: "sane_clock s1" using same_bus_clock[OF e(2)] assms(2) by simp
  note un = after_request_def[of echo ctx b a pdu "adu @ rest" m "hd pdu" resp H s] e(1)
  show ?thesis
  proof (cases "\<not> ok \<or> ?uid = 0")
    case True
    from bus_transaction_end_released[where ctx = ctx and H = H, OF clk assms(4)] obtain H' s2 where
      r: "bus_transaction_end ctx a H s1 = Some (H', s2)" "released ctx a H H' s2" "same_bus s1 s2" "line s2 = line s1" by blast
    have "after_request echo ctx b a pdu (adu @ rest) m (hd pdu) resp H s = Some (if ok then 0 else - 3, resp, H', s2)"
      using True r(1) by (auto simp: un)
    moreover have "request_ends ctx pdu adu (if ok then 0 else - 3) resp s s2"
      using True e(3) r(4) by (auto simp: request_ends_def)
    moreover have "\<not> reply_waits ctx b pdu adu rpdu c s" for rpdu c using wait[of rpdu c] True by auto
    ultimately show ?thesis using r(2) len(4) same_bus_trans[OF e(2) r(3)] by blast
  next
    case False
    from recv_response_receives[OF assms(1) clk assms(3) len(4), of ?uid "hd pdu"] obtain rc resp' n s2 where
      v: "rtu_recv_response ctx b ?uid (hd pdu) resp s1 = Some (rc, resp', n, s2)" "rc \<in> {0, - 1, - 2, - 10, - 11, - 12}"
        "length resp' = length resp" "same_bus s1 s2"
        "rc = 0 \<longrightarrow> response_here ?uid (hd pdu) (rx_bytes (line s1)) n \<and> got resp n s1 resp' s2"
        "in_time ctx b s1 \<longrightarrow> (\<exists>n. response_here ?uid (hd pdu) (rx_bytes (line s1)) n) \<longrightarrow> rc = 0"
      unfolding receives_def in_time_def by blast
    have clk2: "sane_clock s2" using same_bus_clock[OF v(4)] clk by simp
    from bus_transaction_end_released[where ctx = ctx and H = H, OF clk2 assms(4)] obtain H' s3 where
      r: "bus_transaction_end ctx a H s2 = Some (H', s3)" "released ctx a H H' s3" "same_bus s2 s3" "line s3 = line s2" by blast
    have sb: "same_bus s s3" using e(2) v(4) r(3) by (blast intro: same_bus_trans)
    show ?thesis
    proof (cases "rc = 0")
      case ne: False
      then have "after_request echo ctx b a pdu (adu @ rest) m (hd pdu) resp H s = Some (io_err_to_client_err rc, resp', H', s3)"
        using False v(1) r(1) by (simp add: un)
      moreover have "request_ends ctx pdu adu (io_err_to_client_err rc) resp' s s3" using io_err_codes[OF v(2)] by (simp add: request_ends_def)
      moreover have "length resp' = 256" using v(3) len(4) by simp
      moreover have "\<not> reply_waits ctx b pdu adu rpdu c s" for rpdu c using wait[of rpdu c] v(6) ne by blast
      ultimately show ?thesis using r(2) sb by blast
    next
      case True
      then obtain rpdu where f: "n = length rpdu + 3" "2 \<le> length rpdu"
        "rx_bytes (line s1) = rtu_adu (?uid # rpdu) @ rx_bytes (line s2)" "resp' = rtu_adu (?uid # rpdu) @ drop n resp"
        using response_adu v(5) len(4) by blast
      have le: "length rpdu \<le> length (tl resp')" using f(4) by simp
      from check_response_total[OF len(5) le] obtain c where
        c: "mb_pdu_check_response pdu (tl resp') (length rpdu) = Some c" "- 1 \<le> c" "c \<le> 255" by blast
      have "after_request echo ctx b a pdu (adu @ rest) m (hd pdu) resp H s = Some (if c = - 1 then - 5 else c, resp', H', s3)"
        using False True v(1) r(1) c(1) f(1) ptr_1_tl[of resp'] by (simp add: un)
      moreover have "request_ends ctx pdu adu (if c = - 1 then - 5 else c) resp' s s3"
      proof (cases "c = - 1")
        case neg: False
        then have "response_answers ctx pdu (rx_bytes (line s1)) (rx_bytes (line s3)) c resp'"
          unfolding response_answers_def using f(1,3,4) c(1) r(4) v(5) True by (intro exI[of _ rpdu] exI[of _ "drop n resp"]) (simp add: response_here_def)
        then show ?thesis using neg c False e(3) by (simp add: request_ends_def)
      qed (simp add: request_ends_def)
      moreover have "length resp' = 256" using v(3) len(4) by simp
      moreover have "(if c = - 1 then - 5 else c) = c'" if w: "reply_waits ctx b pdu adu rpdu' c' s" for rpdu' c'
      proof -
        have "length rpdu + 3 = length rpdu' + 3" using wait[OF w] v(5) True f(1) response_here_unique by blast
        then have "rpdu = rpdu'" using wait[OF w] f(3) by simp
        then have "c = c'" using w c(1) f(4) by (simp add: reply_waits_def rtu_adu_def)
        then show ?thesis using w by (simp add: reply_waits_def)
      qed
      ultimately show ?thesis using r(2) sb by blast
    qed
  qed
qed

section \<open>The whole transaction\<close>

text \<open>
  What a transaction puts on the bus: a pause, if the silence is not over, and the frame of the
  request between the calls of the hook, once, whole unless sending failed.
\<close>

definition request_on_bus :: "mb_rtu_client_ctx \<Rightarrow> mb_rtu_shared_bus \<Rightarrow> u8 list \<Rightarrow> c_int \<Rightarrow> serial \<Rightarrow> serial \<Rightarrow> bool" where
  "request_on_bus ctx b adu rc s s' \<longleftrightarrow>
     (\<exists>p es k. bus s' = bus s @ pauses p @ hooked (rc_tx_hook (rc_cfg ctx)) es \<and> outs_only es \<and> out_bytes es = take k adu \<and>
        (k < length adu \<longrightarrow> rc = - 3) \<and>
        (\<forall>t. line_clk s (line_ticks s) = Some t \<longrightarrow> 0 \<le> elapsed t (sb_last_release_time b) \<longrightarrow>
          int (silence_due b (rc_unit_id (rc_cfg ctx)) (effective_inter_frame_us ctx b) (effective_handoff_silence_ms ctx)) \<le>
            uint p + elapsed t (sb_last_release_time b)))"

text \<open>The bus a connected client is on, with its record.\<close>

definition on_bus :: "mb_rtu_client_ctx \<Rightarrow> nat \<Rightarrow> mb_rtu_shared_bus \<Rightarrow> bus_store \<Rightarrow> bool" where
  "on_bus ctx a b H \<longleftrightarrow> rc_initialized ctx \<noteq> 0 \<and> fd_ok (rc_fd ctx) \<and> rc_shared_bus ctx = Some a \<and> H a = Some b \<and>
     sb_baud_rate b \<noteq> 0 \<and> (sb_has_last_transaction b \<longrightarrow> sane_time (sb_last_release_time b))"

lemma released_on_bus: "released ctx a H H' s' \<Longrightarrow> on_bus c a b H \<Longrightarrow> \<exists>b'. on_bus c a b' H'"
  by (auto simp: released_def on_bus_def)

lemma sys_flush_keeps: "bus (sys_flush s) = bus s" "line_clk (sys_flush s) = line_clk s" "line_ticks (sys_flush s) = line_ticks s"
  "drains (sys_flush s) = drains s" "line_tx (sys_flush s) = line_tx s"
  by (simp_all add: sys_flush_def split: list.split)

lemma reply_waits_cong:
  "line s' = line s \<Longrightarrow> line_clk s' = line_clk s \<Longrightarrow> selects s' = selects s \<Longrightarrow>
   reply_waits ctx b pdu adu rpdu c s' = reply_waits ctx b pdu adu rpdu c s"
  using now_at_cong[of s' s] by (simp add: reply_waits_def in_time_def rtu_prompt_def)

lemma rtu_transact_ends:
  assumes bus: "on_bus ctx a b H" and clk: "sane_clock s"
    and n: "5 \<le> n" "n \<le> 253" "n \<le> length pdu" and "length resp = 256"
    and w: "rc_unit_id (rc_cfg ctx) = 0 \<longrightarrow> mb_pdu_is_write (hd pdu)"
  shows "\<exists>rc resp' H' s'. rtu_transact J ctx pdu n resp H s = Some (rc, resp', H', s') \<and>
    length resp' = 256 \<and> line_clk s' = line_clk s \<and> released ctx a H H' s' \<and>
    request_on_bus ctx b (request_adu ctx (take n pdu)) rc s s' \<and>
    request_ends ctx pdu (request_adu ctx (take n pdu)) rc resp' (sys_flush s) s' \<and>
    (\<forall>rpdu c. tx_takes s \<longrightarrow> reply_waits ctx b pdu (request_adu ctx (take n pdu)) rpdu c (sys_flush s) \<longrightarrow> rc = c)"
proof -
  let ?adu = "request_adu ctx (take n pdu)" and ?hook = "rc_tx_hook (rc_cfg ctx)"
  have b: "rc_initialized ctx \<noteq> 0" "fd_ok (rc_fd ctx)" "rc_shared_bus ctx = Some a" "H a = Some b"
    "sb_baud_rate b \<noteq> 0" "sb_has_last_transaction b \<longrightarrow> sane_time (sb_last_release_time b)"
    using bus by (simp_all add: on_bus_def)
  have adu: "length ?adu = n + 3" "n + 3 \<le> 256" using n by simp_all
  have n1: "1 \<le> n" using n(1) by simp
  from rtu_transact_parts[where H = H and J = J and resp = resp and s = s, OF b(1,3,4) n1 n(2,3) w] obtain echo rest where
    e: "length echo = 256" "rtu_transact J ctx pdu n resp H s = do {
       s \<leftarrow> bus_transaction_begin ctx b s;
       (sent, s) \<leftarrow> send_frame ?hook False (rc_fd ctx) ?adu (n + 3) (sys_flush s);
       if sent \<noteq> 0 then do {
         (H, s) \<leftarrow> bus_transaction_end ctx a H s;
         Some (MB_RTU_CLIENT_ERR_TRANSPORT, resp, H, s) }
       else after_request echo ctx b a pdu (?adu @ rest) (n + 3) (hd pdu) resp H s }" by blast
  from wait_bus_silence_pause[OF clk b(6), of "rc_unit_id (rc_cfg ctx)" "effective_inter_frame_us ctx b" "effective_handoff_silence_ms ctx"]
  obtain p k where p: "bus_transaction_begin ctx b s = Some (s\<lparr>line_ticks := k, bus := bus s @ pauses p\<rparr>)"
    "\<forall>t. line_clk s (line_ticks s) = Some t \<longrightarrow> 0 \<le> elapsed t (sb_last_release_time b) \<longrightarrow>
       int (silence_due b (rc_unit_id (rc_cfg ctx)) (effective_inter_frame_us ctx b) (effective_handoff_silence_ms ctx)) \<le>
         uint p + elapsed t (sb_last_release_time b)"
    unfolding bus_transaction_begin_def by blast
  let ?s = "sys_flush (s\<lparr>line_ticks := k, bus := bus s @ pauses p\<rparr>)"
  have "n + 3 \<le> length ?adu" using adu by simp
  from send_frame_trace[OF b(2) this, of ?hook False ?s] obtain sent s1 es m where
    f: "send_frame ?hook False (rc_fd ctx) ?adu (n + 3) ?s = Some (sent, s1)" "m \<le> n + 3" "same_line ?s s1"
      "bus s1 = bus ?s @ hooked ?hook es" "outs_only es" "out_bytes es = take m ?adu" "sent = 0 \<and> m = n + 3 \<or> sent = - 1" by blast
  have fl: "line ?s = line (sys_flush s)" "selects ?s = selects (sys_flush s)" by (simp_all add: sys_flush_def split: list.split)
  have s1: "line_clk s1 = line_clk s" "line s1 = line (sys_flush s)" "bus s1 = bus s @ pauses p @ hooked ?hook es"
    "selects s1 = selects (sys_flush s)"
    using f(3,4) fl by (simp_all add: same_line_def sys_flush_keeps)
  have clk1: "sane_clock s1" using clk s1(1) by (simp add: sane_clock_def)
  have tr: "rtu_transact J ctx pdu n resp H s = (if sent \<noteq> 0 then do {
       (H, s) \<leftarrow> bus_transaction_end ctx a H s1; Some (- 3, resp, H, s) }
     else after_request echo ctx b a pdu (?adu @ rest) (n + 3) (hd pdu) resp H s1)" using e(2) p(1) f(1) by simp
  have on: "request_on_bus ctx b ?adu rc s s'" if "bus s' = bus s1" "m < n + 3 \<longrightarrow> rc = - 3" for rc s'
    unfolding request_on_bus_def using that s1(3) f(5,6) p(2) adu(1)
    by (intro exI[of _ p] exI[of _ es] exI[of _ m]) simp
  show ?thesis
  proof (cases "sent = 0")
    case False
    from bus_transaction_end_released[where ctx = ctx and H = H, OF clk1 b(4)] obtain H' s2 where
      r: "bus_transaction_end ctx a H s1 = Some (H', s2)" "released ctx a H H' s2" "same_bus s1 s2" by blast
    have "rtu_transact J ctx pdu n resp H s = Some (- 3, resp, H', s2)" using tr False r(1) by simp
    moreover have "request_ends ctx pdu ?adu (- 3) resp (sys_flush s) s2" by (simp add: request_ends_def)
    moreover have "line_clk s2 = line_clk s" "bus s2 = bus s1" using r(3) s1(1) by (simp_all add: same_bus_def)
    moreover have "\<not> tx_takes s"
    proof
      assume "tx_takes s"
      then have "tx_takes ?s" by (simp add: tx_takes_def sys_flush_keeps)
      from send_frame_takes[OF this \<open>n + 3 \<le> length ?adu\<close>, of ?hook False "rc_fd ctx"] f(1) False show False by simp
    qed
    moreover have "request_on_bus ctx b ?adu (- 3) s s2" using on[of s2 "- 3"] r(3) by (simp add: same_bus_def)
    ultimately show ?thesis using r(2) assms(6) by blast
  next
    case True
    from after_request_ends[where H = H and rest = rest and ctx = ctx, OF b(2) clk1 b(5,4) adu(1,2) e(1) assms(6), of pdu] n
    obtain rc resp' H' s2 where
      r: "after_request echo ctx b a pdu (?adu @ rest) (n + 3) (hd pdu) resp H s1 = Some (rc, resp', H', s2)" "same_bus s1 s2"
        "released ctx a H H' s2" "length resp' = 256" "request_ends ctx pdu ?adu rc resp' s1 s2"
        "\<forall>rpdu c. reply_waits ctx b pdu ?adu rpdu c s1 \<longrightarrow> rc = c" by auto
    have "rtu_transact J ctx pdu n resp H s = Some (rc, resp', H', s2)" using tr True r(1) by simp
    moreover have "request_ends ctx pdu ?adu rc resp' (sys_flush s) s2" using r(5) s1(2) by (simp add: request_ends_def)
    moreover have "line_clk s2 = line_clk s" "bus s2 = bus s1" using r(2) s1(1) by (simp_all add: same_bus_def)
    moreover have "m < n + 3 \<longrightarrow> rc = - 3" using f(7) True by auto
    moreover have "reply_waits ctx b pdu ?adu rpdu c (sys_flush s) \<Longrightarrow> rc = c" for rpdu c
      using r(6) reply_waits_cong[of s1 "sys_flush s"] s1(1,2,4) by (simp add: sys_flush_keeps)
    ultimately show ?thesis using r(3,4) on[of s2 rc] by blast
  qed
qed

end
