(* ===== verification/Rtu_Client_Properties.thy ===== *)
theory Rtu_Client_Properties
  imports Rtu_Exchange Rtu_Bus_Properties
begin

text \<open>
  The properties of the transactions of the RTU client (\<^verbatim>\<open>src/src/modbus_rtu_client.c\<close>).
\<close>

section \<open>Inputs of the instances\<close>

definition demo_rtu_client :: mb_rtu_client_ctx where
  "demo_rtu_client = off_ctx\<lparr>rc_shared_bus := Some 4096, rc_fd := 5, rc_initialized := 1\<rparr>"

text \<open>The bus was released by unit 2, at the time the clock shows.\<close>

definition demo_bus :: mb_rtu_shared_bus where
  "demo_bus = \<lparr>sb_path = ''/dev/ttyS0'', sb_fd = 5, sb_refcnt = 1, sb_baud_rate = 9600, sb_data_bits = 8, sb_stop_bits = 1,
     sb_parity = 0, sb_rs485_mode = 0, sb_t35_us = 3646, sb_has_last_transaction = True, sb_last_unit_id = 2,
     sb_last_release_time = (5, 0)\<rparr>"

definition demo_buses :: bus_store where
  "demo_buses = (\<lambda>_. None)(4096 \<mapsto> demo_bus)"

definition demo_line :: "rx_event list \<Rightarrow> poll_event list \<Rightarrow> serial" where
  "demo_line evs ps = \<lparr>line = evs, nonblock = False, line_tx = [], drains = [], selects = ps, line_clk = (\<lambda>_. Some (5, 0)),
     line_ticks = 0, bus = [], discards = []\<rparr>"

lemmas demo_rtu_simps = demo_rtu_client_def off_ctx_def demo_client_config_def demo_bus_def demo_line_def

lemma demo_on_bus: "on_bus demo_rtu_client 4096 demo_bus demo_buses"
  by (simp add: on_bus_def fd_ok_def sane_time_def demo_buses_def demo_rtu_simps)

lemma demo_line_clock [simp]: "sane_clock (demo_line evs ps)" "now_at (demo_line evs ps) k = 5000000"
  "sys_flush (demo_line evs ps) = demo_line evs ps"
  by (simp_all add: sane_clock_def sane_time_def now_at_def sys_flush_def demo_line_def)

section \<open>Every script\<close>

lemma transact_returns:
  assumes "on_bus ctx a b H" and "sane_clock s" and "5 \<le> n" and "n \<le> 253" and "n \<le> length pdu" and "length resp = 256"
  shows "\<exists>rc resp' H' s'. rtu_transact J ctx pdu n resp H s = Some (rc, resp', H', s') \<and> length resp' = 256 \<and>
    (if rc_unit_id (rc_cfg ctx) = 0 \<and> \<not> mb_pdu_is_write (hd pdu) then rc = - 1 \<and> resp' = resp \<and> H' = H \<and> s' = s
     else (rc \<in> {- 3, - 4, - 5, - 6, - 7} \<or> 0 \<le> rc \<and> rc \<le> 255) \<and> released ctx a H H' s' \<and>
       request_on_bus ctx b (request_adu ctx (take n pdu)) rc s s')"
proof (cases "rc_unit_id (rc_cfg ctx) = 0 \<and> \<not> mb_pdu_is_write (hd pdu)")
  case True
  moreover have "rd pdu 0 = Some (hd pdu)" using assms(3,5) by (cases pdu) auto
  ultimately show ?thesis using assms(1,6) by (simp add: rtu_transact_def on_bus_def Let_def)
next
  case False
  then have "rc_unit_id (rc_cfg ctx) = 0 \<longrightarrow> mb_pdu_is_write (hd pdu)" by blast
  from rtu_transact_ends[OF assms this, of J] False show ?thesis by (auto simp: request_ends_def)
qed

text \<open>
  C35. Every transaction returns, for every script of the line and of the operating system and every
  clock that works: a read sent as a broadcast is refused with everything as it was; otherwise the code is 0, an
  exception code or one of the five transport codes, the bus record gets the time of the last
  clock reading and this unit identifier, and on the bus there is a pause, if the silence was not
  over, and the frame of the request between the calls of the hook, whole unless the
  code says that sending failed, and nothing else.
\<close>

theorem rtu_transaction_returns:
  assumes "on_bus ctx a b H" and "sane_clock s" and "5 \<le> n" and "n \<le> 253" and "n \<le> length pdu" and "length resp = 256"
  shows "\<exists>rc resp' H' s'. rtu_transact J ctx pdu n resp H s = Some (rc, resp', H', s') \<and> length resp' = 256 \<and>
    (if rc_unit_id (rc_cfg ctx) = 0 \<and> \<not> mb_pdu_is_write (hd pdu) then rc = - 1 \<and> resp' = resp \<and> H' = H \<and> s' = s
     else (rc \<in> {- 3, - 4, - 5, - 6, - 7} \<or> 0 \<le> rc \<and> rc \<le> 255) \<and> released ctx a H H' s' \<and>
       request_on_bus ctx b (request_adu ctx (take n pdu)) rc s s')"
  using transact_returns[OF assms] .

theorem rtu_transaction_returns_witness:
  "\<exists>rc resp' H' s'. rtu_transact zero_stack demo_rtu_client [3, 0, 0, 0, 2] 5 (replicate 256 0) demo_buses
     (demo_line [Seg 1 [3], RxErr EINTR, Seg 200 []] [PollReady, PollErr EINTR, PollReady]) = Some (rc, resp', H', s') \<and>
     length resp' = 256 \<and> released demo_rtu_client 4096 demo_buses H' s' \<and>
     request_on_bus demo_rtu_client demo_bus (request_adu demo_rtu_client [3, 0, 0, 0, 2]) rc
       (demo_line [Seg 1 [3], RxErr EINTR, Seg 200 []] [PollReady, PollErr EINTR, PollReady]) s'"
proof -
  have "rc_unit_id (rc_cfg demo_rtu_client) = 1" by (simp add: demo_rtu_simps)
  then show ?thesis
    using rtu_transaction_returns[OF demo_on_bus demo_line_clock(1), of 5 "[3, 0, 0, 0, 2]" "replicate 256 0" zero_stack
      "[Seg 1 [3], RxErr EINTR, Seg 200 []]" "[PollReady, PollErr EINTR, PollReady]"] by auto
qed

text \<open>
  C36. A transaction reports an answer (code 0 or an exception code) only when the request went out
  whole, its echo came back unchanged if the transceiver echoes, and the next bytes on the line
  were a frame with a valid checksum from the unit that was asked, with a PDU on which the check of
  the PDU layer gave that code; nothing behind the frame was read, and the caller's buffer starts
  with the frame.
\<close>

theorem rtu_transaction_sound:
  assumes "rtu_transact J ctx pdu n resp H s = Some (rc, resp', H', s')" and "0 \<le> rc" and "rc_unit_id (rc_cfg ctx) \<noteq> 0"
    and "on_bus ctx a b H" and "sane_clock s" and "5 \<le> n" and "n \<le> 253" and "n \<le> length pdu" and "length resp = 256"
  shows "\<exists>es rpdu rest. bus s' = bus s @ es \<and> out_bytes es = request_adu ctx (take n pdu) \<and>
    rx_bytes (line (sys_flush s)) =
      echoed ctx (request_adu ctx (take n pdu)) @ rtu_adu (rc_unit_id (rc_cfg ctx) # rpdu) @ rx_bytes (line s') \<and>
    resp' = rtu_adu (rc_unit_id (rc_cfg ctx) # rpdu) @ rest \<and>
    mb_pdu_check_response pdu (tl resp') (length rpdu) = Some rc"
proof -
  let ?adu = "request_adu ctx (take n pdu)"
  have "rc_unit_id (rc_cfg ctx) = 0 \<longrightarrow> mb_pdu_is_write (hd pdu)" using assms(3) by simp
  from rtu_transact_ends[OF assms(4-9) this, of J] assms(1)
  have ends: "request_on_bus ctx b ?adu rc s s'" "request_ends ctx pdu ?adu rc resp' (sys_flush s) s'" by auto
  from ends(1) obtain p es k where es: "bus s' = bus s @ pauses p @ hooked (rc_tx_hook (rc_cfg ctx)) es" "out_bytes es = take k ?adu"
    "k < length ?adu \<longrightarrow> rc = - 3" unfolding request_on_bus_def by blast
  then have out: "out_bytes (pauses p @ hooked (rc_tx_hook (rc_cfg ctx)) es) = ?adu" using assms(2) by auto
  from ends(2) assms(2,3) obtain inp where "rx_bytes (line (sys_flush s)) = echoed ctx ?adu @ inp"
    "response_answers ctx pdu inp (rx_bytes (line s')) rc resp'" by (auto simp: request_ends_def)
  then show ?thesis using es(1) out unfolding response_answers_def by fastforce
qed

text \<open>The registers 0x1234 and 42 in answer, in three pieces with an interrupted read between.\<close>

definition demo_rtu_reply :: "rx_event list" where
  "demo_rtu_reply = [Seg 1 [3], RxErr EINTR, Seg 4 [0x12, 0x34], Seg 0 [0x2A, 0x3F, 0x5A]]"

lemma demo_rtu_adu: "rtu_adu [1, 3, 4, 0x12, 0x34, 0, 0x2A] = [1, 3, 4, 0x12, 0x34, 0, 0x2A, 0x3F, 0x5A]"
  by code_simp

lemma demo_span: "deadline_span demo_rtu_client demo_bus = 1266667"
  by (simp add: deadline_span_def frame_wire_time_us_def demo_rtu_simps)

lemma demo_reply_waits:
  "reply_waits demo_rtu_client demo_bus [3, 0, 0, 0, 2] adu [3, 4, 0x12, 0x34, 0, 0x2A] 0 (demo_line demo_rtu_reply (replicate 13 PollReady))"
proof -
  have "mb_pdu_check_response [3, 0, 0, 0, 2] ([3, 4, 0x12, 0x34, 0, 0x2A] @ rest)
      (length [3 :: u8, 4, 0x12, 0x34, 0, 0x2A]) = Some 0" for rest
    by (simp add: mb_pdu_check_response_def get_u16_def Let_def)
  moreover have "in_time demo_rtu_client demo_bus (demo_line demo_rtu_reply (replicate 13 PollReady))"
    unfolding in_time_def rtu_prompt_def demo_line_clock demo_span by (simp add: demo_line_def demo_rtu_reply_def)
  ultimately show ?thesis
    by (simp add: reply_waits_def demo_rtu_simps echoed_def demo_rtu_adu demo_rtu_reply_def response_len_def)
qed

lemma demo_rtu_answer:
  "\<exists>resp' H' s'. rtu_transact zero_stack demo_rtu_client [3, 0, 0, 0, 2] 5 (replicate 256 0) demo_buses
     (demo_line demo_rtu_reply (replicate 13 PollReady)) = Some (0, resp', H', s')"
proof -
  have "tx_takes (demo_line demo_rtu_reply (replicate 13 PollReady))" "rc_unit_id (rc_cfg demo_rtu_client) = 1"
    by (simp_all add: tx_takes_def demo_rtu_simps)
  then show ?thesis
    using rtu_transact_ends[OF demo_on_bus demo_line_clock(1), of 5 "[3, 0, 0, 0, 2]" "replicate 256 0" zero_stack
      demo_rtu_reply "replicate 13 PollReady"] demo_reply_waits by fastforce
qed

theorem rtu_transaction_sound_witness:
  "\<exists>resp' H' s' es rpdu rest. rtu_transact zero_stack demo_rtu_client [3, 0, 0, 0, 2] 5 (replicate 256 0) demo_buses
     (demo_line demo_rtu_reply (replicate 13 PollReady)) = Some (0, resp', H', s') \<and>
     out_bytes es = request_adu demo_rtu_client [3, 0, 0, 0, 2] \<and> bus s' = es \<and>
     rx_bytes demo_rtu_reply = rtu_adu (1 # rpdu) @ rx_bytes (line s') \<and> resp' = rtu_adu (1 # rpdu) @ rest"
proof -
  obtain resp' H' s' where a: "rtu_transact zero_stack demo_rtu_client [3, 0, 0, 0, 2] 5 (replicate 256 0) demo_buses
     (demo_line demo_rtu_reply (replicate 13 PollReady)) = Some (0, resp', H', s')" using demo_rtu_answer by blast
  have u: "rc_unit_id (rc_cfg demo_rtu_client) = 1" "rc_local_echo (rc_cfg demo_rtu_client) = 0"
    "line (demo_line evs ps) = evs" "bus (demo_line evs ps) = []" for evs ps by (simp_all add: demo_rtu_simps)
  from rtu_transaction_sound[OF a _ _ demo_on_bus demo_line_clock(1)] a show ?thesis by (simp add: u echoed_def) blast
qed

lemma transaction_released:
  assumes "rtu_transact J c pdu n resp H s = Some (rc, resp', H', s')" and "rc \<noteq> - 1"
    and "on_bus c a b H" and "sane_clock s" and "5 \<le> n" and "n \<le> 253" and "n \<le> length pdu" and "length resp = 256"
  shows "\<exists>t. sane_time t \<and> line_clk s' (line_ticks s' - 1) = Some t \<and> line_clk s' = line_clk s \<and>
    H' = H(a \<mapsto> b\<lparr>sb_last_release_time := t, sb_last_unit_id := rc_unit_id (rc_cfg c), sb_has_last_transaction := True\<rparr>)"
proof -
  have "rc_unit_id (rc_cfg c) = 0 \<longrightarrow> mb_pdu_is_write (hd pdu)"
    using transact_returns[OF assms(3-8), of J] assms(1,2) by (auto split: if_splits)
  from rtu_transact_ends[OF assms(3-8) this, of J] assms(1) have "released c a H H' s'" "line_clk s' = line_clk s" by auto
  then show ?thesis using assms(3) by (auto simp: released_def on_bus_def)
qed

text \<open>
  C37. The silence on a shared bus: when a client with its unit runs a transaction after another one
  on the same bus, its frame comes after a pause; the pause and the time between the last clock
  reading of the transaction before and the reading at its start together are at least the inter-frame delay, and at
  least the handoff silence if the units differ, unless the clock runs backwards.
\<close>

theorem rtu_bus_handoff:
  assumes "rtu_transact J c1 pdu n resp H s = Some (rc, resp', H', s')" and "rc \<noteq> - 1"
    and "rtu_transact J' c2 pdu2 m resp2 H' s2 = Some (rc2, resp2', H2, s3)" and "rc2 \<noteq> - 1"
    and "on_bus c1 a b H" and "on_bus c2 a b H" and "sane_clock s" and "line_clk s2 = line_clk s"
    and "5 \<le> n" and "n \<le> 253" and "n \<le> length pdu" and "length resp = 256"
    and "5 \<le> m" and "m \<le> 253" and "m \<le> length pdu2" and "length resp2 = 256"
    and "line_clk s (line_ticks s' - 1) = Some released_at" and "line_clk s (line_ticks s2) = Some begun_at"
    and "0 \<le> elapsed begun_at released_at"
  shows "\<exists>p es. bus s3 = bus s2 @ pauses p @ hooked (rc_tx_hook (rc_cfg c2)) es \<and> outs_only es \<and>
    (\<exists>k. out_bytes es = take k (request_adu c2 (take m pdu2))) \<and>
    int (max (unat (effective_inter_frame_us c2 b))
       (if rc_unit_id (rc_cfg c1) \<noteq> rc_unit_id (rc_cfg c2) then unat (effective_handoff_silence_ms c2) * 1000 else 0)) \<le>
      uint p + elapsed begun_at released_at"
proof -
  from transaction_released[OF assms(1,2,5,7,9-12)] obtain t where r: "sane_time t" "line_clk s' (line_ticks s' - 1) = Some t" "line_clk s' = line_clk s"
    "H' = H(a \<mapsto> b\<lparr>sb_last_release_time := t, sb_last_unit_id := rc_unit_id (rc_cfg c1), sb_has_last_transaction := True\<rparr>)" by blast
  let ?b = "b\<lparr>sb_last_release_time := t, sb_last_unit_id := rc_unit_id (rc_cfg c1), sb_has_last_transaction := True\<rparr>"
  have t: "t = released_at" using r(2,3) assms(17) by simp
  have bus: "on_bus c2 a ?b H'" using assms(6) r(1,4) by (simp add: on_bus_def)
  have "sane_clock s2" using assms(7,8) by (simp add: sane_clock_def)
  from transact_returns[OF bus this assms(13-16), of J'] assms(3,4)
  have "request_on_bus c2 ?b (request_adu c2 (take m pdu2)) rc2 s2 s3" by (auto split: if_splits)
  then show ?thesis using assms(8,18,19) unfolding request_on_bus_def
    by (fastforce simp: t silence_due_def effective_inter_frame_us_def effective_handoff_silence_ms_def)
qed

definition demo_rtu_client_2 :: mb_rtu_client_ctx where
  "demo_rtu_client_2 = demo_rtu_client\<lparr>rc_cfg := (rc_cfg demo_rtu_client)\<lparr>rc_unit_id := 2\<rparr>\<rparr>"

theorem rtu_bus_handoff_witness:
  "\<exists>resp' H' s' rc2 resp2' H2 s3 p es.
     rtu_transact zero_stack demo_rtu_client [3, 0, 0, 0, 2] 5 (replicate 256 0) demo_buses
       (demo_line demo_rtu_reply (replicate 13 PollReady)) = Some (0, resp', H', s') \<and>
     rtu_transact zero_stack demo_rtu_client_2 [6, 0, 1, 0, 9] 5 (replicate 256 0) H' (demo_line [] []) = Some (rc2, resp2', H2, s3) \<and>
     bus s3 = pauses p @ es \<and> 30000 \<le> uint p"
proof -
  let ?s = "demo_line demo_rtu_reply (replicate 13 PollReady)"
  obtain resp' H' s' where a: "rtu_transact zero_stack demo_rtu_client [3, 0, 0, 0, 2] 5 (replicate 256 0) demo_buses ?s = Some (0, resp', H', s')"
    using demo_rtu_answer by blast
  have on2: "on_bus demo_rtu_client_2 4096 demo_bus demo_buses"
    using demo_on_bus by (simp add: demo_rtu_client_2_def on_bus_def)
  from transaction_released[OF a _ demo_on_bus demo_line_clock(1)] obtain t where
    t: "sane_time t" "H' = demo_buses(4096 \<mapsto> demo_bus\<lparr>sb_last_release_time := t, sb_last_unit_id := rc_unit_id (rc_cfg demo_rtu_client), sb_has_last_transaction := True\<rparr>)"
    by auto
  then have on': "on_bus demo_rtu_client_2 4096 (demo_bus\<lparr>sb_last_release_time := t, sb_last_unit_id := rc_unit_id (rc_cfg demo_rtu_client), sb_has_last_transaction := True\<rparr>) H'"
    using on2 by (simp add: on_bus_def)
  have u: "rc_unit_id (rc_cfg demo_rtu_client) = 1" "rc_unit_id (rc_cfg demo_rtu_client_2) = 2" "bus (demo_line evs ps) = []"
    "line_clk (demo_line evs ps) k = Some (5, 0)" "effective_handoff_silence_ms demo_rtu_client_2 = 30" for evs ps k
    by (simp_all add: demo_rtu_client_2_def demo_rtu_simps effective_handoff_silence_ms_def mb_rtu_effective_timing_def)
  from transact_returns[OF on' demo_line_clock(1), of 5 "[6, 0, 1, 0, 9]" "replicate 256 0" zero_stack "[]" "[]"] obtain rc2 resp2' H2 s3 where
    c: "rtu_transact zero_stack demo_rtu_client_2 [6, 0, 1, 0, 9] 5 (replicate 256 0) H' (demo_line [] []) = Some (rc2, resp2', H2, s3)" "rc2 \<noteq> - 1"
    by (auto simp: u)
  have clk: "line_clk (demo_line [] []) = line_clk ?s" by (simp add: demo_line_def)
  from rtu_bus_handoff[OF a _ c demo_on_bus on2 demo_line_clock(1) clk] u obtain p es where
    "bus s3 = pauses p @ es" "30000 \<le> uint p" by (auto simp: elapsed_def)
  then show ?thesis using a c(1) by blast
qed

end
