(* ===== verification/Rtu_Server_Example.thy ===== *)
theory Rtu_Server_Example
  imports Rtu_Server_Properties
begin

text \<open>
  The program of \<^verbatim>\<open>src/examples/rtu_server_example.c\<close> around the register bank: start the server, wait for
  the signal that ends the program, stop the server.
\<close>

text \<open>The context after \<open>mb_rtu_server_ctx_t server = {0}\<close>.\<close>

definition zero_rtu_server :: "server_app_ctx option mb_rtu_server_ctx" where
  "zero_rtu_server =
     \<lparr>rs_transport = \<lparr>rt_keep_running = 0,
        rt_cfg = \<lparr>rt_serial = \<lparr>device = None, baud_rate = 0, data_bits = 0, stop_bits = 0, parity = 0, rs485_mode = 0\<rparr>,
          rt_recv_timeout_ms = 0\<rparr>, rt_serial_fd = 0, rt_initialized = 0\<rparr>,
      rs_cfg = \<lparr>rs_device = None, rs_baud_rate = 0, rs_data_bits = 0, rs_stop_bits = 0, rs_parity = 0, rs_unit_id = 0,
        rs_recv_timeout_ms = 0, rs_inter_frame_delay_us = 0, rs_rs485_mode = 0, rs_local_echo = 0,
        rs_handlers = \<lparr>read_registers = None, write_registers = None, read_bits = None, write_bits = None\<rparr>, rs_tx_hook = False\<rparr>,
      rs_rx_buffer = replicate 256 0, rs_rx_len = 0, rs_last_rx_us = 0, rs_t35_us = 0\<rparr>"

text \<open>The configuration starts as \<open>mb_rtu_server_config_init\<close> leaves it, whatever was there before.\<close>

definition example_rtu_server_config :: "server_app_ctx option mb_rtu_server_config" where
  "example_rtu_server_config = (the (mb_rtu_server_config_init (Some (rs_cfg zero_rtu_server))))
     \<lparr>rs_device := Some ''/dev/ttyUSB0'', rs_baud_rate := 9600, rs_unit_id := 1, rs_handlers := bank_handlers\<rparr>"

text \<open>
  \<open>mutex\<close> is what \<open>pthread_mutex_init\<close> returns. The thread of the port runs between the start and the stop, on
  the values \<open>rounds\<close> that it reads of \<open>keep_running\<close>, while \<open>main\<close> sleeps.
\<close>

definition rtu_server_main ::
    "stack \<Rightarrow> c_int \<Rightarrow> port \<Rightarrow> c_int list \<Rightarrow> host \<Rightarrow> serial \<Rightarrow> (c_int \<times> server_app_ctx option \<times> host \<times> serial) option" where
  "rtu_server_main J mutex P rounds h s =
     (let app = Some \<lparr>reg_bank = replicate 32 0\<rparr> in
      if mutex \<noteq> 0 then Some (1, app, h, s)
      else
        (case mb_rtu_server_start P (Some zero_rtu_server) (Some example_rtu_server_config) h of (rc, server, h) \<Rightarrow>
           if rc \<noteq> 0 then Some (1, app, h, s)
           else do {
             server \<leftarrow> server;
             (server, app, s) \<leftarrow> mb_rtu_thread (Some (rtu_server_round J)) (rt_serial_fd (rs_transport server)) rounds (server, app, s);
             Some (0, app, snd (mb_rtu_server_stop (Some server) h), s) }))"

lemma start_returns_context: "\<exists>rc ctx h'. mb_rtu_server_start P (Some c) (Some g) h = (rc, Some ctx, h')"
  by (auto simp: mb_rtu_server_start_def Let_def split: prod.split)

lemma example_rtu_server_handlers [simp]: "rs_handlers example_rtu_server_config = bank_handlers" "rs_local_echo example_rtu_server_config = 0"
  by (simp_all add: example_rtu_server_config_def mb_rtu_server_config_init_def)

text \<open>
  The example RTU server ends: for every script of the line and of the calls that open the port, it
  serves without an access outside its bank, the bank keeps its 32 registers, and the process ends with the
  descriptors it started with; a link that was reported up is reported down.
\<close>

theorem rtu_server_main_runs:
  assumes "p_open P < 1024"
  shows "\<exists>rc app h' s'. rtu_server_main J mutex P rounds h s = Some (rc, app, h', s') \<and> bank_ok app \<and> fds h' = fds h \<and>
    (if rc = 0 then links h' = links h @ [(p_open P, 1), (p_open P, 0)] else rc = 1 \<and> links h' = links h)"
proof -
  obtain rc ctx h1 where start: "mb_rtu_server_start P (Some zero_rtu_server) (Some example_rtu_server_config) h = (rc, Some ctx, h1)"
    using start_returns_context by blast
  have bank: "replies_within bank_ok (rs_handlers example_rtu_server_config)" using device_replies[OF bank.ok] by simp
  have "bank_ok (Some \<lparr>reg_bank = replicate 32 0\<rparr>)" by (simp add: bank_ok_def)
  note run = rtu_server_lifecycle[OF start bank this assms, of s J rounds]
  show ?thesis
  proof (cases "mutex \<noteq> 0 \<or> rc \<noteq> 0")
    case True
    have "links h1 = links h" if "rc \<noteq> 0" using mb_rtu_server_start_cases[OF start] that by auto
    with True run start show ?thesis by (cases "mutex = 0") (auto simp: rtu_server_main_def bank_ok_def)
  next
    case False
    then show ?thesis using run start by (auto simp: rtu_server_main_def)
  qed
qed

text \<open>A read of the temperature is served before the signal.\<close>

theorem rtu_server_main_runs_witness:
  "\<exists>rc app h' s'. rtu_server_main zero_stack 0 good_port [1, 1, 0] no_host (serial_line rtu_split_read) = Some (rc, app, h', s') \<and>
     bank_ok app \<and> fds h' = []"
  using rtu_server_main_runs[of good_port zero_stack 0 "[1, 1, 0]" no_host "serial_line rtu_split_read"]
  by (fastforce simp: good_port_def no_host_def)

end
