(* ===== verification/Rtu_Client_Example.thy ===== *)
theory Rtu_Client_Example
  imports Rtu_Client_Properties
begin

text \<open>
  The program of \<^verbatim>\<open>src/examples/rtu_client_example.c\<close>: connect, probe the device, one write, a read of the
  temperature at every turn until the program is told to stop, disconnect. The temperature is the raw
  register, which the program shows divided by 10.
\<close>

section \<open>The program\<close>

definition rtu_client_err_str :: "c_int \<Rightarrow> string" where
  "rtu_client_err_str rc =
     (if rc = 0 then ''OK'' else if rc = - 1 then ''ERR_ARG'' else if rc = - 2 then ''ERR_NOT_CONNECTED''
      else if rc = - 3 then ''ERR_TRANSPORT'' else if rc = - 4 then ''ERR_TIMEOUT'' else if rc = - 5 then ''ERR_FRAME''
      else if rc = - 6 then ''ERR_UNIT_ID'' else if rc = - 7 then ''ERR_CRC''
      else if rc > 0 then ''MODBUS_EXCEPTION'' else ''UNKNOWN'')"

text \<open>One turn of the loop: what was read, or the text and the number of the code.\<close>

definition rtu_poll ::
    "stack \<Rightarrow> mb_rtu_client_ctx option \<Rightarrow> bus_store \<Rightarrow> serial \<Rightarrow> (((string \<times> c_int) + u16) \<times> bus_store \<times> serial) option" where
  "rtu_poll J client H s = do {
     (rc, out, H, s) \<leftarrow> mb_rtu_client_read_holding_registers J client 0 1 (Some [0]) H s;
     if rc = 0 then do { out \<leftarrow> out; temperature_raw \<leftarrow> rd out 0; Some (Inr temperature_raw, H, s) }
     else Some (Inl (rtu_client_err_str rc, rc), H, s) }"

fun rtu_poll_loop ::
    "stack \<Rightarrow> c_int list \<Rightarrow> mb_rtu_client_ctx option \<Rightarrow> bus_store \<Rightarrow> serial \<Rightarrow>
     (((string \<times> c_int) + u16) list \<times> bus_store \<times> serial) option" where
  "rtu_poll_loop J [] client H s = Some ([], H, s)"
| "rtu_poll_loop J (running # r) client H s =
     (if running = 0 then Some ([], H, s)
      else do {
        (report, H, s) \<leftarrow> rtu_poll J client H s;
        (reports, H, s) \<leftarrow> rtu_poll_loop J r client H s;
        Some (report # reports, H, s) })"

definition example_rtu_config :: mb_rtu_client_config where
  "example_rtu_config = \<lparr>rc_device = Some ''/dev/ttyUSB0'', rc_baud_rate = 9600, rc_data_bits = 8, rc_stop_bits = 1,
     rc_parity = MB_RTU_PARITY_NONE, rc_unit_id = 1, rc_response_timeout_ms = 1000, rc_inter_frame_delay_us = 0,
     rc_bus_handoff_silence_ms = 0, rc_rs485_mode = 0, rc_local_echo = 0, rc_tx_hook = False\<rparr>"

text \<open>The context after \<open>mb_rtu_client_ctx_t client = {0}\<close>.\<close>

definition zero_rtu_client :: mb_rtu_client_ctx where
  "zero_rtu_client = \<lparr>rc_cfg = \<lparr>rc_device = None, rc_baud_rate = 0, rc_data_bits = 0, rc_stop_bits = 0,
     rc_parity = 0, rc_unit_id = 0, rc_response_timeout_ms = 0, rc_inter_frame_delay_us = 0,
     rc_bus_handoff_silence_ms = 0, rc_rs485_mode = 0, rc_local_echo = 0, rc_tx_hook = False\<rparr>,
     rc_fd = 0, rc_shared_bus = None, rc_initialized = 0\<rparr>"

definition rtu_client_main ::
    "stack \<Rightarrow> bus_env \<Rightarrow> c_int list \<Rightarrow> registry \<Rightarrow> serial \<Rightarrow>
     (c_int \<times> ((string \<times> c_int) + u16) list \<times> registry \<times> serial) option" where
  "rtu_client_main J E running R s = do {
     (rc, client, R) \<leftarrow> mb_rtu_client_connect E (Some zero_rtu_client) (Some example_rtu_config) R;
     if rc \<noteq> 0 then Some (1, [], R, s)
     else do {
       (probe_rc, H, s) \<leftarrow> mb_rtu_client_probe_device J client 0 1 (bus_heap R) s;
       if probe_rc \<noteq> 0 then do {
         (client, R) \<leftarrow> mb_rtu_client_disconnect client (R\<lparr>bus_heap := H\<rparr>);
         Some (1, [], R, s) }
       else do {
         (rc, H, s) \<leftarrow> mb_rtu_client_write_single_register J client 0x0A 300 H s;
         (reports, H, s) \<leftarrow> rtu_poll_loop J running client H s;
         (client, R) \<leftarrow> mb_rtu_client_disconnect client (R\<lparr>bus_heap := H\<rparr>);
         Some (0, reports, R, s) } } }"

section \<open>Between two calls\<close>

text \<open>The client is the only one on its bus, at address \<open>a\<close> with descriptor \<open>p\<close>.\<close>

definition alone_on_bus :: "mb_rtu_client_ctx \<Rightarrow> nat \<Rightarrow> c_int \<Rightarrow> bus_store \<Rightarrow> serial \<Rightarrow> bool" where
  "alone_on_bus c a p H s \<longleftrightarrow> (\<exists>b. on_bus c a b H \<and> H = [a \<mapsto> b] \<and> sb_refcnt b = 1 \<and> sb_fd b = p) \<and> sane_clock s \<and>
     rc_unit_id (rc_cfg c) \<noteq> 0"

lemma transact_alone:
  assumes "alone_on_bus c a p H s" and "5 \<le> n" and "n \<le> 253" and "n \<le> length pdu" and "length resp = 256"
  shows "\<exists>rc resp' H' s'. rtu_transact J c pdu n resp H s = Some (rc, resp', H', s') \<and> alone_on_bus c a p H' s' \<and> length resp' = 256"
proof -
  from assms(1) obtain b where b: "on_bus c a b H" "H = [a \<mapsto> b]" "sb_refcnt b = 1" "sb_fd b = p" "sane_clock s"
    "rc_unit_id (rc_cfg c) \<noteq> 0" unfolding alone_on_bus_def by blast
  have "rc_unit_id (rc_cfg c) = 0 \<longrightarrow> mb_pdu_is_write (hd pdu)" using b(6) by simp
  from rtu_transact_ends[OF b(1,5) assms(2-5) this, of J] obtain rc resp' H' s' where
    t: "rtu_transact J c pdu n resp H s = Some (rc, resp', H', s')" "length resp' = 256" "line_clk s' = line_clk s"
      "released c a H H' s'" by blast
  from t(4) b(2) obtain tm where tm: "sane_time tm" "H' = [a \<mapsto> b\<lparr>sb_last_release_time := tm, sb_last_unit_id := rc_unit_id (rc_cfg c),
      sb_has_last_transaction := True\<rparr>]" by (auto simp: released_def)
  have "alone_on_bus c a p H' s'"
    using b tm sane_clock_cong[OF t(3)] by (simp add: alone_on_bus_def on_bus_def)
  then show ?thesis using t(1,2) by blast
qed

lemma rtu_read_registers_alone:
  assumes "alone_on_bus c a p H s" and "1 \<le> unat qty" and "unat qty \<le> 125" and "unat qty \<le> length dst"
  shows "\<exists>rc dst' H' s'. rtu_read_registers J (Some c) fc addr qty (Some dst) H s = Some (rc, Some dst', H', s') \<and>
    alone_on_bus c a p H' s' \<and> length dst' = length dst"
proof -
  have q: "\<not> (qty = 0 \<or> unat qty > 125)" using assms(2,3) by auto
  let ?pdu = "blit (local8 J 253) 0 (read_req fc addr qty)" and ?resp = "local8 (stack_above 253 J) 256"
  have build: "mb_pdu_build_read (local8 J 253) fc addr qty = Some (5, ?pdu)" by (simp add: buf_simps)
  obtain rc resp' H' s' where t: "rtu_transact (stack_above 509 J) c ?pdu 5 ?resp H s = Some (rc, resp', H', s')"
    "alone_on_bus c a p H' s'" "length resp' = 256"
    using transact_alone[OF assms(1), of 5 ?pdu ?resp "stack_above 509 J"] by auto
  have "mb_pdu_get_registers (ptr resp' 1) qty dst =
      Some (blit dst 0 (of_be16s (drop 2 (take (2 + 2 * unat qty) (ptr resp' 1)))))"
    using get_registers_take[of "2 + 2 * unat qty" qty "ptr resp' 1" dst] assms(3,4) t(3) by (simp add: ptr_def)
  moreover have "length (of_be16s (drop 2 (take (2 + 2 * unat qty) (ptr resp' 1)))) = unat qty"
    using assms(3) t(3) by (simp add: length_of_be16s ptr_def)
  ultimately show ?thesis using q build t assms(4)
    by (cases "rc = 0") (simp_all add: rtu_read_registers_def Let_def)
qed

lemma rtu_probe_alone:
  assumes "alone_on_bus c a p H s"
  shows "\<exists>rc H' s'. mb_rtu_client_probe_device J (Some c) 0 1 H s = Some (rc, H', s') \<and> alone_on_bus c a p H' s'"
  using rtu_read_registers_alone[OF assms, of 1 "local16 J 125" J 3 0]
  by (auto simp: mb_rtu_client_probe_device_def mb_rtu_client_read_holding_registers_def)

lemma rtu_write_alone:
  assumes "alone_on_bus c a p H s"
  shows "\<exists>rc H' s'. mb_rtu_client_write_single_register J (Some c) addr v H s = Some (rc, H', s') \<and> alone_on_bus c a p H' s'"
  using transact_alone[OF assms, of 5 "blit (local8 J 253) 0 (read_req 6 addr v)" "local8 (stack_above 253 J) 256" "stack_above 509 J"]
  by (auto simp: mb_rtu_client_write_single_register_def rtu_write_transact_def mb_pdu_build_write_single_def buf_simps)

lemma rtu_poll_alone:
  assumes "alone_on_bus c a p H s"
  shows "\<exists>r H' s'. rtu_poll J (Some c) H s = Some (r, H', s') \<and> alone_on_bus c a p H' s'"
proof -
  obtain rc dst H' s' where r: "rtu_read_registers J (Some c) 3 0 1 (Some [0]) H s = Some (rc, Some dst, H', s')"
    "alone_on_bus c a p H' s'" "length dst = 1"
    using rtu_read_registers_alone[OF assms, of 1 "[0]" J 3 0] by auto
  then have "dst \<noteq> []" by auto
  with r show ?thesis
    by (cases "rc = 0") (simp_all add: rtu_poll_def mb_rtu_client_read_holding_registers_def rd_def)
qed

lemma rtu_poll_loop_alone:
  "alone_on_bus c a p H s \<Longrightarrow> \<exists>rs H' s'. rtu_poll_loop J running (Some c) H s = Some (rs, H', s') \<and> alone_on_bus c a p H' s' \<and>
     length rs = length (takeWhile (\<lambda>g. g \<noteq> 0) running)"
proof (induction running arbitrary: H s)
  case (Cons g gs)
  show ?case
  proof (cases "g = 0")
    case False
    obtain r H1 s1 where p: "rtu_poll J (Some c) H s = Some (r, H1, s1)" "alone_on_bus c a p H1 s1"
      using rtu_poll_alone[OF Cons.prems] by blast
    from Cons.IH[OF p(2)] p(1) False show ?thesis by auto
  qed (use Cons.prems in simp)
qed simp

section \<open>From connect to disconnect\<close>

lemma connect_first:
  assumes "p_open (e_port E) < 1024"
  shows "(\<exists>c h'. mb_rtu_client_connect E (Some zero_rtu_client) (Some example_rtu_config) (no_buses h) = Some (- 1, Some c, no_buses h') \<and>
      fds h' = fds h) \<or>
    (\<exists>c a p H h'. mb_rtu_client_connect E (Some zero_rtu_client) (Some example_rtu_config) (no_buses h) =
        Some (0, Some c, \<lparr>bus_heap = H, shared_buses = [a], reg_host = h'\<rparr>) \<and> fds h' = p # fds h \<and> 0 \<le> p \<and>
      (\<forall>s. sane_clock s \<longrightarrow> alone_on_bus c a p H s))"
    (is "?failed \<or> ?connected")
proof -
  let ?g = example_rtu_config
  let ?serial = "\<lparr>device = rc_device ?g, baud_rate = rc_baud_rate ?g, data_bits = rc_data_bits ?g, stop_bits = rc_stop_bits ?g,
      parity = rc_parity ?g, rs485_mode = rc_rs485_mode ?g\<rparr>"
  obtain krc key where key: "resolve_bus_key E (the (device ?serial)) = (krc, key)" by fastforce
  obtain orc fo h1 where op: "mb_rtu_open (e_port E) (Some (- 1)) (Some ?serial) h = (orc, fo, h1)" by (metis prod_cases3)
  note fds = mb_rtu_open_fds[OF op]
  note connect = mb_rtu_client_connect_def zero_rtu_client_def example_rtu_config_def shared_bus_attach_def no_buses_def
    open_bus_locked_def Let_def
  have failed: ?failed if "shared_bus_attach E ?serial (no_buses h) = Some (None, no_buses h')" "fds h' = fds h" for h'
    using that by (cases "e_ctx_mutex E = 0") (auto simp: mb_rtu_client_connect_def zero_rtu_client_def example_rtu_config_def Let_def)
  consider "krc \<noteq> 0 \<or> e_calloc E = None" | a where "krc = 0" "e_calloc E = Some a" "orc \<noteq> 0"
    | a where "krc = 0" "e_calloc E = Some a" "orc = 0" "e_bus_mutex E \<noteq> 0"
    | a where "krc = 0" "e_calloc E = Some a" "orc = 0" "e_bus_mutex E = 0" by (cases "e_calloc E") auto
  then show ?thesis
  proof cases
    case 1
    then have "shared_bus_attach E ?serial (no_buses h) = Some (None, no_buses h)"
      using key by (cases "krc = 0") (auto simp: shared_bus_attach_def no_buses_def open_bus_locked_def)
    then show ?thesis using failed by blast
  next
    case 2
    then have "shared_bus_attach E ?serial (no_buses h) = Some (None, no_buses h1)" "fds h1 = fds h"
      using key op fds by (auto simp: shared_bus_attach_def no_buses_def open_bus_locked_def)
    then show ?thesis using failed by blast
  next
    case 3
    then have "shared_bus_attach E ?serial (no_buses h) = Some (None, no_buses (snd (mb_rtu_close fo h1)))"
      "fds (snd (mb_rtu_close fo h1)) = fds h"
      using key op fds by (auto simp: shared_bus_attach_def no_buses_def open_bus_locked_def mb_rtu_close_def)
    then show ?thesis using failed by blast
  next
    case 4
    let ?p = "p_open (e_port E)"
    have p: "fo = Some ?p" "0 \<le> ?p" "fds h1 = ?p # fds h" using fds 4(3) by auto
    let ?b = "\<lparr>sb_path = key, sb_fd = ?p, sb_refcnt = 1, sb_baud_rate = effective_baud_rate 9600,
        sb_data_bits = effective_data_bits 8, sb_stop_bits = effective_stop_bits 1, sb_parity = parity ?serial,
        sb_rs485_mode = rs485_mode ?serial, sb_t35_us = mb_rtu_t35_us (Some ?serial), sb_has_last_transaction = False,
        sb_last_unit_id = 0, sb_last_release_time = (0, 0)\<rparr>"
    let ?c = "\<lparr>rc_cfg = ?g, rc_fd = ?p, rc_shared_bus = Some a, rc_initialized = 1\<rparr>"
    have attach: "shared_bus_attach E ?serial (no_buses h) =
        Some (Some a, \<lparr>bus_heap = [a \<mapsto> ?b], shared_buses = [a], reg_host = h1\<rparr>)"
      using 4 key op p by (simp add: shared_bus_attach_def no_buses_def open_bus_locked_def Let_def) (simp add: example_rtu_config_def)
    show ?thesis
    proof (cases "e_ctx_mutex E = 0")
      case False
      then show ?thesis by (intro disjI1) (auto simp: mb_rtu_client_connect_def zero_rtu_client_def example_rtu_config_def)
    next
      case True
      have "mb_rtu_client_connect E (Some zero_rtu_client) (Some ?g) (no_buses h) =
          Some (0, Some ?c, \<lparr>bus_heap = [a \<mapsto> ?b], shared_buses = [a], reg_host = h1\<rparr>)"
        using True attach by (simp add: mb_rtu_client_connect_def zero_rtu_client_def Let_def) (simp add: example_rtu_config_def)
      moreover have "alone_on_bus ?c a ?p [a \<mapsto> ?b] s" if "sane_clock s" for s
        using that p(2) assms
        by (simp add: alone_on_bus_def on_bus_def fd_ok_def effective_baud_rate_def) (simp add: example_rtu_config_def)
      ultimately show ?thesis using p(2,3) by blast
    qed
  qed
qed

lemma disconnect_last:
  assumes "alone_on_bus c a p H s" and "fds h' = p # fds h" and "0 \<le> p"
  shows "\<exists>c' h2. mb_rtu_client_disconnect (Some c) \<lparr>bus_heap = H, shared_buses = [a], reg_host = h'\<rparr> = Some (c', no_buses h2) \<and>
    fds h2 = fds h"
  using assms by (auto simp: alone_on_bus_def on_bus_def mb_rtu_client_disconnect_def shared_bus_detach_def mb_rtu_close_def no_buses_def
      Let_def)

text \<open>
  The example RTU client ends: for every script of the line with a clock that works it connects or gives
  up, probes the device, gives up when the probe fails, and otherwise writes and polls once for every turn it
  is not stopped; at the end no bus is left in the registry and the process has the descriptors it
  started with.
\<close>

theorem rtu_client_main_runs:
  assumes "p_open (e_port E) < 1024" and "sane_clock s"
  shows "\<exists>rc reports h' s'. rtu_client_main J E running (no_buses h) s = Some (rc, reports, no_buses h', s') \<and> fds h' = fds h \<and>
    (rc = 1 \<and> reports = [] \<or> rc = 0 \<and> length reports = length (takeWhile (\<lambda>g. g \<noteq> 0) running))"
  using connect_first[OF assms(1), of h]
proof (elim disjE exE conjE)
  fix c h' assume "mb_rtu_client_connect E (Some zero_rtu_client) (Some example_rtu_config) (no_buses h) = Some (- 1, Some c, no_buses h')"
    "fds h' = fds h"
  then show ?thesis by (intro exI[of _ 1] exI[of _ "[]"] exI[of _ h'] exI[of _ s]) (simp add: rtu_client_main_def)
next
  fix c a p H h'
  assume conn: "mb_rtu_client_connect E (Some zero_rtu_client) (Some example_rtu_config) (no_buses h) =
      Some (0, Some c, \<lparr>bus_heap = H, shared_buses = [a], reg_host = h'\<rparr>)"
    and h: "fds h' = p # fds h" "0 \<le> p" and "\<forall>s. sane_clock s \<longrightarrow> alone_on_bus c a p H s"
  then have "alone_on_bus c a p H s" using assms(2) by blast
  from rtu_probe_alone[OF this, of J] obtain prc H1 s1 where probe:
    "mb_rtu_client_probe_device J (Some c) 0 1 H s = Some (prc, H1, s1)" "alone_on_bus c a p H1 s1" by blast
  show ?thesis
  proof (cases "prc = 0")
    case False
    then show ?thesis using conn probe disconnect_last[OF probe(2) h] by (auto simp: rtu_client_main_def)
  next
    case True
    from rtu_write_alone[OF probe(2), of J 10 300] obtain wrc H2 s2 where wrote:
      "mb_rtu_client_write_single_register J (Some c) 10 300 H1 s1 = Some (wrc, H2, s2)" "alone_on_bus c a p H2 s2" by blast
    from rtu_poll_loop_alone[OF wrote(2), of J running] obtain rs H3 s3 where poll:
      "rtu_poll_loop J running (Some c) H2 s2 = Some (rs, H3, s3)" "alone_on_bus c a p H3 s3"
      "length rs = length (takeWhile (\<lambda>g. g \<noteq> 0) running)" by blast
    from disconnect_last[OF poll(2) h] obtain c' h2 where
      "mb_rtu_client_disconnect (Some c) \<lparr>bus_heap = H3, shared_buses = [a], reg_host = h'\<rparr> = Some (c', no_buses h2)" "fds h2 = fds h" by blast
    then show ?thesis using conn probe(1) wrote(1) poll(1,3) True by (auto simp: rtu_client_main_def)
  qed
qed

text \<open>On a line where nothing answers.\<close>

theorem rtu_client_main_runs_witness:
  "\<exists>rc reports h' s'. rtu_client_main zero_stack demo_bus_env [1, 0] (no_buses demo_host) (demo_line [] []) =
     Some (rc, reports, no_buses h', s') \<and> fds h' = [] \<and> length reports \<le> 1"
  using rtu_client_main_runs[of demo_bus_env "demo_line [] []" zero_stack "[1, 0]" demo_host]
  by (fastforce simp: demo_bus_env_def demo_host_def)

end
