(* ===== verification/Rtu_Link.thy ===== *)
theory Rtu_Link
  imports Rtu_Server_Facts Rtu_Exchange
begin

text \<open>
  The RTU client and the RTU server at the two ends of a serial line: the server's call on the bytes
  the client put on the line, and the client's transaction on the echo and the bytes the server put
  on the line.
\<close>

section \<open>A transaction against the server\<close>

text \<open>
  \<open>rtu_linked\<close>: the client is on its bus and its line takes what it writes at once; the server has an
  empty buffer and its line delivers the frame of the request and takes what it writes at once; after the flush of the client, its line delivers the echo, if there is
  one, then what the server put on the line, in time.
\<close>

definition rtu_linked ::
    "mb_rtu_client_ctx \<Rightarrow> nat \<Rightarrow> mb_rtu_shared_bus \<Rightarrow> bus_store \<Rightarrow> 'u mb_rtu_server_ctx \<Rightarrow> c_int \<Rightarrow> serial \<Rightarrow> serial \<Rightarrow>
     u8 list \<Rightarrow> u8 list \<Rightarrow> bool" where
  "rtu_linked c a b H srv fd s ss req sent \<longleftrightarrow>
     on_bus c a b H \<and> sane_clock s \<and> tx_takes s \<and> rc_unit_id (rc_cfg c) \<noteq> 0 \<and>
     tx_takes ss \<and> rx_ok srv \<and> rs_rx_len srv = 0 \<and> fd_ok fd \<and> echo_ends srv ss \<and> unit_id_matches srv (rc_unit_id (rc_cfg c)) \<and>
     rx_bytes (line ss) = request_adu c req \<and> read_rc (rx_stop (line ss)) = 0 \<and>
     in_time c b (sys_flush s) \<and> (\<exists>later. rx_bytes (line (sys_flush s)) = echoed c (request_adu c req) @ sent @ later)"

definition put_on_bus :: "serial \<Rightarrow> serial \<Rightarrow> u8 list" where
  "put_on_bus s s' = out_bytes (drop (length (bus s)) (bus s'))"

lemma put_on_bus_append: "bus s' = bus s @ es \<Longrightarrow> put_on_bus s s' = out_bytes es"
  by (simp add: put_on_bus_def)

text \<open>The frames of requests have the length the server expects.\<close>

definition request_shape :: "u8 list \<Rightarrow> bool" where
  "request_shape pdu \<longleftrightarrow>
     (if hd pdu \<in> {0x0F, 0x10} then 6 \<le> length pdu \<and> pdu ! 5 \<noteq> 0 \<and> unat (pdu ! 5) \<le> 247 \<and> length pdu = 6 + unat (pdu ! 5)
      else length pdu = 5)"

lemma next_request_client:
  assumes "request_shape pdu"
  shows "next_request (rtu_adu (uid # pdu)) = (Some (rtu_adu (uid # pdu)), [])"
proof -
  let ?f = "rtu_adu (uid # pdu)"
  have ne: "pdu \<noteq> []" "5 \<le> length pdu" using assms by (auto simp: request_shape_def split: if_splits)
  have at: "?f ! 1 = hd pdu" "5 < length pdu \<Longrightarrow> ?f ! 6 = pdu ! 5" using ne by (cases pdu; simp add: rtu_adu_def nth_append)+
  have checked: "checked (length ?f) ?f = Frame (length ?f)" by (simp add: checked_def crc_of_rtu_adu)
  have "head_of ?f = Frame (length ?f)"
  proof (cases "hd pdu \<in> {0x0F, 0x10}")
    case True
    then have "9 + unat (?f ! 6) = length ?f" "?f ! 6 \<noteq> 0" "unat (?f ! 6) \<le> 247" "6 < length ?f" "\<not> length ?f < 2"
      using assms at(2) by (auto simp: request_shape_def)
    then show ?thesis using True at(1) checked by (simp only: head_of_def) simp
  next
    case False
    then have "length ?f = 8" using assms by (simp add: request_shape_def)
    then show ?thesis using False at(1) checked by (simp only: head_of_def) simp
  qed
  then show ?thesis by (simp add: next_request.simps)
qed

text \<open>The reply of a device has the length the client expects.\<close>

lemma response_len_reply:
  assumes "known_fc fc" and "reply_fits fc addr qty r" and "length (reply_pdu r) \<le> 252"
  shows "response_len fc (uid # reply_pdu r) = Some (length (reply_pdu r) + 3)"
proof (cases r)
  case (ExcReply fc' ex)
  then show ?thesis using assms by (simp add: response_len_def)
next
  case (RegsReply fc' vs)
  then have "unat (of_nat (2 * length vs) :: u8) = 2 * length vs" using assms(3) by (intro unat_of_nat_u8) simp
  then show ?thesis using assms RegsReply known_fc_no_flag[OF assms(1)] by (auto simp: response_len_def simp del: of_nat_mult)
next
  case (BitsReply fc' bs)
  then have "unat (of_nat (length (packed bs)) :: u8) = length (packed bs)" using assms(3) by (intro unat_of_nat_u8) simp
  then show ?thesis using assms BitsReply known_fc_no_flag[OF assms(1)] by (auto simp: response_len_def simp del: length_packed)
next
  case (EchoReply fc' x v)
  then show ?thesis using assms known_fc_no_flag[OF assms(1)] by (auto simp: response_len_def read_req_def)
qed

lemma reply_code_range: "0 \<le> reply_code r"
  by (cases r) simp_all

lemma linked_server_answers:
  assumes dev: "device_ok I (rs_handlers (rs_cfg srv)) d" "I u"
    and run: "rtu_server_on_process J srv u fd ss = Some (rc, srv', u2, ss')"
    and link: "rtu_linked c a b H srv fd s ss req sent" and req: "request_shape req" "length req \<le> 252"
  shows "rc = 0 \<and> u2 = snd (serve d u req) \<and> rs_rx_len srv' = 0 \<and>
    put_on_bus ss ss' = rtu_adu (rc_unit_id (rc_cfg c) # reply_pdu (fst (serve d u req)))"
proof -
  let ?uid = "rc_unit_id (rc_cfg c)"
  have l: "rx_ok srv" "fd_ok fd" "echo_ends srv ss" "unit_id_matches srv ?uid" "?uid \<noteq> 0" "read_rc (rx_stop (line ss)) = 0"
    "rx_bytes (line ss) = rtu_adu (?uid # req)" "rs_rx_len srv = 0" "tx_takes ss"
    using link by (simp_all add: rtu_linked_def request_adu_def)
  have st: "\<not> stale srv (now ss)" "buffered srv = []" using l(8) by (simp_all add: stale_def buffered_def)
  have room: "rs_rx_len srv + length (rx_bytes (line ss)) < 256" using l(7,8) req(2) by simp
  have nr: "next_request (buffered srv @ rx_bytes (line ss)) = (Some (rtu_adu (?uid # req)), [])"
    using next_request_client[OF req(1)] l(7) st(2) by simp
  from on_process_serves[OF dev l(1-3) st(1) room l(6) nr l(4,5), of J] run
  have r: "u2 = snd (serve d u req)" "rx_ok srv'" "buffered srv' = []" "sends srv (if rx_bytes (line ss) = [] then rs_last_rx_us srv else now ss)
      (rtu_adu (?uid # reply_pdu (fst (serve d u req)))) (ss\<lparr>line_ticks := Suc (line_ticks ss), line := rx_rest (line ss)\<rparr>) rc ss'"
    by auto
  have "tx_takes (ss\<lparr>line_ticks := Suc (line_ticks ss), line := rx_rest (line ss)\<rparr>)" using l(9) by (simp add: tx_takes_def)
  with r(4) obtain p es where rc: "rc = 0" and "bus ss' = bus ss @ pauses p @ hooked (rs_tx_hook (rs_cfg srv)) es"
    "out_bytes es = rtu_adu (?uid # reply_pdu (fst (serve d u req)))" by (auto simp: sends_def)
  then show ?thesis using rc r(1) length_buffered[OF r(2)] r(3) by (simp add: put_on_bus_append)
qed

lemma linked_transaction:
  assumes dev: "device_ok I (rs_handlers (rs_cfg srv)) d" "I u" "known_fc fc"
    and pdu: "take n pdu = read_req fc addr qty @ body" "n = 5 + length body" "n \<le> length pdu" "n \<le> 252" "request_shape (take n pdu)"
    and serve: "serve d u (take n pdu) = (r, u')"
    and run: "rtu_server_on_process J' srv u fd ss = Some (rc, srv', u2, ss')"
    and link: "rtu_linked c a b H srv fd s ss (take n pdu) (put_on_bus ss ss')" and resp: "length resp = 256"
  shows "rc = 0 \<and> u2 = u' \<and> rs_rx_len srv' = 0 \<and> (\<exists>rest H' s'.
    rtu_transact J c pdu n resp H s = Some (reply_code r, rtu_adu (rc_unit_id (rc_cfg c) # reply_pdu r) @ rest, H', s') \<and>
    put_on_bus s s' = request_adu c (take n pdu))"
proof -
  let ?uid = "rc_unit_id (rc_cfg c)" and ?req = "take n pdu"
  have len: "length ?req \<le> 252" "?req \<noteq> []" "5 \<le> n" "n \<le> 253" using pdu(2,3,4) by auto
  have l: "on_bus c a b H" "sane_clock s" "tx_takes s" "?uid \<noteq> 0" "in_time c b (sys_flush s)" using link by (simp_all add: rtu_linked_def)
  from linked_server_answers[OF dev(1,2) run link pdu(5) len(1)] serve
  have srv: "u2 = u'" "rs_rx_len srv' = 0" "rc = 0" "put_on_bus ss ss' = rtu_adu (?uid # reply_pdu r)" by simp_all
  then obtain later where rx: "rx_bytes (line (sys_flush s)) = echoed c (request_adu c ?req) @ rtu_adu (?uid # reply_pdu r) @ later"
    using link by (auto simp: rtu_linked_def)
  have fits: "reply_fits fc addr qty r" using serve_reply_fits[OF dev, of addr qty body] serve pdu(1) by simp
  have rlen: "2 \<le> length (reply_pdu r)" "length (reply_pdu r) \<le> 252" using serve_reply_length[OF dev(1,2) len(2)] serve by simp_all
  have split: "pdu = read_req fc addr qty @ body @ drop n pdu" using pdu(1) by (metis append_assoc append_take_drop_id)
  have fc: "hd pdu = fc" by (subst split) (simp add: read_req_def)
  have check: "mb_pdu_check_response pdu (reply_pdu r @ rest) (length (reply_pdu r)) = Some (reply_code r)" for rest
    using check_response_reply[OF dev(3) fits] split by metis
  have "reply_code r \<noteq> - 1" using reply_code_range[of r] by linarith
  then have waits: "reply_waits c b pdu (request_adu c ?req) (reply_pdu r) (reply_code r) (sys_flush s)"
    unfolding reply_waits_def using l(4,5) rx check rlen response_len_reply[OF dev(3) fits rlen(2)] fc by blast
  have "?uid = 0 \<longrightarrow> mb_pdu_is_write (hd pdu)" using l(4) by simp
  from rtu_transact_ends[OF l(1,2) len(3,4) pdu(3) resp this, of J] l(3) waits obtain resp' H' s' where
    t: "rtu_transact J c pdu n resp H s = Some (reply_code r, resp', H', s')"
      "request_on_bus c b (request_adu c ?req) (reply_code r) s s'"
      "request_ends c pdu (request_adu c ?req) (reply_code r) resp' (sys_flush s) s'" by blast
  from t(3) reply_code_range[of r] l(4) obtain inp where inp: "rx_bytes (line (sys_flush s)) = echoed c (request_adu c ?req) @ inp"
    "response_answers c pdu inp (rx_bytes (line s')) (reply_code r) resp'" by (auto simp: request_ends_def)
  then obtain rpdu rest where a: "inp = rtu_adu (?uid # rpdu) @ rx_bytes (line s')" "resp' = rtu_adu (?uid # rpdu) @ rest"
    "response_len (hd pdu) inp = Some (length rpdu + 3)" unfolding response_answers_def by blast
  have "length rpdu = length (reply_pdu r)" using reply_waits_here[OF waits inp(1)] a(3) by (simp add: response_here_def)
  then have "rpdu = reply_pdu r" using a(1) rx inp(1) by simp
  moreover have "put_on_bus s s' = request_adu c ?req"
    using t(2) reply_code_range[of r] unfolding request_on_bus_def by (auto simp: put_on_bus_append)
  ultimately show ?thesis using srv(1-3) t(1) a(2) by blast
qed

section \<open>The public calls\<close>

lemma rtu_linked_read_registers:
  assumes dev: "device_ok I (rs_handlers (rs_cfg srv)) d" "I u"
    and g: "dev_read_regs d = Some g" "g fc addr (unat qty) u = (0, vs, u')"
    and args: "fc \<in> {3, 4}" "valid_qty 125 (unat qty)" "in_range addr (unat qty)" "unat qty \<le> length out"
    and run: "rtu_server_on_process J' srv u fd ss = Some (rc, srv', u2, ss')"
    and link: "rtu_linked c a b H srv fd s ss (read_req fc addr qty) (put_on_bus ss ss')"
  shows "rc = 0 \<and> u2 = u' \<and> rs_rx_len srv' = 0 \<and> (\<exists>H' s'. rtu_read_registers J (Some c) fc addr qty (Some out) H s =
      Some (0, Some (blit out 0 vs), H', s') \<and> put_on_bus s s' = request_adu c (read_req fc addr qty))"
proof -
  have fc: "known_fc fc" using args(1) by (auto simp: known_fc_def)
  obtain a1 a0 q1 q0 where b: "be16 addr = [a1, a0]" "of_be16 a1 a0 = addr"
    "be16 qty = [q1, q0]" "of_be16 q1 q0 = qty" by (simp add: be16_def)
  have len: "length vs = unat qty" using device_ok_read_regs_length[OF dev g args(2)] .
  let ?pdu = "blit (local8 J 253) 0 (read_req fc addr qty)"
  have tk: "take 5 ?pdu = read_req fc addr qty @ []" by simp
  have serve: "serve d u (take 5 ?pdu) = (RegsReply fc vs, u')"
    using args g b by (auto simp: tk read_req_def serve_read_regs_def)
  have shape: "request_shape (take 5 ?pdu)" using args(1) by (auto simp: tk request_shape_def read_req_def)
  have lk: "rtu_linked c a b H srv fd s ss (take 5 ?pdu) (put_on_bus ss ss')" using link by simp
  have n: "5 = 5 + length ([] :: u8 list)" "5 \<le> length ?pdu" "(5 :: nat) \<le> 252" by simp_all
  obtain rest H' s' where t: "rc = 0" "u2 = u'" "rs_rx_len srv' = 0"
    "rtu_transact (stack_above 509 J) c ?pdu 5 (local8 (stack_above 253 J) 256) H s =
      Some (0, rtu_adu (rc_unit_id (rc_cfg c) # reply_pdu (RegsReply fc vs)) @ rest, H', s')" "put_on_bus s s' = request_adu c (read_req fc addr qty)"
    using linked_transaction[OF dev fc tk n shape serve run lk, of "local8 (stack_above 253 J) 256" "stack_above 509 J"] by auto
  have "mb_pdu_get_registers (reply_pdu (RegsReply fc vs) @ r) qty out = Some (blit out 0 vs)" for r
    using get_registers_reply[OF len args(4), of fc _ r] by simp
  moreover have "ptr (rtu_adu (x # y) @ z) 1 = y @ crc_bytes (crc_of (x # y)) @ z" for x y z by (simp add: rtu_adu_def)
  moreover have "qty \<noteq> 0" "unat qty \<le> 125" using args(2) by (auto simp: valid_qty_def)
  ultimately show ?thesis using t
    by (simp add: rtu_read_registers_def mb_pdu_build_read_req Let_def del: reply_pdu.simps One_nat_def)
qed

lemma rtu_linked_write_registers:
  assumes dev: "device_ok I (rs_handlers (rs_cfg srv)) d" "I u"
    and g: "dev_write_regs d = Some g" "g addr vs u = (0, u')"
    and args: "length vs = unat qty" "valid_qty 123 (unat qty)" "in_range addr (unat qty)"
    and run: "rtu_server_on_process J' srv u fd ss = Some (rc, srv', u2, ss')"
    and link: "rtu_linked c a b H srv fd s ss (write_regs_req addr vs) (put_on_bus ss ss')"
  shows "rc = 0 \<and> u2 = u' \<and> rs_rx_len srv' = 0 \<and> (\<exists>H' s'. mb_rtu_client_write_multiple_registers J (Some c) addr qty (Some vs) H s =
      Some (0, H', s') \<and> put_on_bus s s' = request_adu c (write_regs_req addr vs))"
proof -
  have fc: "known_fc 16" by (simp add: known_fc_def)
  obtain a1 a0 q1 q0 where b: "be16 addr = [a1, a0]" "of_be16 a1 a0 = addr"
    "be16 qty = [q1, q0]" "of_be16 q1 q0 = qty" by (simp add: be16_def)
  have q: "qty \<noteq> 0" "unat qty \<le> 123" "0 < unat qty" using args(2) by (auto simp: valid_qty_def)
  let ?n = "6 + 2 * unat qty" and ?body = "of_nat (2 * unat qty) # be16s vs"
  let ?pdu = "blit (local8 J 253) 0 (write_regs_req addr vs)"
  have req: "write_regs_req addr vs = read_req 16 addr qty @ ?body" using args(1) by (simp add: write_regs_req_def)
  have bc: "unat (of_nat (2 * unat qty) :: u8) = 2 * unat qty" using q by (intro unat_of_nat_u8) simp
  have tk: "take ?n ?pdu = read_req 16 addr qty @ ?body" using args(1) by (simp only: req[symmetric]) simp
  have "serve d u (read_req 16 addr qty @ ?body) = (EchoReply 16 addr qty, u')"
    using args g b bc by (simp add: read_req_def serve_write_regs_def write_result_def del: of_nat_mult)
  then have serve: "serve d u (take ?n ?pdu) = (EchoReply 16 addr qty, u')" by (simp only: tk)
  have "(of_nat (2 * unat qty) :: u8) \<noteq> 0" using bc q(3) by (metis mult_is_0 not_less_zero unsigned_0 zero_neq_numeral)
  then have "request_shape (read_req 16 addr qty @ ?body)"
    using bc q(2) args(1) b by (simp add: request_shape_def read_req_def del: of_nat_mult)
  then have shape: "request_shape (take ?n ?pdu)" by (simp only: tk)
  have n: "?n = 5 + length ?body" "?n \<le> length ?pdu" "?n \<le> 252" using args(1) q(2) by simp_all
  have lk: "rtu_linked c a b H srv fd s ss (take ?n ?pdu) (put_on_bus ss ss')" using link tk[folded req] by simp
  obtain rest H' s' where t: "rc = 0" "u2 = u'" "rs_rx_len srv' = 0"
    "rtu_transact (stack_above 509 J) c ?pdu ?n (local8 (stack_above 253 J) 256) H s =
      Some (0, rtu_adu (rc_unit_id (rc_cfg c) # reply_pdu (EchoReply 16 addr qty)) @ rest, H', s')"
      "put_on_bus s s' = request_adu c (take ?n ?pdu)"
    using linked_transaction[OF dev fc tk n shape serve run lk, of "local8 (stack_above 253 J) 256" "stack_above 509 J"] by auto
  have "mb_pdu_build_write_registers (local8 J 253) addr qty vs = Some (?n, ?pdu)"
    using mb_pdu_build_write_registers_req[of qty vs "local8 J 253" addr] args(1) q(2) by simp
  then show ?thesis using t q(1,2) tk[folded req]
    by (simp add: mb_rtu_client_write_multiple_registers_def rtu_write_transact_def)
qed

end
