(* ===== verification/Rtu_Log.thy ===== *)
theory Rtu_Log
  imports Rtu_Client
begin

text \<open>
  The text of a failed transaction that \<^verbatim>\<open>src/src/modbus_rtu_client.c\<close> writes to its log: request and reply
  in hexadecimal. A C string is an array of characters up to the first zero.
\<close>

section \<open>Writing hexadecimal\<close>

abbreviation (input) NUL :: char where "NUL \<equiv> CHR 0x00"

definition hex_digit :: "nat \<Rightarrow> char" where
  "hex_digit n = ''0123456789ABCDEF'' ! n"

text \<open>The format \<^verbatim>\<open>%02X\<close>.\<close>

definition hex_byte :: "u8 \<Rightarrow> string" where
  "hex_byte b = [hex_digit (unat b div 16), hex_digit (unat b mod 16)]"

text \<open>
  \<open>snprintf\<close> of a text at an offset of an array: as much of it as fits with a zero after it into \<open>room\<close>
  places; the result is the length of the whole text.
\<close>

definition snprintf_text :: "char list \<Rightarrow> nat \<Rightarrow> nat \<Rightarrow> string \<Rightarrow> (nat \<times> char list) option" where
  "snprintf_text out off room text =
     (if room = 0 then Some (length text, out)
      else if off + room \<le> length out then Some (length text, blit out off (take (room - 1) text @ [NUL]))
      else None)"

text \<open>The loop; \<open>n < 0\<close> does not happen, as the format has no multibyte characters.\<close>

function hex_loop :: "u8 list \<Rightarrow> nat \<Rightarrow> nat \<Rightarrow> nat \<Rightarrow> nat \<Rightarrow> char list \<Rightarrow> char list option" where
  "hex_loop buf len out_cap i pos out =
     (if i < len \<and> pos + 3 < out_cap then do {
        b \<leftarrow> rd buf i;
        (n, out) \<leftarrow> snprintf_text out pos (out_cap - pos) (hex_byte b @ (if i + 1 < len then '' '' else ''''));
        hex_loop buf len out_cap (i + 1) (pos + n) out }
      else Some out)"
  by pat_completeness auto
termination by (relation "measure (\<lambda>(buf, len, out_cap, i, pos, out). len - i)") auto

declare hex_loop.simps [simp del]

definition format_hex_string :: "u8 list \<Rightarrow> nat \<Rightarrow> char list option \<Rightarrow> nat \<Rightarrow> char list option option" where
  "format_hex_string buf len out out_cap =
     (case out of
        None \<Rightarrow> Some None
      | Some out \<Rightarrow>
          if out_cap = 0 then Some (Some out)
          else do { out \<leftarrow> wr out 0 NUL; out \<leftarrow> hex_loop buf len out_cap 0 0 out; Some (Some out) })"

definition c_string :: "char list \<Rightarrow> string" where
  "c_string out = takeWhile (\<lambda>c. c \<noteq> NUL) out"

text \<open>
  The line that goes to the log hook: unit, code, and request and reply with their lengths. The two arrays
  start with whatever the stack holds.
\<close>

record failure_line =
  fl_unit :: u8
  fl_err :: c_int
  fl_tx :: "nat \<times> string"
  fl_rx :: "nat \<times> string"

definition log_transaction_failure ::
    "char list \<Rightarrow> char list \<Rightarrow> bool \<Rightarrow> c_int \<Rightarrow> u8 \<Rightarrow> u8 list \<Rightarrow> nat \<Rightarrow> u8 list \<Rightarrow> nat \<Rightarrow> failure_line option option" where
  "log_transaction_failure tx_hex rx_hex logv err unit_id req req_len resp resp_len = do {
     tx_hex \<leftarrow> format_hex_string req req_len (Some tx_hex) (MODBUS_RTU_MAX_ADU_LENGTH * 3);
     rx_hex \<leftarrow> format_hex_string resp resp_len (Some rx_hex) (MODBUS_RTU_MAX_ADU_LENGTH * 3);
     Some (if logv then Some \<lparr>fl_unit = unit_id, fl_err = err, fl_tx = (req_len, c_string (the tx_hex)),
       fl_rx = (resp_len, c_string (the rx_hex))\<rparr> else None) }"

section \<open>Reading it back\<close>

definition hex_value :: "char \<Rightarrow> nat option" where
  "hex_value c = (let i = length (takeWhile (\<lambda>d. d \<noteq> c) ''0123456789ABCDEF'') in if i < 16 then Some i else None)"

definition hex_pair :: "char \<Rightarrow> char \<Rightarrow> u8 option" where
  "hex_pair h l = do { a \<leftarrow> hex_value h; b \<leftarrow> hex_value l; Some (of_nat (16 * a + b)) }"

text \<open>A reader of the log: pairs of digits with a space between, and maybe one at the end.\<close>

fun read_hex :: "string \<Rightarrow> u8 list option" where
  "read_hex [] = Some []"
| "read_hex [c] = None"
| "read_hex [h, l] = map_option (\<lambda>b. [b]) (hex_pair h l)"
| "read_hex (h # l # s # r) = (if s = CHR '' '' then do { b \<leftarrow> hex_pair h l; bs \<leftarrow> read_hex r; Some (b # bs) } else None)"

lemma hex_digits: "n < 16 \<Longrightarrow> hex_value (hex_digit n) = Some n \<and> hex_digit n \<noteq> NUL"
proof -
  assume n: "n < 16"
  have "\<forall>n \<in> set [0..<16]. hex_value (hex_digit n) = Some n \<and> hex_digit n \<noteq> NUL" by code_simp
  then show ?thesis using n by simp
qed

lemma hex_pair_byte: "hex_pair (hex_digit (unat b div 16)) (hex_digit (unat b mod 16)) = Some b"
proof -
  have "unat b div 16 < 16" using unat_u8_less[of b] by simp
  moreover have "(of_nat (16 * (unat b div 16) + unat b mod 16) :: u8) = b" by (simp only: mult_div_mod_eq) simp
  ultimately show ?thesis by (simp add: hex_pair_def hex_digits del: of_nat_add of_nat_mult)
qed

text \<open>The text of some bytes: each with a space after it.\<close>

definition spaced :: "u8 list \<Rightarrow> string" where
  "spaced bs = concat (map (\<lambda>b. hex_byte b @ '' '') bs)"

lemma length_hex_byte [simp]: "length (hex_byte b) = 2"
  by (simp add: hex_byte_def)

lemma spaced_simps [simp]: "spaced [] = []" "spaced (b # bs) = hex_byte b @ CHR '' '' # spaced bs"
  "spaced (as @ bs) = spaced as @ spaced bs"
  by (simp_all add: spaced_def)

lemma length_spaced [simp]: "length (spaced bs) = 3 * length bs"
  by (induction bs) simp_all

lemma read_spaced: "read_hex (spaced bs) = Some bs" "read_hex (spaced bs @ hex_byte b) = Some (bs @ [b])"
  by (induction bs) (simp_all add: hex_byte_def hex_pair_byte)

lemma hex_byte_no_nul: "NUL \<notin> set (hex_byte b)"
proof -
  have "unat b div 16 < 16" using unat_u8_less[of b] by simp
  then show ?thesis using hex_digits[of "unat b div 16"] hex_digits[of "unat b mod 16"] by (auto simp: hex_byte_def)
qed

lemma spaced_no_nul: "NUL \<notin> set (spaced bs)"
  using hex_byte_no_nul by (induction bs) auto

section \<open>The loop\<close>

lemma blit_over: "off = length xs \<Longrightarrow> ys \<noteq> [] \<Longrightarrow> blit (blit b 0 (xs @ [c])) off ys = blit b 0 (xs @ ys)"
  by (cases ys) (simp_all add: blit_def add.commute)

lemma drop_blit_past: "length xs \<le> n \<Longrightarrow> drop n (blit b 0 xs) = drop n b"
  by (simp add: blit_def)

text \<open>What a text of \<open>cap\<close> places shows of \<open>len\<close> bytes.\<close>

definition shown :: "u8 list \<Rightarrow> nat \<Rightarrow> nat \<Rightarrow> string" where
  "shown buf len cap =
     (if len = 0 then [] else if len \<le> (cap - 1) div 3 then spaced (take (len - 1) buf) @ hex_byte (buf ! (len - 1))
      else spaced (take ((cap - 1) div 3) buf))"

lemma hex_loop_shows:
  assumes "len \<le> length buf" and "cap \<le> length out" and "i < len" and "3 * i < cap"
  shows "hex_loop buf len cap i (3 * i) (blit out 0 (spaced (take i buf) @ [NUL])) = Some (blit out 0 (shown buf len cap @ [NUL]))"
  using assms(3,4)
proof (induction "len - i" arbitrary: i)
  case (Suc n)
  have i: "i < length buf" using Suc.prems assms(1) by simp
  have grow: "take (Suc i) buf = take i buf @ [buf ! i]" using i by (simp add: take_Suc_conv_app_nth)
  show ?case
  proof (cases "3 * i + 3 < cap")
    case False
    then have "(cap - 1) div 3 = i" using Suc.prems(2) by presburger
    then show ?thesis using False Suc.prems by (subst hex_loop.simps) (simp add: shown_def)
  next
    case True
    let ?text = "hex_byte (buf ! i) @ (if i + 1 < len then [CHR '' ''] else [])" and ?out = "blit out 0 (spaced (take i buf) @ [NUL])"
    have len: "length ?out = length out" using True assms(2) i by simp
    have "snprintf_text ?out (3 * i) (cap - 3 * i) ?text = Some (length ?text, blit out 0 (spaced (take i buf) @ ?text @ [NUL]))"
    proof -
      have "length ?text \<le> 3" by simp
      then have "take (cap - 3 * i - 1) ?text = ?text" using True by (intro take_all) linarith
      moreover have "blit ?out (3 * i) (?text @ [NUL]) = blit out 0 (spaced (take i buf) @ ?text @ [NUL])"
        using i by (intro blit_over) simp_all
      ultimately show ?thesis using True assms(2) len by (simp add: snprintf_text_def)
    qed
    then have step: "hex_loop buf len cap i (3 * i) ?out =
        hex_loop buf len cap (Suc i) (3 * i + length ?text) (blit out 0 (spaced (take i buf) @ ?text @ [NUL]))"
      using Suc.prems(1) True i by (subst hex_loop.simps) (simp add: rd_def)
    show ?thesis
    proof (cases "Suc i < len")
      case more: True
      have rest: "hex_loop buf len cap (Suc i) (3 * Suc i) (blit out 0 (spaced (take (Suc i) buf) @ [NUL])) =
          Some (blit out 0 (shown buf len cap @ [NUL]))"
        using Suc.hyps(2) True more by (intro Suc.hyps(1)) simp_all
      have "3 * i + length ?text = 3 * Suc i" "spaced (take i buf) @ ?text @ [NUL] = spaced (take (Suc i) buf) @ [NUL]"
        using grow more by simp_all
      with step rest show ?thesis by (simp only:)
    next
      case False
      then have l: "len = Suc i" using Suc.prems(1) by simp
      have "len \<le> (cap - 1) div 3" using True l by presburger
      then show ?thesis using step l by (simp add: hex_loop.simps[of _ _ _ "Suc i"] shown_def)
    qed
  qed
qed simp

lemma format_hex_string_shows:
  assumes "len \<le> length buf" and "cap \<le> length out" and "0 < cap"
  shows "\<exists>out'. format_hex_string buf len (Some out) cap = Some (Some out') \<and> length out' = length out \<and> drop cap out' = drop cap out \<and>
    read_hex (c_string out') = Some (take (min len ((cap - 1) div 3)) buf)"
proof -
  let ?text = "shown buf len cap"
  let ?out = "blit out 0 (?text @ [NUL])"
  have "0 < length out" using assms(2,3) by linarith
  then have "wr out 0 NUL = Some (blit out 0 [NUL])" by (rule wr_blit)
  then have run: "format_hex_string buf len (Some out) cap = Some (Some ?out)"
    using hex_loop_shows[OF assms(1,2), of 0] assms(3)
    by (cases "len = 0") (simp_all add: format_hex_string_def hex_loop.simps[of _ 0] shown_def)
  have size: "length ?text < cap" using assms by (auto simp: shown_def)
  have "NUL \<notin> set ?text" using spaced_no_nul hex_byte_no_nul by (auto simp: shown_def)
  then have "takeWhile (\<lambda>c. c \<noteq> NUL) (?text @ NUL # drop (Suc (length ?text)) out) = ?text" by (subst takeWhile_append2) auto
  then have "c_string ?out = ?text" by (simp add: c_string_def blit_def)
  moreover have "read_hex ?text = Some (take (min len ((cap - 1) div 3)) buf)"
  proof (cases "len \<noteq> 0 \<and> len \<le> (cap - 1) div 3")
    case True
    then have "take len buf = take (len - 1) buf @ [buf ! (len - 1)]" using assms(1) by (cases len) (simp_all add: take_Suc_conv_app_nth)
    with True read_spaced(2) show ?thesis by (simp add: shown_def min_absorb1)
  next
    case False
    with read_spaced(1) show ?thesis by (auto simp: shown_def min_def)
  qed
  moreover have "length ?out = length out" "drop cap ?out = drop cap out"
    using size assms(2) by (simp_all add: drop_blit_past)
  ultimately show ?thesis using run by metis
qed

text \<open>
  C38. The log shows what was on the line: for every failed transaction the two texts are written without an
  access outside their arrays, and a reader of the log gets back the bytes of the request and of the reply, up to
  the 255th. The arrays have room for all 256 bytes of the longest frame, but its last one is not shown.
\<close>

theorem log_shows_frames:
  assumes "req_len \<le> length req" and "resp_len \<le> length resp" and "length tx_hex = 768" and "length rx_hex = 768"
  shows "\<exists>tx rx. log_transaction_failure tx_hex rx_hex True err unit_id req req_len resp resp_len =
      Some (Some \<lparr>fl_unit = unit_id, fl_err = err, fl_tx = (req_len, tx), fl_rx = (resp_len, rx)\<rparr>) \<and>
    read_hex tx = Some (take (min req_len 255) req) \<and> read_hex rx = Some (take (min resp_len 255) resp)"
proof -
  from format_hex_string_shows[OF assms(1), of 768 tx_hex] assms(3) obtain t where
    t: "format_hex_string req req_len (Some tx_hex) 768 = Some (Some t)" "read_hex (c_string t) = Some (take (min req_len 255) req)" by auto
  from format_hex_string_shows[OF assms(2), of 768 rx_hex] assms(4) obtain r where
    r: "format_hex_string resp resp_len (Some rx_hex) 768 = Some (Some r)" "read_hex (c_string r) = Some (take (min resp_len 255) resp)" by auto
  from t r show ?thesis by (simp add: log_transaction_failure_def)
qed

theorem log_shows_frames_witness:
  "\<exists>tx rx. log_transaction_failure (replicate 768 CHR ''x'') (replicate 768 CHR ''y'') True (- 4) 1 [1, 3, 0xAB] 3 [] 0 =
      Some (Some \<lparr>fl_unit = 1, fl_err = - 4, fl_tx = (3, tx), fl_rx = (0, rx)\<rparr>) \<and>
    read_hex tx = Some [1, 3, 0xAB] \<and> read_hex rx = Some []"
  using log_shows_frames[of 3 "[1, 3, 0xAB]" 0 "[]" "replicate 768 CHR ''x''" "replicate 768 CHR ''y''" "- 4" 1] by simp

end
