(* ===== verification/Spec2Isabelle.thy ===== *)
theory Spec2Isabelle
  imports Pdu_Properties Rtu_Frame_Properties Tcp_Frame_Properties Tcp_Server_Properties Tcp_Service_Properties Tcp_Stop_Properties
    Tcp_Client_Example Tcp_Masters Tcp_Client_Properties Tcp_Link Rtu_Server_Properties Rtu_Bus_Properties Rtu_Client_Properties Rtu_Server_Example Rtu_Client_Example Rtu_Link
    Rtu_Log
begin

text \<open>
  A model of the C library for Modbus TCP and RTU under \<^verbatim>\<open>src/\<close>, with the theorems that make it correct.
  Paths below are relative to the repository.

  \<^bold>\<open>The program.\<close> The PDU layer (\<^verbatim>\<open>src/src/modbus_pdu.c\<close>) builds and checks requests and responses and
  dispatches a request to the callbacks of an application; both transports use it on both sides. TCP
  framing, sockets and the listener are in \<^verbatim>\<open>modbus_tcp.c\<close>; \<^verbatim>\<open>modbus_tcp_server.c\<close> is the callback the
  listener runs for a client that is ready; \<^verbatim>\<open>modbus_tcp_client.c\<close> connects and runs one transaction at a time.
  RTU framing and the serial port are in \<^verbatim>\<open>modbus_rtu.c\<close>; \<^verbatim>\<open>modbus_rtu_server.c\<close> is the callback the thread of
  the port runs; \<^verbatim>\<open>modbus_rtu_client.c\<close> shares one open port between the clients of a bus and keeps its
  timing. The examples are applications on top.

  \<^bold>\<open>The theories, in the order of the code.\<close>
  \<^item> \<open>Modbus_Prelude\<close>: machine integers as words, byte buffers, bounded loops, big-endian encoding, packed bits.
    A buffer is a list of its bytes; an access outside it, and any other undefined behaviour of C, is \<open>None\<close>.
    A local array starts with the contents of a stack that is an argument, so that nothing depends on them.
  \<^item> \<open>Modbus_Pdu\<close> (\<^verbatim>\<open>modbus_pdu.c\<close>, function by function), \<open>Pdu_Server\<close> (the abstract server \<open>serve\<close> on a device
    whose operations work on values, and the proof that the dispatch implements it), \<open>Pdu_Client\<close> (what a client
    makes of a reply; the interface \<open>pdu_server\<close>), \<open>Register_Bank\<close> (the application of the RTU server example, an
    interpretation of it), \<open>Pdu_Properties\<close>.
  \<^item> \<open>Rtu_Frame\<close> (checksum, line timing, builders and parser of \<^verbatim>\<open>modbus_rtu.c\<close>), \<open>Rtu_Frame_Properties\<close>.
  \<^item> \<open>Tcp_Frame\<close> (builders and parser of \<^verbatim>\<open>modbus_tcp.c\<close>), \<open>Tcp_Frame_Properties\<close>.
  \<^item> \<open>Sock_Io\<close> (a stream socket as a script of events, with the loops that receive and send exactly),
    \<open>Tcp_Connect\<close> (\<open>mb_tcp_connect\<close>, \<open>mb_tcp_close\<close>), \<open>Tcp_Server\<close> and \<open>Tcp_Server_Properties\<close>
    (\<^verbatim>\<open>modbus_tcp_server.c\<close>: one call of the callback), \<open>Tcp_Client\<close>, \<open>Tcp_Client_Facts\<close> and
    \<open>Tcp_Client_Properties\<close> (\<^verbatim>\<open>modbus_tcp_client.c\<close>), \<open>Tcp_Link\<close> (both at the ends of a connection),
    \<open>Tcp_Masters\<close> (several masters on one server).
  \<^item> \<open>Tcp_Transport\<close> (the listener and the dialling thread of \<^verbatim>\<open>modbus_tcp.c\<close>, starting and stopping),
    \<open>Tcp_Transport_Facts\<close> (their invariants, with the contract of the callback as the interface
    \<open>stream_service\<close>), \<open>Tcp_Service\<close> (the TCP server on the listener), \<open>Tcp_Server_Example\<close>
    (\<^verbatim>\<open>examples/tcp_server_example.c\<close>), \<open>Tcp_Service_Properties\<close>, \<open>Tcp_Client_Example\<close>
    (\<^verbatim>\<open>examples/tcp_client_example.c\<close>).
  \<^item> \<open>Tcp_Interleaving\<close> (the listener thread, the thread that runs \<open>mb_tcp_stop\<close> and the rest of the process as a
    step relation, one step per access to what they share), \<open>Tcp_Interleaving_Facts\<close> (its invariant and
    progress), \<open>Tcp_Stop_Properties\<close>.
  \<^item> \<open>Serial_Io\<close> (a serial line as a script, writing a frame with the transmit-enable hook), \<open>Rtu_Transport\<close>
    (opening and configuring the port, the thread, of \<^verbatim>\<open>modbus_rtu.c\<close>), \<open>Rtu_Server\<close>, \<open>Rtu_Server_Facts\<close> and
    \<open>Rtu_Server_Properties\<close> (\<^verbatim>\<open>modbus_rtu_server.c\<close>), \<open>Rtu_Server_Example\<close> (main of
    \<^verbatim>\<open>examples/rtu_server_example.c\<close>).
  \<^item> \<open>Rtu_Bus\<close> and \<open>Rtu_Bus_Properties\<close> (the registry of shared ports of \<^verbatim>\<open>modbus_rtu_client.c\<close>), \<open>Rtu_Client\<close>,
    \<open>Rtu_Client_Facts\<close>, \<open>Rtu_Transaction\<close>, \<open>Rtu_Exchange\<close> and \<open>Rtu_Client_Properties\<close> (its transactions),
    \<open>Rtu_Client_Example\<close> (\<^verbatim>\<open>examples/rtu_client_example.c\<close>), \<open>Rtu_Link\<close> (client and server at the ends of a line),
    \<open>Rtu_Log\<close> (the text of the frames of a failed transaction).
  \<^item> this theory: the properties that span client, server and application.

  \<^bold>\<open>State and operations.\<close> The contexts and configurations of the code are records with its fields; a callback
  is a function on the state of the application, in \<open>option\<close> so that it may have no defined outcome, and a pointer
  the code compares with null is an optional value. A function that changes state returns the new state with its
  result. The operating system is a script inside the state of a socket or line, or an argument of an operation:
  what arrives and how it is cut, how much a write takes, how a wait ends, what the clock shows, which
  descriptor a call returns. Theorems quantify over the script. A wait without an end is \<open>None\<close>.

  \<^bold>\<open>What the lemmas show.\<close> The dispatch refines the abstract server for every application that implements a
  device, is in bounds for arbitrary callbacks, and the client accepts every reply of it. The checksum detects bursts
  and odd errors. The servers answer each request, cut into segments in any way, as the abstract server does,
  skip what is not for them, and return for every script; the RTU server finds requests behind noise, keeps the
  silence of the line and never answers a broadcast. Transactions of the clients return for every script, are
  believed only for a complete reply to the request, and leave the stream at a frame boundary or close it. The
  registry of buses, the slots of the listener and the descriptors of the process stay consistent in every run
  of operations, from start to stop. Stopping the listener while it runs releases every slot and returns in
  every interleaving, and its steps taken in turn are the round and the stop of the transport. End to end, a client's read stores what the device behind the server
  holds, and its write has the effect of the device's own write; what one master writes the next one reads.

  \<^bold>\<open>Loops.\<close> Every loop of the code is a structural recursion or a function with a termination proof, except the
  threads and the polling loops of the examples, which run on a list of the values that their tests of
  \<open>keep_running\<close> or \<open>g_running\<close> see; the list may have any length. No loop uses fuel.

  \<^bold>\<open>Not modelled.\<close> Logging and other output but for the frames of a failed RTU transaction, and the text of error messages
  but for the texts of the codes in the examples. Mutual
  exclusion: a section under a lock is one step, and the programs that run a client from several threads are
  the sequences of its calls. \<open>mb_tcp_stop\<close> of the listener is modelled step by step against the running thread, with
  a sequentially consistent memory; for the dialling thread it acts after the last step of the thread, and so does
  \<open>mb_rtu_stop\<close>, which only clears \<open>keep_running\<close> before it waits for its thread. \<open>setsockopt\<close>,
  \<open>termios\<close> and the RS-485 \<open>ioctl\<close> are recorded, not interpreted, but for receive timeouts. Signal handlers and
  the tests are left out.
\<close>

section \<open>Client and server over TCP\<close>


definition demo_server_sock :: sock where
  "demo_server_sock = socket [Seg 0 [5, 0, 0, 0, 6], RxErr EINTR, Seg 1 [3, 0, 0, 0, 2]]"

definition demo_client_sock :: sock where
  "demo_client_sock = demo_sock [Seg 0 [4, 0, 0, 0, 3, 1, 0x83, 2, 0, 5, 0, 0], Seg 0 [7, 1, 3, 4, 0, 253, 0, 1]]
     [PollReady, PollReady]"

lemma demo_server_run:
  "\<exists>r. server_on_process zero_stack bank_server bank_state demo_server_sock =
      Some (0, Some \<lparr>reg_bank = refresh (replicate 32 0)\<rparr>,
        demo_server_sock\<lparr>rx := r, wire := tcp_adu 5 1 [3, 4, 0, 253, 0, 1]\<rparr>)"
proof -
  have "rx_bytes (rx demo_server_sock) = tcp_adu 5 1 [3, 0, 0, 0, 2] @ []"
    by (simp add: demo_server_sock_def socket_def tcp_adu_def be16_def)
  moreover have "accepts_unit bank_server 1" by (simp add: accepts_unit_def bank_server_def)
  moreover have "tx demo_server_sock = []" by (simp add: demo_server_sock_def socket_def)
  ultimately show ?thesis
    using tcp_server_answers_step[OF bank_server_ok bank_state_ok, of demo_server_sock 5 1 "[3, 0, 0, 0, 2]" "[]" zero_stack]
      serve_bank_read by (simp add: be16_def) (simp add: demo_server_sock_def socket_def, blast)
qed

lemma demo_linked:
  "linked demo_client bank_server demo_client_sock demo_server_sock (read_req 3 0 2)
     (tcp_adu 5 1 [3, 4, 0, 253, 0, 1]) [(4, 1, [0x83, 2])]"
proof -
  have "effective_response_timeout_ms demo_client = 500" "advance_tid (cl_tid demo_client) = 5"
    by (simp_all add: effective_response_timeout_ms_def demo_client_def demo_cfg_def advance_tid_def)
  moreover have "prompt (Suc (Suc 0)) 500 (demo_client_sock\<lparr>ticks := k\<rparr>)" for k
    by (simp add: prompt_def clock_ms_def demo_client_sock_def demo_sock_def)
  moreover have "clock_ms demo_client_sock k = 0" for k by (simp add: demo_client_sock_def)
  moreover have "rx_bytes (rx demo_client_sock) = frames [(4, 1, [0x83, 2])] @ tcp_adu 5 1 [3, 4, 0, 253, 0, 1]"
    "rx_bytes (rx demo_server_sock) = tcp_adu 5 1 (read_req 3 0 2)"
    by (simp_all add: demo_client_sock_def demo_sock_def demo_server_sock_def socket_def tcp_adu_def be16_def read_req_def)
  ultimately show ?thesis
    by (simp add: linked_def)
       (simp add: demo_client_def demo_cfg_def demo_client_sock_def demo_sock_def demo_server_sock_def socket_def
         accepts_unit_def bank_server_def)
qed

lemma bank_read_2: "bank_read 3 0 (unat (2 :: u16)) bank_state = (0, [253, 1], Some \<lparr>reg_bank = refresh (replicate 32 0)\<rparr>)"
proof -
  have "take 2 (refresh (replicate 32 0)) = [253, 1]" by (simp add: refresh_def numeral_2_eq_2 eval_nat_numeral)
  then show ?thesis by (simp add: bank_read_def bank_state_def)
qed



definition write_server_sock :: sock where
  "write_server_sock = socket [Seg 0 [5, 0, 0, 0], Seg 11 [1, 16, 0, 0, 0, 2, 4, 0, 0x11, 0, 0x22]]"

definition write_client_sock :: sock where
  "write_client_sock = demo_sock [Seg 0 [5, 0, 0, 0, 6, 1, 16, 0, 0, 0, 2]] [PollReady]"

lemma write_regs_req_demo: "write_regs_req 0 [0x11, 0x22] = [16, 0, 0, 0, 2, 4, 0, 0x11, 0, 0x22]"
  by (simp add: write_regs_req_def read_req_def be16_def)

lemma write_linked:
  "linked demo_client bank_server write_client_sock write_server_sock (write_regs_req 0 [0x11, 0x22])
     (tcp_adu 5 1 (read_req 16 0 2)) []"
proof -
  have "effective_response_timeout_ms demo_client = 500" "advance_tid (cl_tid demo_client) = 5"
    by (simp_all add: effective_response_timeout_ms_def demo_client_def demo_cfg_def advance_tid_def)
  moreover have "prompt (Suc 0) 500 (write_client_sock\<lparr>ticks := k\<rparr>)" for k
    by (simp add: prompt_def clock_ms_def write_client_sock_def demo_sock_def)
  moreover have "clock_ms write_client_sock k = 0" for k by (simp add: write_client_sock_def)
  moreover have "rx_bytes (rx write_client_sock) = frames [] @ tcp_adu 5 1 (read_req 16 0 2)"
    "rx_bytes (rx write_server_sock) = tcp_adu 5 1 (write_regs_req 0 [0x11, 0x22])"
    unfolding write_regs_req_demo
    by (simp_all add: write_client_sock_def demo_sock_def write_server_sock_def socket_def tcp_adu_def be16_def read_req_def)
  ultimately show ?thesis
    by (simp add: linked_def)
       (simp add: demo_client_def demo_cfg_def write_client_sock_def demo_sock_def write_server_sock_def socket_def
         accepts_unit_def bank_server_def)
qed

lemma bank_write_2: "bank_write 0 [0x11, 0x22] bank_state = (0, Some \<lparr>reg_bank = 0x11 # 0x22 # replicate 30 0\<rparr>)"
  by (simp add: bank_write_def bank_state_def blit_def)

lemma serve_bank_write: "serve bank_device bank_state [16, 0, 0, 0, 2, 4, 0, 0x11, 0, 0x22] =
    (EchoReply 16 0 2, Some \<lparr>reg_bank = 0x11 # 0x22 # replicate 30 0\<rparr>)"
proof -
  have "of_be16 0 2 = 2" "of_be16 0 0 = 0" "of_be16 0 0x11 = 0x11" "of_be16 0 0x22 = 0x22" by (simp_all add: of_be16_def)
  then show ?thesis
    using bank_write_2 by (simp add: serve_write_regs_def bank_device_def valid_qty_def in_range_def write_result_def)
qed


section \<open>Client and server over a serial line\<close>

text \<open>
  C39. A read over a serial line end to end: when the server of a device gets the frame the client
  puts on the bus and the client gets its echo, if the transceiver echoes, and then what the server
  put on the bus, the client's read of 1 to 125 registers puts exactly that frame on the bus and succeeds; it
  stores exactly the values the device gave, in order, and the device is in the state after the
  read.
\<close>

theorem rtu_read_end_to_end:
  assumes "device_ok I (rs_handlers (rs_cfg srv)) d" and "I u"
    and "dev_read_regs d = Some g" and "g 3 addr (unat qty) u = (0, vs, u')"
    and "valid_qty 125 (unat qty)" and "in_range addr (unat qty)" and "unat qty \<le> length out"
    and "rtu_server_on_process J' srv u fd ss = Some (rc, srv', u2, ss')"
    and "rtu_linked c a b H srv fd s ss (read_req 3 addr qty) (put_on_bus ss ss')"
  shows "rc = 0 \<and> u2 = u' \<and> rs_rx_len srv' = 0 \<and>
    (\<exists>H' s'. mb_rtu_client_read_holding_registers J (Some c) addr qty (Some out) H s =
       Some (0, Some (vs @ drop (unat qty) out), H', s') \<and> put_on_bus s s' = request_adu c (read_req 3 addr qty))"
proof -
  have "length vs = unat qty" using device_ok_read_regs_length[OF assms(1-5)] .
  then have "blit out 0 vs = vs @ drop (unat qty) out" by (simp add: blit_def)
  then show ?thesis
    using rtu_linked_read_registers[OF assms(1-4) _ assms(5-9), of J]
    unfolding mb_rtu_client_read_holding_registers_def by simp
qed

text \<open>The line of the client at the bus, with a reply in one piece, and the line of the server.\<close>

definition rtu_client_line :: "rx_event list \<Rightarrow> serial" where
  "rtu_client_line evs = demo_line evs (replicate 16 PollReady)"

lemma rtu_bank_linked:
  assumes "rx_bytes evs = rtu_adu (1 # req)" and "rx_stop evs = None"
    and "rx_bytes cevs = sent" and "rx_weight cevs \<le> 16"
  shows "rtu_linked demo_rtu_client 4096 demo_bus demo_buses rtu_bank_ctx 5 (rtu_client_line cevs) (serial_line evs) req sent"
proof -
  have "in_time demo_rtu_client demo_bus (rtu_client_line cevs)"
    unfolding in_time_def rtu_prompt_def rtu_client_line_def demo_line_clock demo_span using assms(4) by (simp add: demo_line_def)
  moreover have "rc_unit_id (rc_cfg demo_rtu_client) = 1" "rc_local_echo (rc_cfg demo_rtu_client) = 0" by (simp_all add: demo_rtu_simps)
  moreover have "read_rc None = 0" by (simp add: read_rc_def)
  ultimately show ?thesis using assms demo_on_bus rtu_bank_line rtu_bank_ok
    by (simp add: rtu_linked_def rtu_client_line_def request_adu_def echoed_def tx_takes_def)
       (simp add: demo_line_def serial_line_def)
qed

lemma rtu_bank_run:
  assumes "rx_bytes evs = rtu_adu (1 # req)" and "rx_stop evs = None" and "request_shape req" and "length req \<le> 252"
    and "serve bank_device bank_state req = (r, u')"
  obtains srv' ss' where "rtu_server_on_process zero_stack rtu_bank_ctx bank_state 5 (serial_line evs) = Some (0, srv', u', ss')"
    and "put_on_bus (serial_line evs) ss' = rtu_adu (1 # reply_pdu r)"
proof -
  have u: "rc_unit_id (rc_cfg demo_rtu_client) = 1" by (simp add: demo_rtu_simps)
  have st: "\<not> stale rtu_bank_ctx (now (serial_line evs))" "read_rc (rx_stop (line (serial_line evs))) = 0" "(1 :: u8) \<noteq> 0"
    using rtu_bank_ok(5) assms(2) by (simp_all add: serial_line_def read_rc_def)
  have room: "rs_rx_len rtu_bank_ctx + length (rx_bytes (line (serial_line evs))) < 256"
    using rtu_bank_ok(4) assms(1,4) by (simp add: serial_line_def)
  have nr: "next_request (buffered rtu_bank_ctx @ rx_bytes (line (serial_line evs))) = (Some (rtu_adu (1 # req)), [])"
    using next_request_client[OF assms(3), of 1] assms(1) rtu_bank_ok(2) by (simp add: serial_line_def)
  from on_process_serves[OF rtu_bank_device bank_state_ok rtu_bank_ok(1) rtu_bank_line(1,2) st(1) room st(2) nr rtu_bank_line(3) st(3), of zero_stack] assms(5)
  obtain rc srv' ss' where run: "rtu_server_on_process zero_stack rtu_bank_ctx bank_state 5 (serial_line evs) = Some (rc, srv', u', ss')" by auto
  have lk: "rtu_linked demo_rtu_client 4096 demo_bus demo_buses rtu_bank_ctx 5 (rtu_client_line []) (serial_line evs) req []"
    using rtu_bank_linked[OF assms(1,2), of "[]" "[]"] by simp
  from linked_server_answers[OF rtu_bank_device bank_state_ok run lk assms(3,4)] run assms(5) show thesis
    by (intro that[of srv' ss']) (simp_all add: u)
qed

theorem rtu_read_end_to_end_witness:
  "\<exists>H' s' u' srv' ss'. rtu_server_on_process zero_stack rtu_bank_ctx bank_state 5 (serial_line rtu_split_read) = Some (0, srv', u', ss') \<and>
     mb_rtu_client_read_holding_registers zero_stack (Some demo_rtu_client) 0 2 (Some [0, 0, 7]) demo_buses
       (rtu_client_line [Seg 1 [3, 4, 0], RxErr EINTR, Seg 253 [0, 1, 170, 3]]) = Some (0, Some [253, 1, 7], H', s')"
proof -
  let ?req = "read_req 3 0 2" and ?cl = "[Seg 1 [3, 4, 0], RxErr EINTR, Seg 253 [0, 1, 170, 3]]"
  have req: "?req = [3, 0, 0, 0, 2]" by (simp add: read_req_def be16_def)
  have evs: "rx_bytes rtu_split_read = rtu_adu (1 # ?req)" "rx_stop rtu_split_read = None"
    unfolding req rtu_read_frame by (simp_all add: rtu_split_read_def)
  have shape: "request_shape ?req" "length ?req \<le> 252" by (simp_all add: req request_shape_def)
  have "rtu_adu [1, 3, 4, 0, 253, 0, 1] = [1, 3, 4, 0, 253, 0, 1, 170, 3]" by code_simp
  then have reply: "rtu_adu (1 # reply_pdu (RegsReply 3 [253, 1])) = [1, 3, 4, 0, 253, 0, 1, 170, 3]" by (simp add: be16_def)
  from rtu_bank_run[OF evs shape, of "RegsReply 3 [253, 1]"] serve_bank_read obtain srv' u' ss' where
    run: "rtu_server_on_process zero_stack rtu_bank_ctx bank_state 5 (serial_line rtu_split_read) = Some (0, srv', u', ss')"
    and put: "put_on_bus (serial_line rtu_split_read) ss' = [1, 3, 4, 0, 253, 0, 1, 170, 3]" unfolding req reply by metis
  have lk: "rtu_linked demo_rtu_client 4096 demo_bus demo_buses rtu_bank_ctx 5 (rtu_client_line ?cl) (serial_line rtu_split_read) ?req
      (put_on_bus (serial_line rtu_split_read) ss')"
    using evs by (intro rtu_bank_linked) (simp_all add: put)
  have g: "dev_read_regs bank_device = Some bank_read" by (simp add: bank_device_def)
  show ?thesis
    using rtu_read_end_to_end[OF rtu_bank_device bank_state_ok g bank_read_2 _ _ _ run lk, of "[0, 0, 7]" zero_stack] run
    by (simp add: valid_qty_def in_range_def) blast
qed

text \<open>
  C40. A write over a serial line end to end: under the same conditions the client's write of 1 to 123
  registers puts exactly the frame of the request on the bus and succeeds exactly as the device's
  own write does, with the values the caller passed, in order, and the device ends in the state
  after that write.
\<close>

theorem rtu_write_end_to_end:
  assumes "device_ok I (rs_handlers (rs_cfg srv)) d" and "I u"
    and "dev_write_regs d = Some g" and "g addr vs u = (0, u')"
    and "length vs = unat qty" and "valid_qty 123 (unat qty)" and "in_range addr (unat qty)"
    and "rtu_server_on_process J' srv u fd ss = Some (rc, srv', u2, ss')"
    and "rtu_linked c a b H srv fd s ss (write_regs_req addr vs) (put_on_bus ss ss')"
  shows "rc = 0 \<and> u2 = u' \<and> rs_rx_len srv' = 0 \<and>
    (\<exists>H' s'. mb_rtu_client_write_multiple_registers J (Some c) addr qty (Some vs) H s = Some (0, H', s') \<and>
       put_on_bus s s' = request_adu c (write_regs_req addr vs))"
  using rtu_linked_write_registers[OF assms] .

definition rtu_write_line :: "rx_event list" where
  "rtu_write_line = [Seg 1 [16, 0, 0, 0, 2, 4, 0], Seg 0x11 [0, 0x22, 35, 179]]"

theorem rtu_write_end_to_end_witness:
  "\<exists>H' s' u' srv' ss'. rtu_server_on_process zero_stack rtu_bank_ctx bank_state 5 (serial_line rtu_write_line) = Some (0, srv', u', ss') \<and>
     u' = Some \<lparr>reg_bank = 0x11 # 0x22 # replicate 30 0\<rparr> \<and>
     mb_rtu_client_write_multiple_registers zero_stack (Some demo_rtu_client) 0 2 (Some [0x11, 0x22]) demo_buses
       (rtu_client_line [Seg 1 [16, 0, 0, 0, 2], Seg 65 [200]]) = Some (0, H', s')"
proof -
  let ?req = "write_regs_req 0 [0x11, 0x22]" and ?cl = "[Seg 1 [16, 0, 0, 0, 2], Seg 65 [200]]"
  have "rtu_adu [1, 16, 0, 0, 0, 2, 4, 0, 0x11, 0, 0x22] = [1, 16, 0, 0, 0, 2, 4, 0, 0x11, 0, 0x22, 35, 179]" by code_simp
  then have evs: "rx_bytes rtu_write_line = rtu_adu (1 # ?req)" "rx_stop rtu_write_line = None"
    unfolding write_regs_req_demo by (simp_all add: rtu_write_line_def)
  have shape: "request_shape ?req" "length ?req \<le> 252" unfolding write_regs_req_demo by (simp_all add: request_shape_def)
  have "rtu_adu [1, 16, 0, 0, 0, 2] = [1, 16, 0, 0, 0, 2, 65, 200]" by code_simp
  then have reply: "rtu_adu (1 # reply_pdu (EchoReply 16 0 2)) = [1, 16, 0, 0, 0, 2, 65, 200]" by (simp add: read_req_def be16_def)
  from rtu_bank_run[OF evs shape serve_bank_write[folded write_regs_req_demo]] obtain srv' ss' where
    run: "rtu_server_on_process zero_stack rtu_bank_ctx bank_state 5 (serial_line rtu_write_line) =
      Some (0, srv', Some \<lparr>reg_bank = 0x11 # 0x22 # replicate 30 0\<rparr>, ss')"
    and put: "put_on_bus (serial_line rtu_write_line) ss' = [1, 16, 0, 0, 0, 2, 65, 200]" unfolding reply by metis
  have lk: "rtu_linked demo_rtu_client 4096 demo_bus demo_buses rtu_bank_ctx 5 (rtu_client_line ?cl) (serial_line rtu_write_line) ?req
      (put_on_bus (serial_line rtu_write_line) ss')"
    using evs by (intro rtu_bank_linked) (simp_all add: put)
  have g: "dev_write_regs bank_device = Some bank_write" by (simp add: bank_device_def)
  show ?thesis
    using rtu_write_end_to_end[OF rtu_bank_device bank_state_ok g bank_write_2 _ _ _ run lk, of 2 zero_stack] run
    by (simp add: valid_qty_def in_range_def) blast
qed

end
